(* ===== verification/Prelude.thy ===== *)
theory Prelude
  imports Main "HOL-Library.Word" "HOL-Library.Sublist"
begin

text \<open>
  Shared vocabulary of the development. It holds the Go integer types with their
  wrap-around, Go strings as byte lists, the outcome of a Go call (a value, an error value or
  a run-time panic), slice expressions with their bounds check, state-passing steps with
  their composition, and the invariant combinator \<open>keeps\<close> with its collection of
  introduction rules. Nothing here models a file of the repository.
\<close>

named_theorems keeps_intros \<open>composition rules for steps that keep an invariant\<close>
named_theorems step_simps \<open>evaluation of composed steps\<close>

section \<open>Machine integers\<close>

text \<open>Go's uint64 and uint32 are words; int, int64 and int32 are integers wrapped at
  their width (two's complement), with the wrap written out where the code adds.\<close>

type_synonym u64 = "64 word"
type_synonym u32 = "32 word"

definition wrap_int :: "nat \<Rightarrow> int \<Rightarrow> int" where
  "wrap_int w x = (x + 2 ^ (w - 1)) mod 2 ^ w - 2 ^ (w - 1)"

abbreviation int64 :: "int \<Rightarrow> int" where
  "int64 \<equiv> wrap_int 64"

abbreviation int32 :: "int \<Rightarrow> int" where
  "int32 \<equiv> wrap_int 32"

definition is_int :: "nat \<Rightarrow> int \<Rightarrow> bool" where
  "is_int w x \<longleftrightarrow> - (2 ^ (w - 1)) \<le> x \<and> x < 2 ^ (w - 1)"

lemma wrap_int_id: "0 < w \<Longrightarrow> is_int w x \<Longrightarrow> wrap_int w x = x"
proof -
  assume w: "0 < w" and x: "is_int w x"
  obtain v where v: "w = Suc v" using w by (cases w) auto
  have "(x + 2 ^ v) mod (2 * 2 ^ v) = x + 2 ^ v"
    using x by (intro mod_pos_pos_trivial) (auto simp: is_int_def v)
  then show ?thesis by (simp add: wrap_int_def v)
qed

lemma is_int_wrap_int: "0 < w \<Longrightarrow> is_int w (wrap_int w x)"
proof -
  assume w: "0 < w"
  obtain v where v: "w = Suc v" using w by (cases w) auto
  have "0 \<le> (x + 2 ^ v) mod (2 * 2 ^ v)" and "(x + 2 ^ v) mod (2 * 2 ^ v) < 2 * 2 ^ v"
    by (simp_all add: pos_mod_bound)
  then show ?thesis by (simp add: wrap_int_def is_int_def v)
qed

section \<open>Outcomes\<close>

text \<open>An error value keeps the text the code builds; \<open>Ctx\<close> is the
  \<open>"%s: %v"\<close> wrapping of logAndReturnError, \<open>Quoted pre q post\<close> and
  \<open>InvalidAddress q\<close> are messages that quote (\<open>%q\<close>) the string \<open>q\<close>; \<open>Waited\<close> is the text of
  resolveClientWait around the two errors.\<close>

datatype gerr =
    Msg string
  | Ctx string gerr
  | Waited gerr gerr
  | Quoted string string string
  | AddressRequired
  | InvalidAddress string

datatype go_panic = SliceBounds | NilMapWrite

datatype 'a go = Ret 'a | Err gerr | Panic go_panic

text \<open>A slice expression \<open>xs[lo:hi]\<close> checks \<open>0 \<le> lo \<le> hi \<le> len\<close> and panics otherwise.\<close>

definition slice :: "'a list \<Rightarrow> int \<Rightarrow> int \<Rightarrow> 'a list go" where
  "slice xs lo hi =
     (if 0 \<le> lo \<and> lo \<le> hi \<and> hi \<le> int (length xs)
      then Ret (take (nat (hi - lo)) (drop (nat lo) xs)) else Panic SliceBounds)"

lemma slice_Ret:
  "0 \<le> lo \<Longrightarrow> lo \<le> hi \<Longrightarrow> hi \<le> int (length xs) \<Longrightarrow>
   slice xs lo hi = Ret (take (nat (hi - lo)) (drop (nat lo) xs))"
  by (simp add: slice_def)

section \<open>Steps over a state\<close>

type_synonym ('s, 'a) step = "'s \<Rightarrow> 'a go \<times> 's"

definition ret :: "'a \<Rightarrow> ('s, 'a) step" where
  "ret a s = (Ret a, s)"

definition fail :: "gerr \<Rightarrow> ('s, 'a) step" where
  "fail e s = (Err e, s)"

definition lift :: "'a go \<Rightarrow> ('s, 'a) step" where
  "lift g s = (g, s)"

definition obs :: "('s \<Rightarrow> 'a) \<Rightarrow> ('s, 'a) step" where
  "obs f s = (Ret (f s), s)"

definition upd :: "('s \<Rightarrow> 's) \<Rightarrow> ('s, unit) step" where
  "upd f s = (Ret (), f s)"

definition and_then :: "('s, 'a) step \<Rightarrow> ('a \<Rightarrow> ('s, 'b) step) \<Rightarrow> ('s, 'b) step" where
  "and_then m k s =
     (case m s of
        (Ret a, s') \<Rightarrow> k a s'
      | (Err e, s') \<Rightarrow> (Err e, s')
      | (Panic p, s') \<Rightarrow> (Panic p, s'))"

text \<open>The error-tolerant composition: the continuation sees the error value, as code does
  that inspects \<open>err\<close> instead of returning it. A panic still unwinds.\<close>

definition catching :: "('s, 'a) step \<Rightarrow> (gerr + 'a \<Rightarrow> ('s, 'b) step) \<Rightarrow> ('s, 'b) step" where
  "catching m k s =
     (case m s of
        (Ret a, s') \<Rightarrow> k (Inr a) s'
      | (Err e, s') \<Rightarrow> k (Inl e) s'
      | (Panic p, s') \<Rightarrow> (Panic p, s'))"

lemma ret_apply [simp, step_simps]: "ret a s = (Ret a, s)"
  by (simp add: ret_def)

lemma fail_apply [simp, step_simps]: "fail e s = (Err e, s)"
  by (simp add: fail_def)

lemma lift_apply [simp, step_simps]: "lift g s = (g, s)"
  by (simp add: lift_def)

lemma obs_apply [simp, step_simps]: "obs f s = (Ret (f s), s)"
  by (simp add: obs_def)

lemma upd_apply [simp, step_simps]: "upd f s = (Ret (), f s)"
  by (simp add: upd_def)

lemma and_then_Ret [simp]: "m s = (Ret a, s') \<Longrightarrow> and_then m k s = k a s'"
  by (simp add: and_then_def)

lemma and_then_Err [simp]: "m s = (Err e, s') \<Longrightarrow> and_then m k s = (Err e, s')"
  by (simp add: and_then_def)

lemma and_then_Panic [simp]: "m s = (Panic p, s') \<Longrightarrow> and_then m k s = (Panic p, s')"
  by (simp add: and_then_def)

text \<open>Inversion of a composed step that returned a value.\<close>

lemma and_then_RetE:
  assumes "and_then m k s = (Ret b, t)"
  obtains a s' where "m s = (Ret a, s')" and "k a s' = (Ret b, t)"
  using assms by (auto simp: and_then_def split: prod.splits go.splits)

section \<open>Invariants of steps\<close>

definition keeps :: "('s \<Rightarrow> bool) \<Rightarrow> ('s, 'a) step \<Rightarrow> bool" where
  "keeps I m \<longleftrightarrow> (\<forall>s. I s \<longrightarrow> I (snd (m s)))"

lemma keepsI: "(\<And>s. I s \<Longrightarrow> I (snd (m s))) \<Longrightarrow> keeps I m"
  by (simp add: keeps_def)

lemma keepsD: "keeps I m \<Longrightarrow> I s \<Longrightarrow> I (snd (m s))"
  by (simp add: keeps_def)

lemma keeps_ret [keeps_intros]: "keeps I (ret a)"
  by (simp add: keeps_def)

lemma keeps_fail [keeps_intros]: "keeps I (fail e)"
  by (simp add: keeps_def)

lemma keeps_lift [keeps_intros]: "keeps I (lift g)"
  by (simp add: keeps_def)

lemma keeps_obs [keeps_intros]: "keeps I (obs f)"
  by (simp add: keeps_def)

lemma keeps_upd [keeps_intros]: "(\<And>s. I s \<Longrightarrow> I (f s)) \<Longrightarrow> keeps I (upd f)"
  by (simp add: keeps_def)

lemma keeps_and_then [keeps_intros]:
  assumes "keeps I m" and "\<And>a. keeps I (k a)"
  shows "keeps I (and_then m k)"
proof (rule keepsI)
  fix s assume "I s"
  then have "I (snd (m s))" using assms(1) by (simp add: keeps_def)
  then show "I (snd (and_then m k s))"
    using assms(2) by (auto simp: and_then_def keeps_def split: prod.splits go.splits)
qed

lemma keeps_catching [keeps_intros]:
  assumes "keeps I m" and "\<And>a. keeps I (k a)"
  shows "keeps I (catching m k)"
proof (rule keepsI)
  fix s assume "I s"
  then have "I (snd (m s))" using assms(1) by (simp add: keeps_def)
  then show "I (snd (catching m k s))"
    using assms(2) by (auto simp: catching_def keeps_def split: prod.splits go.splits)
qed

lemma keeps_if [keeps_intros]: "keeps I m \<Longrightarrow> keeps I n \<Longrightarrow> keeps I (if b then m else n)"
  by simp

section \<open>Strings and maps\<close>

fun contains :: "string \<Rightarrow> string \<Rightarrow> bool" where
  "contains [] sub = (sub = [])"
| "contains (c # s) sub = (prefix sub (c # s) \<or> contains s sub)"

lemma contains_sublist: "contains s sub \<longleftrightarrow> sublist sub s"
  by (induction s) (auto simp: sublist_Cons_right)

text \<open>Go ranges over a map in an unspecified order: an order is any list of its keys.\<close>

definition is_order :: "'k list \<Rightarrow> ('k \<rightharpoonup> 'v) \<Rightarrow> bool" where
  "is_order ks m \<longleftrightarrow> distinct ks \<and> set ks = dom m"

definition map_len :: "('k \<rightharpoonup> 'v) \<Rightarrow> nat" where
  "map_len m = card (dom m)"

lemma map_len_empty [simp]: "map_len Map.empty = 0"
  by (simp add: map_len_def)

lemma is_order_empty [simp]: "is_order ks Map.empty \<longleftrightarrow> ks = []"
  by (auto simp: is_order_def)

lemma is_order_length: "is_order ks m \<Longrightarrow> length ks = map_len m"
  by (metis distinct_card is_order_def map_len_def)

lemma map_len_insert:
  "finite (dom m) \<Longrightarrow> map_len (m(k \<mapsto> v)) = (if k \<in> dom m then map_len m else Suc (map_len m))"
  by (auto simp: map_len_def insert_absorb)

lemma map_len_delete:
  "finite (dom m) \<Longrightarrow> k \<in> dom m \<Longrightarrow> map_len (m(k := None)) = map_len m - 1"
  by (simp add: map_len_def)

end
