(* ===== verification/Addr.thy ===== *)
theory Addr
  imports Prelude
begin

text \<open>
  Addresses at the tool boundary (internal/server/util.go): parseAddr, parseAddrDefault,
  hexAddr and hexAddrTuples, with the parts of the Go standard library they call
  (strings.TrimSpace, strconv.ParseUint in a fixed base, the \<open>%x\<close> and \<open>%d\<close> verbs)
  modelled on bytes. The lemmas show that rendering and parsing are inverse.
\<close>

section \<open>Standard library: white space, digits\<close>

text \<open>The UTF-8 encodings of the code points of unicode.IsSpace.\<close>

definition space_encodings :: "string list" where
  "space_encodings =
     [[CHR 0x09], [CHR 0x0A], [CHR 0x0B], [CHR 0x0C], [CHR 0x0D], [CHR 0x20],
      [CHR 0xC2, CHR 0x85], [CHR 0xC2, CHR 0xA0], [CHR 0xE1, CHR 0x9A, CHR 0x80],
      [CHR 0xE2, CHR 0x80, CHR 0x80], [CHR 0xE2, CHR 0x80, CHR 0x81],
      [CHR 0xE2, CHR 0x80, CHR 0x82], [CHR 0xE2, CHR 0x80, CHR 0x83],
      [CHR 0xE2, CHR 0x80, CHR 0x84], [CHR 0xE2, CHR 0x80, CHR 0x85],
      [CHR 0xE2, CHR 0x80, CHR 0x86], [CHR 0xE2, CHR 0x80, CHR 0x87],
      [CHR 0xE2, CHR 0x80, CHR 0x88], [CHR 0xE2, CHR 0x80, CHR 0x89],
      [CHR 0xE2, CHR 0x80, CHR 0x8A], [CHR 0xE2, CHR 0x80, CHR 0xA8],
      [CHR 0xE2, CHR 0x80, CHR 0xA9], [CHR 0xE2, CHR 0x80, CHR 0xAF],
      [CHR 0xE2, CHR 0x81, CHR 0x9F], [CHR 0xE3, CHR 0x80, CHR 0x80]]"

function strip_with :: "string list \<Rightarrow> string \<Rightarrow> string" where
  "strip_with encs s =
     (case List.find (\<lambda>e. e \<noteq> [] \<and> prefix e s) encs of
        None \<Rightarrow> s
      | Some e \<Rightarrow> strip_with encs (drop (length e) s))"
  by pat_completeness auto
termination
proof (relation "measure (\<lambda>(encs, s). length s)", simp)
  fix encs :: "string list" and s e :: string
  assume "List.find (\<lambda>e. e \<noteq> [] \<and> prefix e s) encs = Some e"
  then have "e \<noteq> []" and "prefix e s" by (auto simp: find_Some_iff)
  then show "((encs, drop (length e) s), encs, s) \<in> measure (\<lambda>(encs, s). length s)"
    by (cases s; cases e) auto
qed

declare strip_with.simps [simp del]

definition TrimSpace :: "string \<Rightarrow> string" where
  "TrimSpace s =
     (let t = strip_with space_encodings s
      in rev (strip_with (map rev space_encodings) (rev t)))"

text \<open>The digit of a character in bases up to 36, as strconv reads it.\<close>

definition digit_of :: "char \<Rightarrow> nat option" where
  "digit_of c =
     (let n = of_char c :: nat
      in if 48 \<le> n \<and> n \<le> 57 then Some (n - 48)
         else if 97 \<le> n \<and> n \<le> 122 then Some (n - 97 + 10)
         else if 65 \<le> n \<and> n \<le> 90 then Some (n - 65 + 10)
         else None)"

text \<open>strconv.ParseUint(s, base, 64): a syntax or range error is \<open>None\<close>.\<close>

fun parse_digits :: "nat \<Rightarrow> nat \<Rightarrow> string \<Rightarrow> nat option" where
  "parse_digits base acc [] = Some acc"
| "parse_digits base acc (c # cs) =
     (case digit_of c of
        None \<Rightarrow> None
      | Some d \<Rightarrow>
          if base \<le> d then None
          else if 2 ^ 64 \<le> acc * base + d then None
          else parse_digits base (acc * base + d) cs)"

definition ParseUint :: "string \<Rightarrow> nat \<Rightarrow> u64 option" where
  "ParseUint s base =
     (if s = [] then None else map_option word_of_nat (parse_digits base 0 s))"

definition digit_char :: "nat \<Rightarrow> char" where
  "digit_char d = (if d < 10 then char_of (48 + d) else char_of (87 + d))"

fun show_base :: "nat \<Rightarrow> nat \<Rightarrow> string" where
  "show_base b n =
     (if n < b \<or> b < 2 then [digit_char n] else show_base b (n div b) @ [digit_char (n mod b)])"

declare show_base.simps [simp del]

text \<open>The \<open>%x\<close> verb on an unsigned value and the \<open>%d\<close> verb on a signed one.\<close>

definition show_hex :: "nat \<Rightarrow> string" where
  "show_hex n = show_base 16 n"

definition show_dec :: "int \<Rightarrow> string" where
  "show_dec i = (if i < 0 then ''-'' @ show_base 10 (nat (- i)) else show_base 10 (nat i))"

section \<open>util.go: addresses\<close>

definition parseAddr :: "string \<Rightarrow> u64 go" where
  "parseAddr s =
     (let t = TrimSpace s
      in if t = [] then Err AddressRequired
         else
           let (t, base) =
             (if 2 \<le> length t \<and> (take 2 t = ''0x'' \<or> take 2 t = ''0X'')
              then (drop 2 t, 16) else (t, 10))
           in case ParseUint t base of
                None \<Rightarrow> Err (InvalidAddress s)
              | Some v \<Rightarrow> Ret v)"

definition parseAddrDefault :: "string \<Rightarrow> u64 \<Rightarrow> u64 go" where
  "parseAddrDefault s def = (if TrimSpace s = [] then Ret def else parseAddr s)"

definition hexAddr :: "u64 \<Rightarrow> string" where
  "hexAddr a = ''0x'' @ show_hex (unat a)"

text \<open>Cached xref tuples are \<open>[address, type]\<close>, built with both components by every writer.\<close>

definition hexAddrTuples :: "(u64 \<times> u32) list \<Rightarrow> (string \<times> u32) list" where
  "hexAddrTuples tuples = map (\<lambda>(a, ty). (hexAddr a, ty)) tuples"

section \<open>Rendering and parsing are inverse\<close>

lemma of_char_digit_char:
  "d < 16 \<Longrightarrow> of_char (digit_char d) = (if d < 10 then 48 + d else 87 + d :: nat)"
  by (simp add: digit_char_def)

lemma digit_of_digit_char [simp]: "d < 16 \<Longrightarrow> digit_of (digit_char d) = Some d"
  by (simp add: digit_of_def of_char_digit_char)

lemma show_base_small: "2 \<le> b \<Longrightarrow> n < b \<Longrightarrow> show_base b n = [digit_char n]"
  by (subst show_base.simps) simp

lemma show_base_step:
  "2 \<le> b \<Longrightarrow> b \<le> n \<Longrightarrow> show_base b n = show_base b (n div b) @ [digit_char (n mod b)]"
  by (subst show_base.simps) simp

lemma show_base_nonempty [simp]: "show_base b n \<noteq> []"
  by (subst show_base.simps) simp

lemma parse_digits_append:
  "parse_digits b acc (xs @ ys) =
     (case parse_digits b acc xs of None \<Rightarrow> None | Some n \<Rightarrow> parse_digits b n ys)"
  by (induction b acc xs rule: parse_digits.induct) (auto split: option.splits)

text \<open>Reading back the rendered digits gives the number, in either base the code uses.\<close>

lemma parse_digits_show_base:
  assumes "2 \<le> b" and "b \<le> 16" and "n < 2 ^ 64"
  shows "parse_digits b 0 (show_base b n) = Some n"
  using assms(3)
proof (induction n rule: less_induct)
  case (less n)
  show ?case
  proof (cases "n < b")
    case True
    with assms less.prems show ?thesis by (simp add: show_base_small)
  next
    case False
    then have lt: "n div b < n" using assms by (intro div_less_dividend) auto
    with less have IH: "parse_digits b 0 (show_base b (n div b)) = Some (n div b)"
      using less.prems by auto
    have m: "n mod b < b" and s: "n div b * b + n mod b = n" using assms by auto
    then have "n mod b < 16" using assms by linarith
    then have "digit_of (digit_char (n mod b)) = Some (n mod b)" by simp
    moreover have "(b \<le> n mod b) = False" using m by (simp only: not_le [symmetric] simp_thms)
    ultimately show ?thesis using s False less.prems assms IH
      by (simp add: show_base_step parse_digits_append)
  qed
qed

lemma ParseUint_show_base:
  "2 \<le> b \<Longrightarrow> b \<le> 16 \<Longrightarrow> ParseUint (show_base b (unat a)) b = Some a"
  by (simp add: ParseUint_def parse_digits_show_base unsigned_less [of a, simplified])

text \<open>Rendered digits are not white space, so TrimSpace leaves a rendered address alone.\<close>

lemma of_char_show_base:
  assumes "2 \<le> b" and "b \<le> 16" and "c \<in> set (show_base b n)"
  shows "48 \<le> (of_char c :: nat) \<and> (of_char c :: nat) < 128"
  using assms(3)
proof (induction n rule: less_induct)
  case (less n)
  show ?case
  proof (cases "n < b")
    case True
    with less.prems assms show ?thesis by (auto simp: show_base_small of_char_digit_char)
  next
    case False
    then have d: "n div b < n" using assms by auto
    have "n mod b < b" using assms by simp
    then have m: "n mod b < 16" using assms by linarith
    have "c \<in> set (show_base b (n div b)) \<or> c = digit_char (n mod b)"
      using False less.prems assms by (auto simp: show_base_step)
    then show ?thesis using less.IH [OF d] m by (auto simp: of_char_digit_char)
  qed
qed

definition visible :: "char \<Rightarrow> bool" where
  "visible c \<longleftrightarrow> 32 < (of_char c :: nat) \<and> (of_char c :: nat) < 128"

lemma strip_with_visible:
  assumes "s \<noteq> []" and "visible (hd s)" and "\<forall>e \<in> set encs. e \<noteq> [] \<longrightarrow> \<not> visible (hd e)"
  shows "strip_with encs s = s"
proof -
  have "List.find (\<lambda>e. e \<noteq> [] \<and> prefix e s) encs = None"
    using assms by (auto simp: find_None_iff prefix_def)
  then show ?thesis by (simp add: strip_with.simps)
qed

lemma TrimSpace_visible:
  assumes "s \<noteq> []" and "visible (hd s)" and "visible (last s)"
  shows "TrimSpace s = s"
proof -
  have "strip_with space_encodings s = s"
    using assms by (intro strip_with_visible) (simp_all add: space_encodings_def visible_def)
  moreover have "strip_with (map rev space_encodings) (rev s) = rev s"
    using assms
    by (intro strip_with_visible) (simp_all add: space_encodings_def visible_def hd_rev)
  ultimately show ?thesis by (simp add: TrimSpace_def)
qed

lemma visible_show_base:
  "2 \<le> b \<Longrightarrow> b \<le> 16 \<Longrightarrow> c \<in> set (show_base b n) \<Longrightarrow> visible c"
  using of_char_show_base [of b c n] by (simp add: visible_def)

lemma TrimSpace_show_base:
  "2 \<le> b \<Longrightarrow> b \<le> 16 \<Longrightarrow> TrimSpace (show_base b n) = show_base b n"
  by (intro TrimSpace_visible) (auto intro: visible_show_base [of b _ n])

lemma TrimSpace_hexAddr: "TrimSpace (hexAddr a) = hexAddr a"
proof (rule TrimSpace_visible)
  show "visible (hd (hexAddr a))" by (simp add: hexAddr_def visible_def)
  show "visible (last (hexAddr a))"
    by (auto simp: hexAddr_def show_hex_def intro: visible_show_base [of 16 _ "unat a"])
qed (simp add: hexAddr_def)

lemma parseAddr_hexAddr: "parseAddr (hexAddr a) = Ret a"
  by (simp add: parseAddr_def TrimSpace_hexAddr)
     (simp add: hexAddr_def show_hex_def ParseUint_show_base)

lemma hexAddr_inj: "hexAddr a = hexAddr b \<Longrightarrow> a = b"
  by (metis go.inject(1) parseAddr_hexAddr)

section \<open>Properties\<close>

lemma parseAddr_decimal: "parseAddr (show_dec (uint a)) = Ret a"
proof -
  have dec: "show_dec (uint a) = show_base 10 (unat a)"
    by (simp add: show_dec_def)
  have "\<not> (take 2 (show_base 10 (unat a)) = ''0x'' \<or> take 2 (show_base 10 (unat a)) = ''0X'')"
  proof
    assume "take 2 (show_base 10 (unat a)) = ''0x'' \<or> take 2 (show_base 10 (unat a)) = ''0X''"
    then have "CHR ''x'' \<in> set (show_base 10 (unat a)) \<or> CHR ''X'' \<in> set (show_base 10 (unat a))"
      by (metis in_set_takeD list.set_intros)
    moreover have "digit_of c \<noteq> None \<and> the (digit_of c) < 10" if "c \<in> set (show_base 10 n)" for c n
      using that
    proof (induction n rule: less_induct)
      case (less n)
      show ?case
      proof (cases "n < 10")
        case True
        with less.prems show ?thesis by (simp add: show_base_small)
      next
        case False
        with less.prems have "c \<in> set (show_base 10 (n div 10)) \<or> c = digit_char (n mod 10)"
          by (auto simp: show_base_step)
        moreover have "n mod 10 < 10" by simp
        ultimately show ?thesis using less.IH [of "n div 10"] False by auto
      qed
    qed
    ultimately show False by (force simp: digit_of_def)
  qed
  then show ?thesis
    by (simp add: dec parseAddr_def TrimSpace_show_base ParseUint_show_base)
qed

text \<open>C30: an address the tools print is read back as the same address, whether the client
  echoes the hexadecimal form hexAddr prints or writes the number in decimal, also through
  parseAddrDefault.\<close>

theorem address_roundtrip:
  "parseAddr (hexAddr a) = Ret a \<and> parseAddr (show_dec (uint a)) = Ret a \<and>
   parseAddrDefault (hexAddr a) def = Ret a \<and> parseAddrDefault [] def = Ret def"
proof -
  have "TrimSpace (hexAddr a) \<noteq> []" by (simp add: TrimSpace_hexAddr) (simp add: hexAddr_def)
  moreover have "TrimSpace [] = []" by (simp add: TrimSpace_def space_encodings_def strip_with.simps)
  ultimately show ?thesis
    by (simp add: parseAddr_hexAddr parseAddr_decimal parseAddrDefault_def)
qed

end
