(* ===== verification/Paging.thy ===== *)
theory Paging
  imports Addr
begin

text \<open>
  Pagination (internal/server/server.go normalizePagination and clampPage, format.go
  formatListHeader): the bounds every list tool slices with, and the header line that gives
  the next offset. The locale \<open>page_walk\<close> states what a paginated source promises its
  reader; a reader that follows the next offsets then collects the whole sequence. The list
  tools provide it here, get_cached_output provides it in OutputStore.
\<close>

section \<open>server.go: normalizePagination, clampPage\<close>

definition defaultPageLimit :: int where
  "defaultPageLimit = 1000"

definition maxPageLimit :: int where
  "maxPageLimit = 10000"

definition normalizePagination :: "int \<Rightarrow> int \<Rightarrow> (int \<times> int) go" where
  "normalizePagination offset limit =
     (if offset < 0 then Err (Msg ''offset must be >= 0'')
      else
        let limit = (if limit \<le> 0 then defaultPageLimit else limit)
        in if maxPageLimit < limit
           then Err (Msg (''limit must be <= '' @ show_dec maxPageLimit))
           else Ret (offset, limit))"

definition clampPage :: "int \<Rightarrow> int \<Rightarrow> int \<Rightarrow> (int \<times> int) go" where
  "clampPage rawOffset rawLimit tot =
     (case normalizePagination rawOffset rawLimit of
        Err e \<Rightarrow> Err e
      | Panic p \<Rightarrow> Panic p
      | Ret (offset, limit) \<Rightarrow>
          let offset = (if tot < offset then tot else offset);
              end' = int64 (offset + limit);
              end' = (if tot < end' then tot else end')
          in Ret (offset, end'))"

section \<open>format.go: formatListHeader\<close>

definition formatListHeader :: "int \<Rightarrow> int \<Rightarrow> int \<Rightarrow> string" where
  "formatListHeader tot offset shown =
     (let next = int64 (offset + shown)
      in if next < tot
         then ''Total: '' @ show_dec tot @ ''  (showing '' @ show_dec shown @
              '' from offset '' @ show_dec offset @ ''; '' @ show_dec (tot - next) @
              '' more, use offset='' @ show_dec next @ '')''
         else ''Total: '' @ show_dec tot @ '' (offset '' @ show_dec offset @ '')'')"

section \<open>Bounds\<close>

text \<open>A slice length fits an int by a wide margin; \<open>fits\<close> states what the Go runtime
  guarantees of every length.\<close>

definition fits :: "int \<Rightarrow> bool" where
  "fits tot \<longleftrightarrow> 0 \<le> tot \<and> tot < 2 ^ 62"

lemma normalizePagination_Ret:
  "normalizePagination offset limit = Ret (off, lim) \<longleftrightarrow>
   0 \<le> offset \<and> limit \<le> maxPageLimit \<and> off = offset \<and>
   lim = (if limit \<le> 0 then defaultPageLimit else limit)"
  by (auto simp: normalizePagination_def Let_def defaultPageLimit_def maxPageLimit_def)

lemma normalizePagination_no_panic [simp]: "normalizePagination offset limit \<noteq> Panic p"
  by (simp add: normalizePagination_def Let_def)

lemma page_limit_range:
  "limit \<le> maxPageLimit \<Longrightarrow>
   0 < (if limit \<le> 0 then defaultPageLimit else limit) \<and>
   (if limit \<le> 0 then defaultPageLimit else limit) \<le> maxPageLimit"
  by (simp add: defaultPageLimit_def maxPageLimit_def)

text \<open>The sum cannot wrap: the offset is clamped to the length first and the limit is at
  most ten thousand.\<close>

lemma clampPage_eq:
  assumes "fits tot" and "0 \<le> rawOffset" and "rawLimit \<le> maxPageLimit"
  shows "clampPage rawOffset rawLimit tot =
     Ret (min rawOffset tot,
          min (min rawOffset tot + (if rawLimit \<le> 0 then defaultPageLimit else rawLimit)) tot)"
proof -
  let ?l = "if rawLimit \<le> 0 then defaultPageLimit else rawLimit"
  have "normalizePagination rawOffset rawLimit = Ret (rawOffset, ?l)"
    using assms by (simp add: normalizePagination_Ret)
  moreover have "is_int 64 (min rawOffset tot + ?l)"
    using assms page_limit_range [OF assms(3)]
    by (auto simp: is_int_def fits_def maxPageLimit_def min_def)
  ultimately show ?thesis
    by (auto simp: clampPage_def Let_def wrap_int_id min_def)
qed

lemma clampPage_cases:
  "fits tot \<Longrightarrow>
   (rawOffset < 0 \<or> maxPageLimit < rawLimit) \<and> (\<exists>e. clampPage rawOffset rawLimit tot = Err e) \<or>
   0 \<le> rawOffset \<and> rawLimit \<le> maxPageLimit \<and>
   (\<exists>lo hi. clampPage rawOffset rawLimit tot = Ret (lo, hi) \<and>
      0 \<le> lo \<and> lo \<le> hi \<and> hi \<le> tot \<and> hi - lo \<le> maxPageLimit)"
proof (cases "0 \<le> rawOffset \<and> rawLimit \<le> maxPageLimit")
  case True
  assume "fits tot"
  then show ?thesis using True page_limit_range [of rawLimit]
    by (auto simp: clampPage_eq fits_def min_def)
next
  case False
  then have "\<exists>e. normalizePagination rawOffset rawLimit = Err e"
    by (auto simp: normalizePagination_def Let_def defaultPageLimit_def maxPageLimit_def)
  then show ?thesis using False by (auto simp: clampPage_def)
qed

section \<open>Walking pages\<close>

text \<open>A reader asks for the page at an offset, gets it with the next offset if there is
  one, and stops when there is none.\<close>

fun collect :: "nat \<Rightarrow> (int \<Rightarrow> 'c list \<times> int option) \<Rightarrow> int \<Rightarrow> 'c list option" where
  "collect 0 f off = None"
| "collect (Suc fuel) f off =
     (case f off of
        (p, None) \<Rightarrow> Some p
      | (p, Some n) \<Rightarrow> map_option (\<lambda>rest. p @ rest) (collect fuel f n))"

locale page_walk =
  fixes page :: "'c list \<Rightarrow> int \<Rightarrow> int \<Rightarrow> 'c list"
    and more :: "'c list \<Rightarrow> int \<Rightarrow> int \<Rightarrow> int option"
    and valid :: "'c list \<Rightarrow> int \<Rightarrow> bool"
  assumes more_Some:
      "valid xs l \<Longrightarrow> 0 \<le> off \<Longrightarrow> off \<le> int (length xs) \<Longrightarrow> more xs l off = Some n \<Longrightarrow>
       off < n \<and> n \<le> int (length xs) \<and> page xs l off = take (nat (n - off)) (drop (nat off) xs)"
    and more_None:
      "valid xs l \<Longrightarrow> 0 \<le> off \<Longrightarrow> off \<le> int (length xs) \<Longrightarrow> more xs l off = None \<Longrightarrow>
       page xs l off = drop (nat off) xs"
begin

lemma collect_from:
  "valid xs l \<Longrightarrow> 0 \<le> off \<Longrightarrow> off \<le> int (length xs) \<Longrightarrow> int (length xs) - off < int fuel \<Longrightarrow>
   collect fuel (\<lambda>o'. (page xs l o', more xs l o')) off = Some (drop (nat off) xs)"
proof (induction fuel arbitrary: off)
  case 0
  then show ?case by simp
next
  case (Suc fuel)
  show ?case
  proof (cases "more xs l off")
    case None
    then show ?thesis using Suc.prems more_None by simp
  next
    case (Some n)
    then have n: "off < n" "n \<le> int (length xs)"
      and p: "page xs l off = take (nat (n - off)) (drop (nat off) xs)"
      using Suc.prems more_Some by auto
    have "collect fuel (\<lambda>o'. (page xs l o', more xs l o')) n = Some (drop (nat n) xs)"
      using Suc.prems n by (intro Suc.IH) auto
    moreover have "drop (nat n) xs = drop (nat (n - off)) (drop (nat off) xs)"
      using n Suc.prems by (simp add: nat_diff_distrib)
    ultimately show ?thesis using Some p by (simp del: drop_drop)
  qed
qed

lemma collect_all:
  "valid xs l \<Longrightarrow> length xs < fuel \<Longrightarrow>
   collect fuel (\<lambda>o'. (page xs l o', more xs l o')) 0 = Some xs"
  using collect_from [of xs l 0 fuel] by simp

end

section \<open>The list tools as a paginated source\<close>

text \<open>What a list tool shows for a request: the slice \<open>filtered[offset:end]\<close>, and the
  next offset its header prints.\<close>

definition list_page :: "'a list \<Rightarrow> int \<Rightarrow> int \<Rightarrow> 'a list go" where
  "list_page filtered rawLimit rawOffset =
     (case clampPage rawOffset rawLimit (int (length filtered)) of
        Err e \<Rightarrow> Err e
      | Panic p \<Rightarrow> Panic p
      | Ret (offset, end') \<Rightarrow> slice filtered offset end')"

definition shown_page :: "'a list \<Rightarrow> int \<Rightarrow> int \<Rightarrow> 'a list" where
  "shown_page xs l off = (case list_page xs l off of Ret p \<Rightarrow> p | _ \<Rightarrow> [])"

definition header_next :: "'a list \<Rightarrow> int \<Rightarrow> int \<Rightarrow> int option" where
  "header_next xs l off =
     (let next = int64 (off + int (length (shown_page xs l off)))
      in if next < int (length xs) then Some next else None)"

lemma list_page_eq:
  assumes "fits (int (length xs))" and "0 \<le> off" and "l \<le> maxPageLimit"
  shows "list_page xs l off =
     Ret (take (nat (if l \<le> 0 then defaultPageLimit else l)) (drop (nat off) xs))"
proof -
  let ?n = "int (length xs)" and ?l = "if l \<le> 0 then defaultPageLimit else l"
  let ?lo = "min off ?n"
  have l: "0 < ?l" using page_limit_range [OF assms(3)] by simp
  have "list_page xs l off = slice xs ?lo (min (?lo + ?l) ?n)"
    using assms by (simp add: list_page_def clampPage_eq)
  also have "\<dots> = Ret (take (nat (min (?lo + ?l) ?n - ?lo)) (drop (nat ?lo) xs))"
    using l assms by (intro slice_Ret) auto
  also have "take (nat (min (?lo + ?l) ?n - ?lo)) (drop (nat ?lo) xs) = take (nat ?l) (drop (nat off) xs)"
  proof (cases "off \<le> ?n")
    case True
    then show ?thesis using l by (auto simp: min_def nat_diff_distrib)
  next
    case False
    then show ?thesis by (simp add: min_def)
  qed
  finally show ?thesis .
qed

lemma page_walk_list:
  assumes v: "fits (int (length xs)) \<and> l \<le> maxPageLimit"
    and off: "0 \<le> off" "off \<le> int (length xs)"
  shows "header_next xs l off = Some n \<Longrightarrow> off < n \<and> n \<le> int (length xs) \<and>
           shown_page xs l off = take (nat (n - off)) (drop (nat off) xs)"
    and "header_next xs l off = None \<Longrightarrow> shown_page xs l off = drop (nat off) xs"
proof -
  define L where "L = (if l \<le> 0 then defaultPageLimit else l)"
  have l: "0 < L" "L \<le> maxPageLimit" using page_limit_range v by (auto simp: L_def)
  have p: "shown_page xs l off = take (nat L) (drop (nat off) xs)"
    using v off by (simp add: shown_page_def list_page_eq L_def)
  define m where "m = min (nat L) (length xs - nat off)"
  have m: "off + int m \<le> int (length xs)" using off unfolding m_def by linarith
  have "is_int 64 (off + int m)"
    using v off m by (simp add: is_int_def fits_def)
  then have next_eq: "int64 (off + int (length (shown_page xs l off))) = off + int m"
    by (simp add: p m_def wrap_int_id min.commute)
  show "shown_page xs l off = drop (nat off) xs" if "header_next xs l off = None"
  proof -
    have "int (length xs) \<le> off + int m"
      using that next_eq by (simp add: header_next_def Let_def split: if_splits)
    then have "length xs - nat off \<le> nat L" using off unfolding m_def by linarith
    then show ?thesis by (simp add: p)
  qed
  show "off < n \<and> n \<le> int (length xs) \<and>
        shown_page xs l off = take (nat (n - off)) (drop (nat off) xs)"
    if "header_next xs l off = Some n"
  proof -
    have n: "n = off + int m" "n < int (length xs)"
      using that next_eq by (simp_all add: header_next_def Let_def split: if_splits)
    then have "m = nat L" using off unfolding m_def by linarith
    then show ?thesis using n l off p by simp
  qed
qed

interpretation list_pages: page_walk shown_page header_next
  "\<lambda>xs l. fits (int (length xs)) \<and> l \<le> maxPageLimit"
  by (unfold_locales; rule page_walk_list)

section \<open>Properties\<close>

text \<open>clampPage either refuses the request (a negative offset or a limit over the
  maximum), or returns bounds of a valid slice of the list that holds at most maxPageLimit
  items; the offset plus limit sum never wraps, so no list tool panics on its slice.\<close>

theorem clampPage_bounds:
  assumes "fits tot"
  shows "(rawOffset < 0 \<or> maxPageLimit < rawLimit) \<and> (\<exists>e. clampPage rawOffset rawLimit tot = Err e) \<or>
   0 \<le> rawOffset \<and> rawLimit \<le> maxPageLimit \<and>
   (\<exists>lo hi. clampPage rawOffset rawLimit tot = Ret (lo, hi) \<and>
      0 \<le> lo \<and> lo \<le> hi \<and> hi \<le> tot \<and> hi - lo \<le> maxPageLimit)"
  by (rule clampPage_cases [OF assms])

theorem clampPage_bounds_witness:
  "\<exists>lo hi. clampPage (2 ^ 63 - 1) 0 7 = Ret (lo, hi) \<and> 0 \<le> lo \<and> lo \<le> hi \<and> hi \<le> (7::int)"
  using clampPage_bounds [of 7 "2 ^ 63 - 1" 0] by (auto simp: fits_def maxPageLimit_def)



end
