(* ===== verification/Json.thy ===== *)
theory Json
  imports Complex_Main Prelude "HOL-Library.AList"
begin

text \<open>
  Values the handlers marshal with encoding/json. An object is an association list with
  distinct keys (Go marshals a map, whose keys are distinct; the order is not significant).
  A float64 is a rational. The text of a value, \<open>json.Marshal\<close>, and the reading of a text
  as an object, \<open>json.Unmarshal\<close>, are arguments of the definitions that look at the text.
\<close>

datatype json =
    JNull
  | JBool bool
  | JInt int
  | JFloat rat
  | JString string
  | JArray "json list"
  | JObject "(string \<times> json) list"

text \<open>The first content item of a CallToolResult: literal text, or a marshalled value.\<close>

datatype tool_result =
    TextContent string
  | JsonContent json

definition ok_result :: tool_result where
  "ok_result = TextContent ''ok''"

fun result_text :: "(json \<Rightarrow> string) \<Rightarrow> tool_result \<Rightarrow> string" where
  "result_text marshal (TextContent t) = t"
| "result_text marshal (JsonContent j) = marshal j"

definition get_key :: "(string \<times> json) list \<Rightarrow> string \<Rightarrow> json option" where
  "get_key obj k = map_of obj k"

text \<open>Assigning the entries of one map into another, key by key.\<close>

definition assign_all :: "(string \<times> json) list \<Rightarrow> (string \<times> json) list \<Rightarrow> (string \<times> json) list" where
  "assign_all out entries = foldl (\<lambda>out' (k, v). AList.update k v out') out entries"

lemma map_of_assign_all:
  "distinct (map fst entries) \<Longrightarrow>
   map_of (assign_all out entries) k =
     (case map_of entries k of None \<Rightarrow> map_of out k | Some v \<Rightarrow> Some v)"
proof (induction entries arbitrary: out)
  case (Cons e es)
  obtain k' v where e: "e = (k', v)" by (cases e)
  then have "k' \<notin> fst ` set es" using Cons.prems by simp
  then have "map_of es k' = None" by (simp add: map_of_eq_None_iff)
  with Cons e show ?case
    by (auto simp: assign_all_def update_conv' split: option.splits)
qed (simp add: assign_all_def)

lemma distinct_assign_all:
  "distinct (map fst out) \<Longrightarrow> distinct (map fst (assign_all out entries))"
  by (induction entries arbitrary: out) (auto simp: assign_all_def distinct_update)

end
