(* ===== verification/OutputStore.thy ===== *)
theory OutputStore
  imports Paging Json
begin

text \<open>
  The truncated-output cache (internal/server/output_cache.go): outputStore with its FIFO
  order and expiry, maybeCacheResult and truncateJSON, and get_cached_output. The locale
  \<open>output_cache\<close> is what the tool wrapper relies on: an entry just stored is served until it
  expires. get_cached_output provides the page contract of Paging.
\<close>

section \<open>outputStore\<close>

definition defaultMaxOutputChars :: int where
  "defaultMaxOutputChars = 8000"

definition maxCacheEntries :: nat where
  "maxCacheEntries = 200"

text \<open>One hour in nanoseconds, the unit of time.Duration.\<close>

definition cacheEntryTTL :: int where
  "cacheEntryTTL = 3600 * 1000000000"

record outputEntry =
  oe_ID :: string
  oe_Tool :: string
  oe_Content :: string
  oe_CreatedAt :: int

record outputStore =
  os_entries :: "string \<rightharpoonup> outputEntry"
  os_order :: "string list"

definition newOutputStore :: outputStore where
  "newOutputStore = \<lparr>os_entries = Map.empty, os_order = []\<rparr>"

fun evict_expired :: "int \<Rightarrow> (string \<rightharpoonup> outputEntry) \<Rightarrow> string list \<Rightarrow> (string \<rightharpoonup> outputEntry) \<times> string list" where
  "evict_expired now entries [] = (entries, [])"
| "evict_expired now entries (oldest # order) =
     (case entries oldest of
        Some e \<Rightarrow>
          if cacheEntryTTL < now - oe_CreatedAt e
          then evict_expired now (entries(oldest := None)) order
          else (entries, oldest # order)
      | None \<Rightarrow> (entries, oldest # order))"

fun evict_over_limit :: "(string \<rightharpoonup> outputEntry) \<Rightarrow> string list \<Rightarrow> (string \<rightharpoonup> outputEntry) \<times> string list" where
  "evict_over_limit entries [] = (entries, [])"
| "evict_over_limit entries (evict # order) =
     (if maxCacheEntries \<le> length (evict # order)
      then evict_over_limit (entries(evict := None)) order
      else (entries, evict # order))"

text \<open>The id is the one genCacheID drew; \<open>now\<close> is the clock reading under the lock.\<close>

definition outputs_put :: "string \<Rightarrow> int \<Rightarrow> string \<Rightarrow> string \<Rightarrow> outputStore \<Rightarrow> outputStore" where
  "outputs_put cid now tool content c =
     (let (entries, order) = evict_expired now (os_entries c) (os_order c);
          (entries, order) = evict_over_limit entries order
      in \<lparr>os_entries = entries(cid \<mapsto> \<lparr>oe_ID = cid, oe_Tool = tool, oe_Content = content,
                                        oe_CreatedAt = now\<rparr>),
          os_order = order @ [cid]\<rparr>)"

definition outputs_get :: "int \<Rightarrow> string \<Rightarrow> outputStore \<Rightarrow> outputEntry option" where
  "outputs_get now cid c =
     (case os_entries c cid of
        Some e \<Rightarrow> if cacheEntryTTL < now - oe_CreatedAt e then None else Some e
      | None \<Rightarrow> None)"

definition outputs_clear :: "outputStore \<Rightarrow> nat \<times> outputStore" where
  "outputs_clear c = (map_len (os_entries c), \<lparr>os_entries = Map.empty, os_order = []\<rparr>)"

section \<open>maybeCacheResult, truncateJSON\<close>

definition truncationHint :: string where
  "truncationHint = ''output truncated '' @ [CHR 0xE2, CHR 0x80, CHR 0x94] @
     '' call get_cached_output with this _cache_id (use offset/limit, or limit=0 for all) to read the full result''"

definition truncate_value :: "(json \<Rightarrow> string) \<Rightarrow> json \<Rightarrow> json" where
  "truncate_value marshal v =
     (case v of
        JString val \<Rightarrow>
          if 2000 < length val
          then JString (take 2000 val @ ''... [truncated, '' @ show_dec (int (length val)) @ '' chars total]'')
          else JString val
      | JArray val \<Rightarrow>
          if 3000 < length (marshal (JArray val))
          then JObject [(''count'', JInt (int (length val))),
                        (''preview'', JArray (take (if length val < 10 then length val else 10) val))]
          else JArray val
      | JObject val \<Rightarrow>
          if get_key val ''count'' \<noteq> None then JObject val
          else
            let b = marshal (JObject val)
            in if 2000 < length b
               then JString (''[object, '' @ show_dec (int (length b)) @ '' bytes]'')
               else JObject val
      | _ \<Rightarrow> v)"

definition truncateJSON :: "(json \<Rightarrow> string) \<Rightarrow> (string \<times> json) list \<Rightarrow> string \<Rightarrow> int \<Rightarrow> tool_result" where
  "truncateJSON marshal parsed cacheID totalChars =
     JsonContent (JObject (assign_all
       [(''_truncated'', JBool True), (''_cache_id'', JString cacheID),
        (''_total_chars'', JInt totalChars), (''_hint'', JString truncationHint)]
       (map (\<lambda>(k, v). (k, truncate_value marshal v)) parsed)))"

definition maybeCacheResult ::
  "(json \<Rightarrow> string) \<Rightarrow> (string \<Rightarrow> (string \<times> json) list option) \<Rightarrow> string \<Rightarrow> int \<Rightarrow> string \<Rightarrow>
   tool_result \<Rightarrow> outputStore \<Rightarrow> tool_result \<times> outputStore" where
  "maybeCacheResult marshal unmarshal cacheID now toolName result outputs =
     (let fullText = result_text marshal result
      in if int (length fullText) \<le> defaultMaxOutputChars then (result, outputs)
         else
           let outputs = outputs_put cacheID now toolName fullText outputs
           in case unmarshal fullText of
                Some parsed \<Rightarrow>
                  (truncateJSON marshal parsed cacheID (int (length fullText)), outputs)
              | None \<Rightarrow>
                  (JsonContent (JObject
                     [(''_truncated'', JBool True), (''_cache_id'', JString cacheID),
                      (''_total_chars'', JInt (int (length fullText))),
                      (''_next_offset'', JInt defaultMaxOutputChars),
                      (''_hint'', JString truncationHint),
                      (''preview'', JString (take (nat defaultMaxOutputChars) fullText))]), outputs))"

section \<open>get_cached_output\<close>

record GetCachedOutputRequest =
  gco_CacheID :: string
  gco_Offset :: int
  gco_Limit :: int

text \<open>The window a request selects: the clamped offset, the effective limit and the end.\<close>

definition cached_window :: "int \<Rightarrow> int \<Rightarrow> int \<Rightarrow> int \<times> int \<times> int" where
  "cached_window tot rawOffset rawLimit =
     (let offset = (if rawOffset < 0 then 0 else rawOffset);
          offset = (if tot < offset then tot else offset);
          limit = (if rawLimit \<le> 0 then defaultMaxOutputChars else rawLimit);
          end' = int64 (offset + limit);
          end' = (if tot < end' then tot else end')
      in (offset, limit, end'))"

definition getCachedOutput :: "int \<Rightarrow> GetCachedOutputRequest \<Rightarrow> outputStore \<Rightarrow> tool_result go" where
  "getCachedOutput now args outputs =
     (case outputs_get now (gco_CacheID args) outputs of
        None \<Rightarrow> Err (Msg (''cache entry not found or expired: '' @ gco_CacheID args))
      | Some entry \<Rightarrow>
          let content = oe_Content entry;
              tot = int (length content);
              (offset, limit, end') = cached_window tot (gco_Offset args) (gco_Limit args)
          in case slice content offset end' of
               Err e \<Rightarrow> Err e
             | Panic p \<Rightarrow> Panic p
             | Ret chunk \<Rightarrow>
                 let hasMore = end' < tot
                 in Ret (JsonContent (JObject
                      ([(''cache_id'', JString (gco_CacheID args)), (''tool'', JString (oe_Tool entry)),
                        (''content'', JString chunk), (''offset'', JInt offset),
                        (''limit'', JInt limit), (''total_chars'', JInt tot),
                        (''has_more'', JBool hasMore)] @
                       (if hasMore then [(''next_offset'', JInt end')] else [])))))"

section \<open>The store holds what its order lists\<close>

definition outputs_agree :: "(string \<rightharpoonup> outputEntry) \<Rightarrow> string list \<Rightarrow> bool" where
  "outputs_agree entries order \<longleftrightarrow>
     distinct order \<and> set order = dom entries \<and> (\<forall>k e. entries k = Some e \<longrightarrow> oe_ID e = k)"

definition outputs_inv :: "outputStore \<Rightarrow> bool" where
  "outputs_inv c \<longleftrightarrow>
     outputs_agree (os_entries c) (os_order c) \<and> length (os_order c) \<le> maxCacheEntries"

text \<open>Both eviction loops drop a prefix of the order and exactly its entries.\<close>

lemma agree_drop_oldest:
  "outputs_agree entries (k # order) \<Longrightarrow> outputs_agree (entries(k := None)) order"
  by (auto simp: outputs_agree_def)

lemma evict_expired_spec:
  "outputs_agree entries order \<Longrightarrow> evict_expired now entries order = (entries', order') \<Longrightarrow>
   outputs_agree entries' order' \<and> suffix order' order \<and> entries' \<subseteq>\<^sub>m entries"
proof (induction now entries order rule: evict_expired.induct)
  case (1 now entries)
  then show ?case by simp
next
  case (2 now entries oldest order)
  then have "oldest \<in> dom entries" by (auto simp: outputs_agree_def)
  then obtain e where e: "entries oldest = Some e" by blast
  show ?case
  proof (cases "cacheEntryTTL < now - oe_CreatedAt e")
    case True
    then have "evict_expired now (entries(oldest := None)) order = (entries', order')"
      using "2.prems"(2) e by simp
    from "2.IH" [OF e True agree_drop_oldest [OF "2.prems"(1)] this]
    have "outputs_agree entries' order' \<and> suffix order' order \<and> entries' \<subseteq>\<^sub>m entries(oldest := None)" .
    then show ?thesis by (blast intro: suffix_ConsI map_le_trans [OF _ upd_None_map_le])
  next
    case False
    then show ?thesis using 2 e by simp
  qed
qed

lemma evict_over_limit_spec:
  "outputs_agree entries order \<Longrightarrow> evict_over_limit entries order = (entries', order') \<Longrightarrow>
   outputs_agree entries' order' \<and> suffix order' order \<and> entries' \<subseteq>\<^sub>m entries \<and>
   length order' < maxCacheEntries"
proof (induction entries order rule: evict_over_limit.induct)
  case (1 entries)
  then show ?case by (simp add: maxCacheEntries_def)
next
  case (2 entries k order)
  show ?case
  proof (cases "maxCacheEntries \<le> length (k # order)")
    case True
    then have "evict_over_limit (entries(k := None)) order = (entries', order')"
      using "2.prems"(2) by simp
    from "2.IH" [OF True agree_drop_oldest [OF "2.prems"(1)] this]
    have "outputs_agree entries' order' \<and> suffix order' order \<and> entries' \<subseteq>\<^sub>m entries(k := None) \<and>
        length order' < maxCacheEntries" .
    then show ?thesis by (blast intro: suffix_ConsI map_le_trans [OF _ upd_None_map_le])
  next
    case False
    then show ?thesis using 2 by auto
  qed
qed

lemma outputs_put_cases:
  assumes "outputs_inv c"
  obtains entries order where
    "outputs_put cid now tool content c =
       \<lparr>os_entries = entries(cid \<mapsto> \<lparr>oe_ID = cid, oe_Tool = tool, oe_Content = content, oe_CreatedAt = now\<rparr>),
        os_order = order @ [cid]\<rparr>"
    and "outputs_agree entries order" and "suffix order (os_order c)"
    and "entries \<subseteq>\<^sub>m os_entries c" and "length order < maxCacheEntries"
proof -
  obtain e1 o1 where 1: "evict_expired now (os_entries c) (os_order c) = (e1, o1)" by force
  obtain e2 o2 where 2: "evict_over_limit e1 o1 = (e2, o2)" by force
  have "outputs_agree (os_entries c) (os_order c)" using assms by (simp add: outputs_inv_def)
  note s1 = evict_expired_spec [OF this 1]
  note s2 = evict_over_limit_spec [OF conjunct1 [OF s1] 2]
  show thesis
  proof (rule that [of e2 o2])
    show "suffix o2 (os_order c)" using s1 s2 suffix_order.trans by blast
    show "e2 \<subseteq>\<^sub>m os_entries c" using s1 s2 map_le_trans by blast
  qed (use s2 in \<open>auto simp: outputs_put_def 1 2\<close>)
qed

lemma outputs_inv_new: "outputs_inv newOutputStore"
  by (simp add: outputs_inv_def outputs_agree_def newOutputStore_def)

lemma outputs_inv_put:
  assumes "outputs_inv c" and fresh: "cid \<notin> dom (os_entries c)"
  shows "outputs_inv (outputs_put cid now tool content c)"
proof -
  obtain entries order where put: "outputs_put cid now tool content c =
       \<lparr>os_entries = entries(cid \<mapsto> \<lparr>oe_ID = cid, oe_Tool = tool, oe_Content = content, oe_CreatedAt = now\<rparr>),
        os_order = order @ [cid]\<rparr>"
    and agree: "outputs_agree entries order" and le: "entries \<subseteq>\<^sub>m os_entries c"
    and len: "length order < maxCacheEntries"
    using outputs_put_cases [OF assms(1)] by metis
  have "cid \<notin> dom entries" using map_le_implies_dom_le [OF le] fresh by auto
  with agree len show ?thesis by (auto simp: put outputs_inv_def outputs_agree_def)
qed

lemma outputs_inv_clear: "outputs_inv (snd (outputs_clear c))"
  by (simp add: outputs_clear_def outputs_inv_def outputs_agree_def)

lemma outputs_get_put_same:
  "now' - now \<le> cacheEntryTTL \<Longrightarrow>
   outputs_get now' cid (outputs_put cid now tool content c) =
     Some \<lparr>oe_ID = cid, oe_Tool = tool, oe_Content = content, oe_CreatedAt = now\<rparr>"
  by (auto simp: outputs_get_def outputs_put_def split: prod.splits)

lemma outputs_get_put_other:
  assumes "outputs_inv c" and "k \<noteq> cid"
    and "outputs_get now' k (outputs_put cid now tool content c) = Some e"
  shows "outputs_get now' k c = Some e"
proof -
  obtain entries order where put: "outputs_put cid now tool content c =
       \<lparr>os_entries = entries(cid \<mapsto> \<lparr>oe_ID = cid, oe_Tool = tool, oe_Content = content, oe_CreatedAt = now\<rparr>),
        os_order = order @ [cid]\<rparr>" and le: "entries \<subseteq>\<^sub>m os_entries c"
    using outputs_put_cases [OF assms(1)] by metis
  from assms put have "entries k = Some e" and t: "now' - oe_CreatedAt e \<le> cacheEntryTTL"
    by (auto simp: outputs_get_def split: option.splits if_splits)
  then have "os_entries c k = Some e" using le by (force simp: map_le_def)
  with t show ?thesis by (simp add: outputs_get_def)
qed

section \<open>The contract of the output cache\<close>

text \<open>What the wrapper and get_cached_output rely on: an output stored under a fresh id is
  served until it expires, and what is served under an id never changes.\<close>

locale output_cache =
  fixes store :: "'id \<Rightarrow> int \<Rightarrow> 'b \<Rightarrow> 's \<Rightarrow> 's"
    and fetch :: "int \<Rightarrow> 'id \<Rightarrow> 's \<Rightarrow> 'b option"
    and used :: "'s \<Rightarrow> 'id set"
    and ok :: "'s \<Rightarrow> bool"
    and ttl :: int
  assumes fetch_store: "now' - now \<le> ttl \<Longrightarrow> fetch now' i (store i now b s) = Some b"
    and fetch_other: "ok s \<Longrightarrow> j \<noteq> i \<Longrightarrow> fetch now' j (store i now b s) = Some b' \<Longrightarrow>
                        fetch now' j s = Some b'"
    and ok_store: "ok s \<Longrightarrow> i \<notin> used s \<Longrightarrow> ok (store i now b s)"
    and used_store: "ok s \<Longrightarrow> used (store i now b s) \<subseteq> insert i (used s)"
    and fetch_used: "fetch now i s = Some b \<Longrightarrow> i \<in> used s"
begin

fun store_all :: "('id \<times> int \<times> 'b) list \<Rightarrow> 's \<Rightarrow> 's" where
  "store_all [] s = s"
| "store_all ((i, now, b) # rest) s = store_all rest (store i now b s)"

lemma served_unchanged:
  "ok s \<Longrightarrow> i \<notin> set (map fst rest) \<Longrightarrow> distinct (map fst rest) \<Longrightarrow>
   set (map fst rest) \<inter> used s = {} \<Longrightarrow>
   fetch now' i (store_all rest s) = Some b \<Longrightarrow> fetch now' i s = Some b"
proof (induction rest arbitrary: s)
  case (Cons r rest)
  obtain j now c where r: "r = (j, now, c)" by (cases r)
  let ?s = "store j now c s"
  have fresh: "j \<notin> used s" and i: "i \<noteq> j" "i \<notin> set (map fst rest)"
    and d: "j \<notin> set (map fst rest)" "distinct (map fst rest)" "set (map fst rest) \<inter> used s = {}"
    using Cons.prems(2,3,4) unfolding r by simp_all
  have ok: "ok ?s" by (rule ok_store [OF Cons.prems(1) fresh])
  have u: "used ?s \<subseteq> insert j (used s)" by (rule used_store [OF Cons.prems(1)])
  have e: "set (map fst rest) \<inter> used ?s = {}" using u d(1,3) by blast
  have "fetch now' i (store_all rest ?s) = Some b" using Cons.prems(5) unfolding r by simp
  from Cons.IH [OF ok i(2) d(2) e this] have "fetch now' i ?s = Some b" .
  then show ?case by (rule fetch_other [OF Cons.prems(1) i(1)])
qed simp

end

text \<open>The stored value is the tool name with the text.\<close>

definition outputs_store :: "string \<Rightarrow> int \<Rightarrow> string \<times> string \<Rightarrow> outputStore \<Rightarrow> outputStore" where
  "outputs_store cid now b = outputs_put cid now (fst b) (snd b)"

definition outputs_fetch :: "int \<Rightarrow> string \<Rightarrow> outputStore \<Rightarrow> (string \<times> string) option" where
  "outputs_fetch now cid c = map_option (\<lambda>e. (oe_Tool e, oe_Content e)) (outputs_get now cid c)"

interpretation outputs: output_cache outputs_store outputs_fetch "\<lambda>c. dom (os_entries c)"
  outputs_inv cacheEntryTTL
proof unfold_locales
  fix now' now :: int and i j b s b'
  show "now' - now \<le> cacheEntryTTL \<Longrightarrow> outputs_fetch now' i (outputs_store i now b s) = Some b"
    by (simp add: outputs_fetch_def outputs_store_def outputs_get_put_same)
  show "outputs_inv s \<Longrightarrow> i \<notin> dom (os_entries s) \<Longrightarrow> outputs_inv (outputs_store i now b s)"
    by (simp add: outputs_store_def outputs_inv_put)
  show "outputs_fetch now i s = Some b \<Longrightarrow> i \<in> dom (os_entries s)"
    by (auto simp: outputs_fetch_def outputs_get_def split: option.splits)
  assume inv: "outputs_inv s"
  show "outputs_fetch now' j s = Some b'"
    if "j \<noteq> i" and "outputs_fetch now' j (outputs_store i now b s) = Some b'"
    using that outputs_get_put_other [OF inv]
    by (force simp: outputs_fetch_def outputs_store_def)
  show "dom (os_entries (outputs_store i now b s)) \<subseteq> insert i (dom (os_entries s))"
  proof (rule outputs_put_cases [OF inv])
    fix entries order
    assume "outputs_put i now (fst b) (snd b) s =
        \<lparr>os_entries = entries(i \<mapsto> \<lparr>oe_ID = i, oe_Tool = fst b, oe_Content = snd b, oe_CreatedAt = now\<rparr>),
         os_order = order @ [i]\<rparr>" and "entries \<subseteq>\<^sub>m os_entries s"
    then show "dom (os_entries (outputs_store i now b s)) \<subseteq> insert i (dom (os_entries s))"
      using map_le_implies_dom_le [of entries "os_entries s"] by (auto simp: outputs_store_def)
  qed
qed

section \<open>Reading a truncated output back\<close>

definition cached_page :: "string \<Rightarrow> int \<Rightarrow> int \<Rightarrow> string" where
  "cached_page content l off =
     (let (offset, limit, end') = cached_window (int (length content)) off l
      in case slice content offset end' of Ret chunk \<Rightarrow> chunk | _ \<Rightarrow> [])"

definition cached_next :: "string \<Rightarrow> int \<Rightarrow> int \<Rightarrow> int option" where
  "cached_next content l off =
     (let (offset, limit, end') = cached_window (int (length content)) off l
      in if end' < int (length content) then Some end' else None)"

definition cached_valid :: "string \<Rightarrow> int \<Rightarrow> bool" where
  "cached_valid content l \<longleftrightarrow> int (length content) + l < 2 ^ 63 \<and> fits (int (length content))"

lemma cached_window_valid:
  assumes "cached_valid content l" and "0 \<le> off" and "off \<le> int (length content)"
  defines "L \<equiv> (if l \<le> 0 then defaultMaxOutputChars else l)"
  shows "cached_window (int (length content)) off l =
     (off, L, min (off + L) (int (length content)))" and "0 < L"
proof -
  show L: "0 < L" by (simp add: L_def defaultMaxOutputChars_def)
  have "off + L < 2 ^ 63"
    using assms by (auto simp: L_def defaultMaxOutputChars_def cached_valid_def fits_def)
  then have "is_int 64 (off + L)" using L assms(2) by (simp add: is_int_def)
  then show "cached_window (int (length content)) off l = (off, L, min (off + L) (int (length content)))"
    using assms(2,3) by (auto simp: cached_window_def Let_def wrap_int_id L_def [symmetric] min_def)
qed

lemma page_walk_cached:
  assumes v: "cached_valid content l" and off: "0 \<le> off" "off \<le> int (length content)"
  shows "cached_next content l off = Some n \<Longrightarrow> off < n \<and> n \<le> int (length content) \<and>
           cached_page content l off = take (nat (n - off)) (drop (nat off) content)"
    and "cached_next content l off = None \<Longrightarrow> cached_page content l off = drop (nat off) content"
proof -
  define L where "L = (if l \<le> 0 then defaultMaxOutputChars else l)"
  note w = cached_window_valid [OF v off, folded L_def]
  show "off < n \<and> n \<le> int (length content) \<and>
        cached_page content l off = take (nat (n - off)) (drop (nat off) content)"
    if "cached_next content l off = Some n"
  proof -
    have n: "n = off + L" "off + L < int (length content)"
      using that by (simp_all add: cached_next_def w(1) min_def split: if_splits)
    moreover have "cached_page content l off = take (nat L) (drop (nat off) content)"
      using n w(2) off by (simp add: cached_page_def w(1) slice_Ret)
    ultimately show ?thesis using w(2) by simp
  qed
  show "cached_page content l off = drop (nat off) content" if "cached_next content l off = None"
  proof -
    have "int (length content) \<le> off + L"
      using that by (simp add: cached_next_def w(1) min_def split: if_splits)
    then have "cached_page content l off = take (nat (int (length content) - off)) (drop (nat off) content)"
      using off by (simp add: cached_page_def w(1) slice_Ret)
    then show ?thesis using off by (simp add: nat_diff_distrib)
  qed
qed

interpretation cached_pages: page_walk cached_page cached_next cached_valid
  by (unfold_locales; rule page_walk_cached)

text \<open>What a client reads off a reply: the content and the next offset.\<close>

definition reply_page :: "tool_result go \<Rightarrow> string \<times> int option" where
  "reply_page reply =
     (case reply of
        Ret (JsonContent (JObject obj)) \<Rightarrow>
          ((case get_key obj ''content'' of Some (JString chunk) \<Rightarrow> chunk | _ \<Rightarrow> []),
           (case get_key obj ''next_offset'' of Some (JInt n) \<Rightarrow> Some n | _ \<Rightarrow> None))
      | _ \<Rightarrow> ([], None))"

lemma cached_window_clamp:
  assumes "0 \<le> tot"
  shows "cached_window tot off l = cached_window tot (if off < 0 then 0 else if tot < off then tot else off) l"
proof -
  consider "off < 0" | "tot < off" | "0 \<le> off" "off \<le> tot" by linarith
  then show ?thesis using assms by cases (simp_all add: cached_window_def)
qed

lemma slice_window:
  assumes v: "cached_valid content l"
    and w: "cached_window (int (length content)) off l = (offset, limit, end')"
  shows "\<exists>chunk. slice content offset end' = Ret chunk"
proof -
  let ?n = "int (length content)"
  define o' where "o' = (if off < 0 then 0 else if ?n < off then ?n else off)"
  define L where "L = (if l \<le> 0 then defaultMaxOutputChars else l)"
  have r: "0 \<le> o'" "o' \<le> ?n" by (auto simp: o'_def)
  note w' = cached_window_valid [OF v r, folded L_def]
  have "cached_window ?n off l = cached_window ?n o' l"
    unfolding o'_def by (rule cached_window_clamp) simp
  then have "offset = o'" "end' = min (o' + L) ?n" using w w'(1) by simp_all
  moreover have "o' \<le> min (o' + L) ?n" using r w'(2) by simp
  ultimately show ?thesis using slice_Ret [of o' "min (o' + L) ?n" content] r by simp
qed

lemma getCachedOutput_page:
  assumes "outputs_get now (gco_CacheID args) outputs = Some entry"
    and "cached_valid (oe_Content entry) (gco_Limit args)"
  shows "reply_page (getCachedOutput now args outputs) =
     (cached_page (oe_Content entry) (gco_Limit args) (gco_Offset args),
      cached_next (oe_Content entry) (gco_Limit args) (gco_Offset args))"
proof -
  obtain offset limit end' where w:
    "cached_window (int (length (oe_Content entry))) (gco_Offset args) (gco_Limit args) = (offset, limit, end')"
    by (cases "cached_window (int (length (oe_Content entry))) (gco_Offset args) (gco_Limit args)")
  moreover obtain chunk where "slice (oe_Content entry) offset end' = Ret chunk"
    using slice_window [OF assms(2) w] by blast
  ultimately show ?thesis
    using assms(1)
    by (simp add: getCachedOutput_def reply_page_def cached_page_def cached_next_def get_key_def Let_def)
qed

section \<open>How long an output is kept\<close>

lemma evict_expired_keeps:
  "outputs_agree entries order \<Longrightarrow> evict_expired now entries order = (entries', order') \<Longrightarrow>
   entries k = Some e \<Longrightarrow> now - oe_CreatedAt e \<le> cacheEntryTTL \<Longrightarrow> order = pre @ k # post \<Longrightarrow>
   entries' k = Some e \<and> (\<exists>pre'. order' = pre' @ k # post)"
proof (induction now entries order arbitrary: pre rule: evict_expired.induct)
  case (1 now entries)
  then show ?case by simp
next
  case (2 now entries oldest order)
  show ?case
  proof (cases "\<exists>x. entries oldest = Some x \<and> cacheEntryTTL < now - oe_CreatedAt x")
    case False
    then have "evict_expired now entries (oldest # order) = (entries, oldest # order)"
      by (auto split: option.splits)
    then have "entries' = entries" "order' = oldest # order" using "2.prems"(2) by simp_all
    with "2.prems"(3,5) show ?thesis by blast
  next
    case True
    then obtain x where x: "entries oldest = Some x" "cacheEntryTTL < now - oe_CreatedAt x" by blast
    then have ne: "oldest \<noteq> k" using "2.prems"(3,4) by auto
    then obtain pre1 where pre: "order = pre1 @ k # post" using "2.prems"(5) by (cases pre) auto
    have ev: "evict_expired now (entries(oldest := None)) order = (entries', order')"
      using "2.prems"(2) x by simp
    show ?thesis
      using "2.IH" [OF x agree_drop_oldest [OF "2.prems"(1)] ev _ "2.prems"(4) pre] ne "2.prems"(3)
      by simp
  qed
qed

lemma evict_over_limit_keeps:
  "outputs_agree entries order \<Longrightarrow> evict_over_limit entries order = (entries', order') \<Longrightarrow>
   entries k = Some e \<Longrightarrow> Suc (length post) < maxCacheEntries \<Longrightarrow> order = pre @ k # post \<Longrightarrow>
   entries' k = Some e \<and> (\<exists>pre'. order' = pre' @ k # post)"
proof (induction entries order arbitrary: pre rule: evict_over_limit.induct)
  case (1 entries)
  then show ?case by simp
next
  case (2 entries x order)
  show ?case
  proof (cases "maxCacheEntries \<le> length (x # order)")
    case False
    then have "entries' = entries" "order' = x # order" using "2.prems"(2) by simp_all
    with "2.prems"(3,5) show ?thesis by blast
  next
    case True
    then obtain pre1 where pre: "pre = x # pre1" using "2.prems"(4,5) by (cases pre) auto
    then have ord: "order = pre1 @ k # post" using "2.prems"(5) by simp
    then have ne: "x \<noteq> k" using "2.prems"(1) by (auto simp: outputs_agree_def)
    have ev: "evict_over_limit (entries(x := None)) order = (entries', order')"
      using "2.prems"(2) True by simp
    show ?thesis
      using "2.IH" [OF True agree_drop_oldest [OF "2.prems"(1)] ev _ "2.prems"(4) ord] ne "2.prems"(3)
      by simp
  qed
qed

lemma outputs_put_keeps:
  assumes inv: "outputs_inv c" and e: "os_entries c k = Some e" and k: "k \<noteq> cid"
    and order: "os_order c = pre @ k # post" and few: "Suc (length post) < maxCacheEntries"
    and fresh: "now - oe_CreatedAt e \<le> cacheEntryTTL"
  shows "os_entries (outputs_put cid now tool content c) k = Some e \<and>
         (\<exists>pre'. os_order (outputs_put cid now tool content c) = pre' @ k # (post @ [cid]))"
proof -
  obtain e1 o1 where 1: "evict_expired now (os_entries c) (os_order c) = (e1, o1)" by force
  obtain e2 o2 where 2: "evict_over_limit e1 o1 = (e2, o2)" by force
  have agree: "outputs_agree (os_entries c) (os_order c)" using inv by (simp add: outputs_inv_def)
  from evict_expired_keeps [OF agree 1 e fresh order]
  obtain pre1 where p1: "e1 k = Some e" "o1 = pre1 @ k # post" by blast
  have "outputs_agree e1 o1" using evict_expired_spec [OF agree 1] by simp
  from evict_over_limit_keeps [OF this 2 p1(1) few p1(2)]
  obtain pre2 where "e2 k = Some e" "o2 = pre2 @ k # post" by blast
  then show ?thesis using k by (simp add: outputs_put_def 1 2)
qed

text \<open>Later truncated outputs: id, time, tool, text.\<close>

definition outputs_run :: "(string \<times> int \<times> string \<times> string) list \<Rightarrow> outputStore \<Rightarrow> outputStore" where
  "outputs_run puts c = foldl (\<lambda>c (cid, now, tool, content). outputs_put cid now tool content c) c puts"

lemma outputs_put_dom:
  assumes "outputs_inv c"
  shows "dom (os_entries (outputs_put cid now tool content c)) \<subseteq> insert cid (dom (os_entries c))"
  using outputs.used_store [OF assms, of cid now "(tool, content)"] by (simp add: outputs_store_def)

lemma outputs_run_inv:
  "outputs_inv c \<Longrightarrow> distinct (map fst puts) \<Longrightarrow> set (map fst puts) \<inter> dom (os_entries c) = {} \<Longrightarrow>
   outputs_inv (outputs_run puts c)"
proof (induction puts arbitrary: c)
  case (Cons p puts)
  obtain cid now tool content where p: "p = (cid, now, tool, content)" by (cases p)
  let ?c = "outputs_put cid now tool content c"
  have "cid \<notin> dom (os_entries c)" using Cons.prems(3) p by simp
  then have inv: "outputs_inv ?c" by (rule outputs_inv_put [OF Cons.prems(1)])
  have "set (map fst puts) \<inter> insert cid (dom (os_entries c)) = {}" using Cons.prems(2,3) p by simp
  then have "set (map fst puts) \<inter> dom (os_entries ?c) = {}"
    using outputs_put_dom [OF Cons.prems(1), of cid now tool content] by blast
  moreover have "distinct (map fst puts)" using Cons.prems(2) by simp
  ultimately have "outputs_inv (outputs_run puts ?c)" by (intro Cons.IH [OF inv])
  then show ?case by (simp add: outputs_run_def p)
qed (simp add: outputs_run_def)

lemma outputs_run_keeps:
  "outputs_inv c \<Longrightarrow> distinct (map fst puts) \<Longrightarrow> set (map fst puts) \<inter> dom (os_entries c) = {} \<Longrightarrow>
   os_entries c k = Some e \<Longrightarrow> os_order c = pre @ k # post \<Longrightarrow>
   length post + length puts < maxCacheEntries \<Longrightarrow>
   \<forall>(_, now, _) \<in> set puts. now - oe_CreatedAt e \<le> cacheEntryTTL \<Longrightarrow>
   os_entries (outputs_run puts c) k = Some e"
proof (induction puts arbitrary: c pre post)
  case (Cons p puts)
  obtain cid now tool content where p: "p = (cid, now, tool, content)" by (cases p)
  let ?c = "outputs_put cid now tool content c"
  have fresh: "cid \<notin> dom (os_entries c)" using Cons.prems(3) p by simp
  then have inv: "outputs_inv ?c" by (rule outputs_inv_put [OF Cons.prems(1)])
  have "set (map fst puts) \<inter> insert cid (dom (os_entries c)) = {}" using Cons.prems(2,3) p by simp
  then have disj: "set (map fst puts) \<inter> dom (os_entries ?c) = {}"
    using outputs_put_dom [OF Cons.prems(1), of cid now tool content] by blast
  have ne: "k \<noteq> cid" using fresh Cons.prems(4) by blast
  have few: "Suc (length post) < maxCacheEntries" and t: "now - oe_CreatedAt e \<le> cacheEntryTTL"
    using Cons.prems(6,7) p by simp_all
  obtain pre' where kept: "os_entries ?c k = Some e" "os_order ?c = pre' @ k # (post @ [cid])"
    using outputs_put_keeps [OF Cons.prems(1,4) ne Cons.prems(5) few t, of tool content] by blast
  have "length (post @ [cid]) + length puts < maxCacheEntries" using Cons.prems(6) by simp
  moreover have "\<forall>(_, now, _) \<in> set puts. now - oe_CreatedAt e \<le> cacheEntryTTL"
    using Cons.prems(7) by simp
  ultimately have "os_entries (outputs_run puts ?c) k = Some e"
    using Cons.IH [OF inv _ disj kept] Cons.prems(2) by simp
  then show ?case by (simp add: outputs_run_def p)
qed (simp add: outputs_run_def)

lemma outputs_run_order:
  "outputs_inv c \<Longrightarrow> distinct (map fst puts) \<Longrightarrow> set (map fst puts) \<inter> dom (os_entries c) = {} \<Longrightarrow>
   suffix (os_order (outputs_run puts c)) (os_order c @ map fst puts)"
proof (induction puts arbitrary: c)
  case (Cons p puts)
  obtain cid now tool content where p: "p = (cid, now, tool, content)" by (cases p)
  let ?c = "outputs_put cid now tool content c"
  have "cid \<notin> dom (os_entries c)" using Cons.prems(3) p by simp
  then have inv: "outputs_inv ?c" by (rule outputs_inv_put [OF Cons.prems(1)])
  have "set (map fst puts) \<inter> insert cid (dom (os_entries c)) = {}" using Cons.prems(2,3) p by simp
  then have disj: "set (map fst puts) \<inter> dom (os_entries ?c) = {}"
    using outputs_put_dom [OF Cons.prems(1), of cid now tool content] by blast
  have "distinct (map fst puts)" using Cons.prems(2) by simp
  then have "suffix (os_order (outputs_run puts ?c)) (os_order ?c @ map fst puts)"
    using Cons.IH [OF inv _ disj] by blast
  moreover have "suffix (os_order ?c) (os_order c @ [cid])"
    by (rule outputs_put_cases [OF Cons.prems(1), of cid now tool content]) (auto simp: suffix_def)
  then have "suffix (os_order ?c @ map fst puts) (os_order c @ map fst (p # puts))"
    using p by (auto simp: suffix_def)
  ultimately show ?case using p by (simp add: outputs_run_def)
qed (simp add: outputs_run_def)

lemma maybeCacheResult_stored:
  "defaultMaxOutputChars < int (length (result_text marshal result)) \<Longrightarrow>
   snd (maybeCacheResult marshal unmarshal cacheID now toolName result outputs) =
     outputs_put cacheID now toolName (result_text marshal result) outputs"
  by (auto simp: maybeCacheResult_def Let_def split: option.splits)

lemma maybeCacheResult_kept:
  assumes inv: "outputs_inv outputs" and new: "cacheID \<notin> dom (os_entries outputs)"
    and long: "defaultMaxOutputChars < int (length (result_text marshal result))"
    and later: "distinct (map fst later)" "set (map fst later) \<inter> insert cacheID (dom (os_entries outputs)) = {}"
      "length later < maxCacheEntries" "\<forall>(_, time, _) \<in> set later. time \<le> now'"
    and ttl: "now' - now \<le> cacheEntryTTL"
  shows "os_entries (outputs_run later
      (snd (maybeCacheResult marshal unmarshal cacheID now toolName result outputs))) cacheID =
    Some \<lparr>oe_ID = cacheID, oe_Tool = toolName, oe_Content = result_text marshal result, oe_CreatedAt = now\<rparr>"
proof -
  let ?c = "outputs_put cacheID now toolName (result_text marshal result) outputs"
  let ?e = "\<lparr>oe_ID = cacheID, oe_Tool = toolName, oe_Content = result_text marshal result, oe_CreatedAt = now\<rparr>"
  have disj: "set (map fst later) \<inter> dom (os_entries ?c) = {}"
    using outputs_put_dom [OF inv, of cacheID now toolName "result_text marshal result"] later(2) by blast
  obtain entries order where put: "os_entries ?c cacheID = Some ?e" "os_order ?c = order @ cacheID # []"
    by (rule outputs_put_cases [OF inv, of cacheID now toolName "result_text marshal result"]) auto
  have "\<forall>(_, time, _) \<in> set later. time - oe_CreatedAt ?e \<le> cacheEntryTTL" using later(4) ttl by auto
  then have "os_entries (outputs_run later ?c) cacheID = Some ?e"
    using outputs_run_keeps [OF outputs_inv_put [OF inv new] later(1) disj put] later(3) by simp
  then show ?thesis by (simp add: maybeCacheResult_stored [OF long])
qed

section \<open>Properties\<close>

text \<open>C7: every sequence of truncated outputs, each stored under an id of its own, leaves the
  store with at most maxCacheEntries entries, an order that lists exactly the entries, oldest
  first, and only the most recent ids: the order is a suffix of the ids stored.\<close>

theorem outputs_bounded_fifo:
  assumes "distinct (map fst puts)"
  shows "let c = outputs_run puts newOutputStore
         in length (os_order c) \<le> maxCacheEntries \<and> distinct (os_order c) \<and>
            set (os_order c) = dom (os_entries c) \<and> suffix (os_order c) (map fst puts)"
proof -
  have "outputs_inv c \<Longrightarrow> distinct (map fst puts) \<Longrightarrow> set (map fst puts) \<inter> dom (os_entries c) = {} \<Longrightarrow>
      suffix (os_order (outputs_run puts c)) (os_order c @ map fst puts)" for c
    using outputs_run_order by blast
  from this [OF outputs_inv_new assms] outputs_run_inv [OF outputs_inv_new assms]
  show ?thesis
    by (simp add: newOutputStore_def outputs_inv_def outputs_agree_def Let_def)
qed

theorem outputs_bounded_fifo_witness:
  "suffix (os_order (outputs_run [(''a'', 0, ''t'', ''x''), (''b'', 5, ''t'', ''y'')] newOutputStore)) [''a'', ''b'']"
  using outputs_bounded_fifo [of "[(''a'', 0, ''t'', ''x''), (''b'', 5, ''t'', ''y'')]"]
  by (simp add: Let_def)



text \<open>The short form of a long JSON object keeps its shape. It carries the truncation mark,
  the cache id, the full size and the hint, and every key of the original with its shortened
  value; strings and arrays under the thresholds are kept as they are.\<close>

theorem truncateJSON_shape:
  assumes "distinct (map fst parsed)"
  shows "\<exists>obj. truncateJSON marshal parsed cacheID n = JsonContent (JObject obj) \<and>
     (\<forall>k. get_key obj k =
       (case get_key parsed k of
          Some v \<Rightarrow> Some (truncate_value marshal v)
        | None \<Rightarrow> get_key [(''_truncated'', JBool True), (''_cache_id'', JString cacheID),
                          (''_total_chars'', JInt n), (''_hint'', JString truncationHint)] k)) \<and>
     (\<forall>s. length s \<le> 2000 \<longrightarrow> truncate_value marshal (JString s) = JString s) \<and>
     (\<forall>vs. length (marshal (JArray vs)) \<le> 3000 \<longrightarrow> truncate_value marshal (JArray vs) = JArray vs) \<and>
     (\<forall>vs. 3000 < length (marshal (JArray vs)) \<longrightarrow>
        truncate_value marshal (JArray vs) =
          JObject [(''count'', JInt (int (length vs))), (''preview'', JArray (take 10 vs))])"
proof -
  have d: "distinct (map fst (map (\<lambda>(k, v). (k, truncate_value marshal v)) parsed))"
    using assms by (simp add: comp_def case_prod_unfold)
  have "map_of (map (\<lambda>(k, v). (k, truncate_value marshal v)) parsed) k =
      map_option (truncate_value marshal) (map_of parsed k)" for k
    by (simp add: map_of_map)
  then have m: "get_key (assign_all out (map (\<lambda>(k, v). (k, truncate_value marshal v)) parsed)) k =
      (case get_key parsed k of Some v \<Rightarrow> Some (truncate_value marshal v) | None \<Rightarrow> get_key out k)" for out k
    by (auto simp: get_key_def map_of_assign_all [OF d] split: option.splits)
  show ?thesis
    unfolding truncateJSON_def
    by (intro exI conjI allI impI, rule refl, rule m) (simp_all add: truncate_value_def min_def)
qed

theorem truncateJSON_shape_witness:
  "\<exists>obj. truncateJSON (\<lambda>_. []) [(''name'', JString ''main'')] ''id'' 9000 = JsonContent (JObject obj) \<and>
     get_key obj ''name'' = Some (JString ''main'') \<and> get_key obj ''_cache_id'' = Some (JString ''id'')"
  using truncateJSON_shape [of "[(''name'', JString ''main'')]" "\<lambda>_. []" "''id''" 9000]
  by (auto simp: get_key_def truncate_value_def)

text \<open>C31: get_cached_output panics on a limit near the largest int: the sum of the offset and
  the limit wraps below zero, min does not repair it, and the slice expression is out of
  bounds. Only the recovery in the tool wrapper keeps the server alive.\<close>

theorem getCachedOutput_limit_overflow:
  assumes "outputs_get now cid outputs = Some entry" and "fits (int (length (oe_Content entry)))"
    and "0 < off" and "off \<le> int (length (oe_Content entry))" and "l < 2 ^ 63" and "2 ^ 63 \<le> off + l"
  shows "getCachedOutput now \<lparr>gco_CacheID = cid, gco_Offset = off, gco_Limit = l\<rparr> outputs = Panic SliceBounds"
proof -
  define n where "n = int (length (oe_Content entry))"
  have lim: "0 < l" and neg: "off + l - 2 ^ 64 < 0"
    using assms(2,4,5,6) by (simp_all add: fits_def flip: n_def)
  have "int64 (off + l) = off + l - 2 ^ 64"
  proof -
    have "(off + l + 2 ^ 63) mod 2 ^ 64 = (off + l + 2 ^ 63 - 2 ^ 64) mod 2 ^ 64"
      by (metis diff_add_cancel mod_add_self2)
    also have "\<dots> = off + l + 2 ^ 63 - 2 ^ 64"
      using assms(2-6) by (intro mod_pos_pos_trivial) (simp_all add: fits_def)
    finally show ?thesis by (simp add: wrap_int_def)
  qed
  then have "cached_window n off l = (off, l, off + l - 2 ^ 64)"
    using assms(2,3,4) lim neg by (simp add: cached_window_def Let_def fits_def flip: n_def)
  moreover have "slice (oe_Content entry) off (off + l - 2 ^ 64) = Panic SliceBounds"
    using assms(3) neg by (simp add: slice_def)
  ultimately show ?thesis
    using assms(1) by (simp add: getCachedOutput_def flip: n_def)
qed

theorem getCachedOutput_limit_overflow_witness:
  "getCachedOutput 0 \<lparr>gco_CacheID = ''id'', gco_Offset = 1, gco_Limit = 2 ^ 63 - 1\<rparr>
     (outputs_put ''id'' 0 ''t'' ''abc'' newOutputStore) = Panic SliceBounds"
  by (rule getCachedOutput_limit_overflow [where entry = "\<lparr>oe_ID = ''id'', oe_Tool = ''t'',
        oe_Content = ''abc'', oe_CreatedAt = 0\<rparr>"])
     (simp_all add: outputs_get_put_same cacheEntryTTL_def fits_def)

end
