(* ===== verification/Paths.thy ===== *)
theory Paths
  imports Addr
begin

text \<open>
  Agent-supplied paths (internal/server/pathguard.go): normalizeRoots, pathWithin and
  validatePath, over a model of path/filepath on Unix (Clean, Abs, Join, Rel) that works on
  path elements. The working directory (none when os.Getwd fails), the resolution of symbolic
  links and the lower-casing of Windows are arguments. The lemmas show that the lexical test
  is the prefix order on path elements.
\<close>

section \<open>path/filepath on Unix\<close>

fun split_slash :: "string \<Rightarrow> string list" where
  "split_slash [] = [[]]"
| "split_slash (c # cs) =
     (if c = CHR ''/'' then [] # split_slash cs
      else (case split_slash cs of [] \<Rightarrow> [[c]] | e # es \<Rightarrow> (c # e) # es))"

fun join_slash :: "string list \<Rightarrow> string" where
  "join_slash [] = []"
| "join_slash [e] = e"
| "join_slash (e # es) = e @ ''/'' @ join_slash es"

definition rooted :: "string \<Rightarrow> bool" where
  "rooted p \<longleftrightarrow> p \<noteq> [] \<and> hd p = CHR ''/''"

definition render_path :: "bool \<Rightarrow> string list \<Rightarrow> string" where
  "render_path r es = (if r then ''/'' @ join_slash es else if es = [] then ''.'' else join_slash es)"

text \<open>The element stack of Clean, top first: dot and empty elements vanish, a dot-dot removes
  the element before it, is dropped at the root and kept at the start of a relative path.\<close>

fun clean_walk :: "bool \<Rightarrow> string list \<Rightarrow> string list \<Rightarrow> string list" where
  "clean_walk r [] out = rev out"
| "clean_walk r (e # es) out =
     (if e = [] \<or> e = ''.'' then clean_walk r es out
      else if e = ''..'' then
        (if out \<noteq> [] \<and> hd out \<noteq> ''..'' then clean_walk r es (tl out)
         else if r then clean_walk r es out
         else clean_walk r es (e # out))
      else clean_walk r es (e # out))"

definition Clean :: "string \<Rightarrow> string" where
  "Clean p = (if p = [] then ''.'' else render_path (rooted p) (clean_walk (rooted p) (split_slash p) []))"

definition Join :: "string \<Rightarrow> string \<Rightarrow> string" where
  "Join a b = (if a = [] then (if b = [] then [] else Clean b) else Clean (a @ ''/'' @ b))"

definition Abs :: "string option \<Rightarrow> string \<Rightarrow> string option" where
  "Abs cwd p = (if rooted p then Some (Clean p) else map_option (\<lambda>wd. Join wd p) cwd)"

definition path_elems :: "string \<Rightarrow> string list" where
  "path_elems p = filter (\<lambda>e. e \<noteq> []) (split_slash p)"

fun strip_common :: "string list \<Rightarrow> string list \<Rightarrow> string list \<times> string list" where
  "strip_common (b # bs) (t # ts) = (if b = t then strip_common bs ts else (b # bs, t # ts))"
| "strip_common bs ts = (bs, ts)"

text \<open>Rel fails when one path is rooted and the other is not, and when it would have to undo a
  dot-dot of the base.\<close>

definition Rel :: "string \<Rightarrow> string \<Rightarrow> string option" where
  "Rel basepath targpath =
     (let base = Clean basepath; targ = Clean targpath
      in if base = targ then Some ''.''
         else if rooted base \<noteq> rooted targ then None
         else
           let (bs, ts) = strip_common (if base = ''.'' then [] else path_elems base) (path_elems targ)
           in if bs \<noteq> [] \<and> hd bs = ''..'' then None
              else Some (join_slash (replicate (length bs) ''..'' @ ts)))"

section \<open>pathguard.go\<close>

definition normalizeRoot :: "string option \<Rightarrow> (string \<Rightarrow> string option) \<Rightarrow> string \<Rightarrow> string" where
  "normalizeRoot cwd EvalSymlinks root =
     (let a = (case Abs cwd root of Some a \<Rightarrow> a | None \<Rightarrow> root);
          a = Clean a
      in case EvalSymlinks a of Some resolved \<Rightarrow> resolved | None \<Rightarrow> a)"

fun normalizeRoots :: "string option \<Rightarrow> (string \<Rightarrow> string option) \<Rightarrow> string list \<Rightarrow> string list" where
  "normalizeRoots cwd EvalSymlinks [] = []"
| "normalizeRoots cwd EvalSymlinks (r # roots) =
     (let r = TrimSpace r
      in if r = [] then normalizeRoots cwd EvalSymlinks roots
         else normalizeRoot cwd EvalSymlinks r # normalizeRoots cwd EvalSymlinks roots)"

text \<open>runtime.GOOS, with strings.ToLower for Windows.\<close>

record host =
  h_GOOS :: string
  h_ToLower :: "string \<Rightarrow> string"
  h_cwd :: "string option"
  h_EvalSymlinks :: "string \<Rightarrow> string option"

definition foldPath :: "host \<Rightarrow> string \<Rightarrow> string" where
  "foldPath h p = (if h_GOOS h = ''windows'' then h_ToLower h p else p)"

definition pathWithin :: "host \<Rightarrow> string \<Rightarrow> string \<Rightarrow> bool" where
  "pathWithin h target root =
     (case Rel (foldPath h root) (foldPath h target) of
        None \<Rightarrow> False
      | Some rel \<Rightarrow>
          let rel = Clean rel
          in if rel = ''.'' then True else rel \<noteq> ''..'' \<and> \<not> prefix ''../'' rel)"

fun pathWithinRoots :: "host \<Rightarrow> string \<Rightarrow> string list \<Rightarrow> bool" where
  "pathWithinRoots h target [] = False"
| "pathWithinRoots h target (root # roots) =
     (if pathWithin h target root then True else pathWithinRoots h target roots)"

definition validatePath :: "host \<Rightarrow> string list \<Rightarrow> string \<Rightarrow> string \<Rightarrow> string go" where
  "validatePath h allowedRoots label p =
     (if allowedRoots = [] then Ret p
      else if p = [] then Err (Msg (label @ '' is required''))
      else
        case Abs (h_cwd h) p of
          None \<Rightarrow> Err (Quoted (''invalid '' @ label @ '' '') p '': no working directory'')
        | Some a \<Rightarrow>
            let a = Clean a;
                resolved = (case h_EvalSymlinks h a of Some r \<Rightarrow> r | None \<Rightarrow> a)
            in if \<not> pathWithinRoots h resolved allowedRoots
               then Err (Quoted (label @ '' '') p '' is outside the allowed roots'')
               else Ret resolved)"

section \<open>Elements of clean paths\<close>

definition elem_ok :: "string \<Rightarrow> bool" where
  "elem_ok e \<longleftrightarrow> e \<noteq> [] \<and> CHR ''/'' \<notin> set e \<and> e \<noteq> ''.'' \<and> e \<noteq> ''..''"

definition absolute :: "string \<Rightarrow> bool" where
  "absolute p \<longleftrightarrow> (\<exists>es. (\<forall>e \<in> set es. elem_ok e) \<and> p = render_path True es)"

lemma split_slash_nonempty [simp]: "split_slash s \<noteq> []"
  by (induction s) (auto split: list.splits)

lemma split_slash_plain: "CHR ''/'' \<notin> set e \<Longrightarrow> split_slash e = [e]"
  by (induction e) auto

lemma split_slash_append:
  "CHR ''/'' \<notin> set e \<Longrightarrow> split_slash (e @ CHR ''/'' # s) = e # split_slash s"
  by (induction e) auto

lemma split_join:
  "es \<noteq> [] \<Longrightarrow> \<forall>e \<in> set es. CHR ''/'' \<notin> set e \<Longrightarrow> split_slash (join_slash es) = es"
  by (induction es rule: join_slash.induct) (auto simp: split_slash_plain split_slash_append)

lemma split_slash_no_slash: "e \<in> set (split_slash s) \<Longrightarrow> CHR ''/'' \<notin> set e"
proof (induction s arbitrary: e)
  case (Cons c s)
  then show ?case by (cases "split_slash s") (auto split: if_splits)
qed simp

lemma path_elems_render:
  assumes "\<forall>e \<in> set es. e \<noteq> [] \<and> CHR ''/'' \<notin> set e"
  shows "path_elems (render_path True es) = es"
proof (cases "es = []")
  case False
  then have "split_slash (''/'' @ join_slash es) = [] # es" using assms by (simp add: split_join)
  moreover have "filter (\<lambda>e. e \<noteq> []) es = es" using assms by (simp add: filter_id_conv)
  ultimately show ?thesis by (simp add: path_elems_def render_path_def)
qed (simp add: path_elems_def render_path_def)

lemma clean_walk_ok: "\<forall>e \<in> set es. elem_ok e \<Longrightarrow> clean_walk r es out = rev out @ es"
  by (induction r es out rule: clean_walk.induct) (auto simp: elem_ok_def)

lemma clean_walk_dotdots:
  "\<forall>e \<in> set out. e = ''..'' \<Longrightarrow>
   clean_walk False (replicate n ''..'' @ es) out = clean_walk False es (replicate n ''..'' @ out)"
proof (induction n arbitrary: out)
  case (Suc n)
  then have "\<not> (out \<noteq> [] \<and> hd out \<noteq> ''..'')" by (cases out) auto
  then have "clean_walk False (replicate (Suc n) ''..'' @ es) out =
      clean_walk False (replicate n ''..'' @ es) (''..'' # out)" by auto
  also have "\<dots> = clean_walk False es (replicate n ''..'' @ ''..'' # out)" using Suc by simp
  finally show ?case by (simp add: replicate_app_Cons_same)
qed simp

lemma clean_walk_rooted:
  "\<forall>e \<in> set es. CHR ''/'' \<notin> set e \<Longrightarrow> \<forall>e \<in> set out. elem_ok e \<Longrightarrow>
   e \<in> set (clean_walk True es out) \<Longrightarrow> elem_ok e"
proof (induction es arbitrary: out)
  case (Cons x es)
  have plain: "\<forall>e \<in> set es. CHR ''/'' \<notin> set e" using Cons.prems(1) by simp
  note IH = Cons.IH [OF plain]
  consider "x = [] \<or> x = ''.''" | "x = ''..''" | "elem_ok x"
    using Cons.prems(1) by (auto simp: elem_ok_def)
  then show ?case
  proof cases
    case 1
    then have "clean_walk True (x # es) out = clean_walk True es out" by auto
    then show ?thesis using IH [OF Cons.prems(2)] Cons.prems(3) by simp
  next
    case 2
    have tl: "\<forall>e \<in> set (tl out). elem_ok e" using Cons.prems(2) by (cases out) auto
    have "clean_walk True (x # es) out \<in> {clean_walk True es out, clean_walk True es (tl out)}"
      using 2 by simp
    then show ?thesis using IH [OF Cons.prems(2)] IH [OF tl] Cons.prems(3) by auto
  next
    case 3
    then have "clean_walk True (x # es) out = clean_walk True es (x # out)" by (simp add: elem_ok_def)
    moreover have "\<forall>e \<in> set (x # out). elem_ok e" using 3 Cons.prems(2) by simp
    ultimately show ?thesis using IH [of "x # out"] Cons.prems(3) by (simp del: clean_walk.simps)
  qed
qed simp

lemma rooted_render [simp]: "rooted (render_path True es)"
  by (simp add: rooted_def render_path_def)

lemma absolute_render: "\<forall>e \<in> set es. elem_ok e \<Longrightarrow> absolute (render_path True es)"
  unfolding absolute_def by blast

lemma absolute_rooted: "absolute p \<Longrightarrow> rooted p"
  by (auto simp: absolute_def)

lemma Clean_absolute:
  assumes "absolute p"
  shows "Clean p = p"
proof -
  obtain es where es: "\<forall>e \<in> set es. elem_ok e" and p: "p = render_path True es"
    using assms by (auto simp: absolute_def)
  have "clean_walk True (split_slash p) [] = es"
  proof (cases "es = []")
    case False
    then have "split_slash p = [] # es"
      using es by (simp add: p render_path_def elem_ok_def split_join)
    then show ?thesis using es by (simp add: clean_walk_ok)
  qed (simp add: p render_path_def)
  moreover have "p \<noteq> []" by (simp add: p render_path_def)
  ultimately show ?thesis using absolute_rooted [OF assms] p by (simp add: Clean_def)
qed

lemma absolute_Clean: "rooted p \<Longrightarrow> absolute (Clean p)"
proof -
  assume r: "rooted p"
  then have "Clean p = render_path True (clean_walk True (split_slash p) [])"
    by (auto simp: Clean_def rooted_def)
  moreover have "\<forall>e \<in> set (split_slash p). CHR ''/'' \<notin> set e" by (simp add: split_slash_no_slash)
  then have "\<forall>e \<in> set (clean_walk True (split_slash p) []). elem_ok e"
    by (intro ballI, elim clean_walk_rooted) simp_all
  ultimately show ?thesis by (simp only: absolute_render)
qed

lemma absolute_Abs:
  assumes "Abs cwd p = Some a" and "\<And>wd. cwd = Some wd \<Longrightarrow> rooted wd"
  shows "absolute a"
proof (cases "rooted p")
  case True
  with assms show ?thesis by (auto simp: Abs_def absolute_Clean)
next
  case False
  with assms(1) obtain wd where wd: "cwd = Some wd" "a = Join wd p" by (auto simp: Abs_def)
  with assms(2) have "rooted wd" by simp
  then have "wd \<noteq> []" "rooted (wd @ ''/'' @ p)" by (auto simp: rooted_def)
  then show ?thesis using wd by (simp add: Join_def absolute_Clean)
qed

section \<open>pathWithin is the prefix order on elements\<close>

lemma strip_common_eq: "strip_common (zs @ bs) (zs @ ts) = strip_common bs ts"
  by (induction zs) auto

lemma strip_common_split:
  "\<exists>zs. bs = zs @ fst (strip_common bs ts) \<and> ts = zs @ snd (strip_common bs ts)"
proof (induction bs ts rule: strip_common.induct)
  case (1 b bs t ts)
  show ?case
  proof (cases "b = t")
    case True
    then obtain zs where "bs = zs @ fst (strip_common bs ts)" "ts = zs @ snd (strip_common bs ts)"
      using 1 by blast
    with True show ?thesis by (intro exI [of _ "b # zs"]) simp
  qed simp
qed simp_all

lemma strip_common_prefix: "fst (strip_common bs ts) = [] \<longleftrightarrow> prefix bs ts"
  by (induction bs ts rule: strip_common.induct) auto

lemma join_slash_Cons: "es \<noteq> [] \<Longrightarrow> join_slash (e # es) = e @ ''/'' @ join_slash es"
  by (cases es) auto

lemma hd_join_slash: "es \<noteq> [] \<Longrightarrow> hd es \<noteq> [] \<Longrightarrow> join_slash es \<noteq> [] \<and> hd (join_slash es) = hd (hd es)"
  by (cases es rule: join_slash.cases) auto

lemma Clean_unrooted:
  assumes ne: "all \<noteq> []" and plain: "\<forall>e \<in> set all. e \<noteq> [] \<and> CHR ''/'' \<notin> set e"
    and walk: "clean_walk False all [] = all"
  shows "Clean (join_slash all) = join_slash all"
proof -
  have h: "hd all \<noteq> []" "CHR ''/'' \<notin> set (hd all)" using plain hd_in_set [OF ne] by auto
  note j = hd_join_slash [OF ne h(1)]
  have "hd (hd all) \<noteq> CHR ''/''" using h(2) hd_in_set [OF h(1)] by metis
  then have "rooted (join_slash all) = False" using j by (simp only: rooted_def simp_thms)
  moreover have "split_slash (join_slash all) = all" using ne plain by (intro split_join) auto
  ultimately show ?thesis
    by (simp only: Clean_def render_path_def walk j ne if_False simp_thms)
qed

lemma Clean_relative_ok:
  assumes ok: "\<forall>e \<in> set es. elem_ok e" and ne: "replicate n ''..'' @ es \<noteq> []"
  shows "Clean (join_slash (replicate n ''..'' @ es)) = join_slash (replicate n ''..'' @ es)"
proof (rule Clean_unrooted [OF ne])
  have "elem_ok e \<Longrightarrow> e \<noteq> [] \<and> CHR ''/'' \<notin> set e" for e by (simp add: elem_ok_def)
  then show "\<forall>e \<in> set (replicate n ''..'' @ es). e \<noteq> [] \<and> CHR ''/'' \<notin> set e"
    using ok by (simp add: ball_Un)
  show "clean_walk False (replicate n ''..'' @ es) [] = replicate n ''..'' @ es"
    using clean_walk_dotdots [of "[]" n es] clean_walk_ok [OF ok, of False "replicate n ''..''"]
    by simp
qed

lemma pathWithin_absolute:
  assumes unix: "h_GOOS h \<noteq> ''windows''"
    and t: "\<forall>e \<in> set t. elem_ok e" and r: "\<forall>e \<in> set r. elem_ok e"
  shows "pathWithin h (render_path True t) (render_path True r) \<longleftrightarrow> prefix r t"
proof -
  have clean: "Clean (render_path True t) = render_path True t" "Clean (render_path True r) = render_path True r"
    using t r by (simp_all add: Clean_absolute absolute_render)
  have elems: "path_elems (render_path True t) = t" "path_elems (render_path True r) = r"
    using t r by (auto simp: elem_ok_def intro!: path_elems_render)
  have dot: "render_path True r \<noteq> ''.''" by (simp add: render_path_def)
  show ?thesis
  proof (cases "r = t")
    case True
    then show ?thesis using unix by (simp add: pathWithin_def foldPath_def Rel_def) (simp add: Clean_def render_path_def)
  next
    case False
    then have ne: "render_path True r \<noteq> render_path True t" using elems by metis
    obtain bs ts where sc: "strip_common r t = (bs, ts)" by force
    obtain zs where zs: "r = zs @ bs" "t = zs @ ts" using strip_common_split [of r t] sc by auto
    have bs: "bs = [] \<longleftrightarrow> prefix r t" using strip_common_prefix [of r t] sc by simp
    have ok: "\<forall>e \<in> set bs. elem_ok e" "\<forall>e \<in> set ts. elem_ok e" using zs t r by auto
    then have "\<not> (bs \<noteq> [] \<and> hd bs = ''..'')" by (cases bs) (auto simp: elem_ok_def)
    then have rel: "Rel (render_path True r) (render_path True t) =
        Some (join_slash (replicate (length bs) ''..'' @ ts))"
      by (simp add: Rel_def clean ne dot elems sc)
    have "replicate (length bs) ''..'' @ ts \<noteq> []" using zs False by auto
    note cl = Clean_relative_ok [OF ok(2) this]
    show ?thesis
    proof (cases bs)
      case Nil
      then obtain e ts' where e: "ts = e # ts'" using zs False by (cases ts) auto
      then have eok: "elem_ok e" using ok by simp
      have "\<not> prefix ''../'' (join_slash ts)"
      proof
        assume "prefix ''../'' (join_slash ts)"
        then obtain s where s: "join_slash ts = ''..'' @ CHR ''/'' # s" by (auto simp: prefix_def)
        have "split_slash (join_slash ts) = ts" using ok e by (intro split_join) (auto simp: elem_ok_def)
        moreover have "split_slash (''..'' @ CHR ''/'' # s) = ''..'' # split_slash s"
          by (rule split_slash_append) simp
        ultimately have "e = ''..''" using s e by simp
        with eok show False by (simp add: elem_ok_def)
      qed
      moreover have "join_slash ts \<noteq> ''..''"
      proof
        assume "join_slash ts = ''..''"
        moreover have "split_slash (join_slash ts) = ts" using ok e by (intro split_join) (auto simp: elem_ok_def)
        ultimately have "ts = [''..'']" by simp
        with e eok show False by (simp add: elem_ok_def)
      qed
      ultimately show ?thesis using unix rel cl bs Nil by (simp add: pathWithin_def foldPath_def Let_def)
    next
      case (Cons b bs')
      have "join_slash (replicate (length bs) ''..'' @ ts) = ''..'' \<or>
          prefix ''../'' (join_slash (replicate (length bs) ''..'' @ ts))"
        using Cons by (cases "replicate (length bs') ''..'' @ ts = []") (simp_all add: join_slash_Cons)
      moreover have "join_slash (replicate (length bs) ''..'' @ ts) \<noteq> ''.''" using calculation by auto
      ultimately show ?thesis using unix rel cl bs Cons by (auto simp: pathWithin_def foldPath_def Let_def)
    qed
  qed
qed

lemma pathWithinRoots_iff: "pathWithinRoots h t roots \<longleftrightarrow> (\<exists>r \<in> set roots. pathWithin h t r)"
  by (induction h t roots rule: pathWithinRoots.induct) auto

lemma absolute_normalizeRoots:
  assumes "\<And>wd. cwd = Some wd \<Longrightarrow> rooted wd" and "\<And>a q. absolute a \<Longrightarrow> EvalSymlinks a = Some q \<Longrightarrow> absolute q"
    and "cwd \<noteq> None"
  shows "\<forall>r \<in> set (normalizeRoots cwd EvalSymlinks roots). absolute r"
proof -
  have "absolute (normalizeRoot cwd EvalSymlinks r)" for r
  proof -
    obtain a where a: "Abs cwd r = Some a" using assms(3) by (cases "rooted r") (auto simp: Abs_def)
    then have "absolute a" using assms(1) by (rule absolute_Abs)
    then show ?thesis
      using assms(2) [of a] by (auto simp: normalizeRoot_def a Clean_absolute split: option.splits)
  qed
  then show ?thesis by (induction cwd EvalSymlinks roots rule: normalizeRoots.induct) (auto simp: Let_def)
qed

section \<open>Properties\<close>

lemma validatePath_lexical:
  assumes unix: "h_GOOS h \<noteq> ''windows''" and wd: "h_cwd h = Some wd" "rooted wd"
    and links: "\<forall>a q. absolute a \<longrightarrow> h_EvalSymlinks h a = Some q \<longrightarrow> absolute q"
    and roots: "roots = normalizeRoots (h_cwd h) (h_EvalSymlinks h) configured" "roots \<noteq> []"
    and p: "p \<noteq> []"
  shows "\<exists>a resolved. Abs (h_cwd h) p = Some a \<and>
     resolved = (case h_EvalSymlinks h a of Some q \<Rightarrow> q | None \<Rightarrow> a) \<and> absolute resolved \<and>
     validatePath h roots label p =
       (if \<exists>root \<in> set roots. prefix (path_elems root) (path_elems resolved) then Ret resolved
        else Err (Quoted (label @ '' '') p '' is outside the allowed roots''))"
proof -
  obtain a where a: "Abs (h_cwd h) p = Some a" using wd by (cases "rooted p") (auto simp: Abs_def)
  then have abs_a: "absolute a" using wd by (auto intro: absolute_Abs)
  define resolved where "resolved = (case h_EvalSymlinks h a of Some q \<Rightarrow> q | None \<Rightarrow> a)"
  have res: "absolute resolved" using abs_a links by (auto simp: resolved_def split: option.splits)
  have "\<forall>r \<in> set roots. absolute r"
    unfolding roots(1) by (rule absolute_normalizeRoots) (use wd links in auto)
  then have "pathWithin h resolved r \<longleftrightarrow> prefix (path_elems r) (path_elems resolved)" if "r \<in> set roots" for r
    using that res pathWithin_absolute [OF unix] path_elems_render
    by (auto simp: absolute_def elem_ok_def)
  then have "pathWithinRoots h resolved roots \<longleftrightarrow> (\<exists>r \<in> set roots. prefix (path_elems r) (path_elems resolved))"
    by (simp add: pathWithinRoots_iff)
  then show ?thesis
    using a abs_a res roots(2) p by (auto simp: validatePath_def Clean_absolute Let_def simp flip: resolved_def)
qed

lemma validatePath_below:
  assumes "h_GOOS h \<noteq> ''windows''" and "h_cwd h = Some wd" "rooted wd"
    and "\<forall>a q. absolute a \<longrightarrow> h_EvalSymlinks h a = Some q \<longrightarrow> absolute q"
    and "roots = normalizeRoots (h_cwd h) (h_EvalSymlinks h) configured" "roots \<noteq> []"
    and v: "validatePath h roots label p = Ret q"
  shows "absolute q \<and> (\<exists>root \<in> set roots. prefix (path_elems root) (path_elems q))"
proof -
  have "p \<noteq> []" using v assms(6) by (auto simp: validatePath_def)
  from validatePath_lexical [OF assms(1-6) this, where label = label] v show ?thesis by (auto split: if_splits)
qed



end
