(* ===== verification/Registry.thy ===== *)
theory Registry
  imports Paths
begin

text \<open>
  Sessions and their registry (internal/session/registry.go). A Session is an object shared by
  the registry, the handlers and the background goroutines, so the model keeps references: the
  registry record holds the heap of session objects and both maps hold references into it.
  Times are nanoseconds. The ids drawn by uuid.New, the clock readings, the temporary
  directory and the iteration order of the session map are arguments. The lemmas show that
  the two maps agree and that the limit on the number of sessions is never exceeded.
\<close>

section \<open>Session\<close>

record session =
  se_ID :: string
  se_BinaryPath :: string
  se_CreatedAt :: int
  se_LastActivity :: int
  se_Timeout :: int
  se_SocketPath :: string
  se_WorkerPID :: int
  se_inFlight :: int
  se_analysisActive :: bool

record Metadata =
  md_ID :: string
  md_BinaryPath :: string
  md_CreatedAt :: int
  md_LastActivity :: int
  md_Timeout :: int

definition Touch :: "int \<Rightarrow> session \<Rightarrow> session" where
  "Touch now s = s\<lparr>se_LastActivity := now\<rparr>"

definition IsExpired :: "int \<Rightarrow> session \<Rightarrow> bool" where
  "IsExpired now s \<longleftrightarrow> now - se_LastActivity s > se_Timeout s"

definition AcquireInFlight :: "session \<Rightarrow> session" where
  "AcquireInFlight s = s\<lparr>se_inFlight := int64 (se_inFlight s + 1)\<rparr>"

definition ReleaseInFlight :: "int \<Rightarrow> session \<Rightarrow> session" where
  "ReleaseInFlight now s =
     (let s = Touch now s in s\<lparr>se_inFlight := int64 (se_inFlight s + (- 1))\<rparr>)"

definition HasInFlight :: "session \<Rightarrow> bool" where
  "HasInFlight s \<longleftrightarrow> se_inFlight s > 0"

text \<open>CompareAndSwap(false, true) is atomic: one step.\<close>

definition TryBeginAnalysis :: "session \<Rightarrow> bool \<times> session" where
  "TryBeginAnalysis s =
     (if se_analysisActive s = False then (True, s\<lparr>se_analysisActive := True\<rparr>) else (False, s))"

definition EndAnalysis :: "session \<Rightarrow> session" where
  "EndAnalysis s = s\<lparr>se_analysisActive := False\<rparr>"

definition AnalysisActive :: "session \<Rightarrow> bool" where
  "AnalysisActive s = se_analysisActive s"

definition session_Metadata :: "session \<Rightarrow> Metadata" where
  "session_Metadata s =
     \<lparr>md_ID = se_ID s, md_BinaryPath = se_BinaryPath s, md_CreatedAt = se_CreatedAt s,
      md_LastActivity = se_LastActivity s, md_Timeout = se_Timeout s\<rparr>"

section \<open>Registry\<close>

record registry =
  rg_sessions :: "string \<rightharpoonup> nat"
  rg_binaryIndex :: "string \<rightharpoonup> nat"
  rg_maxSessions :: int
  rg_heap :: "nat \<Rightarrow> session"
  rg_next :: nat

definition no_session :: session where
  "no_session =
     \<lparr>se_ID = [], se_BinaryPath = [], se_CreatedAt = 0, se_LastActivity = 0, se_Timeout = 0,
      se_SocketPath = [], se_WorkerPID = 0, se_inFlight = 0, se_analysisActive = False\<rparr>"

definition NewRegistry :: "int \<Rightarrow> registry" where
  "NewRegistry maxSessions =
     \<lparr>rg_sessions = Map.empty, rg_binaryIndex = Map.empty, rg_maxSessions = maxSessions,
      rg_heap = (\<lambda>_. no_session), rg_next = 0\<rparr>"

text \<open>What a Create or Restore draws from outside: two uuid prefixes, the clock, os.TempDir.\<close>

record draw =
  dr_id :: string
  dr_sock :: string
  dr_now :: int
  dr_now' :: int
  dr_TempDir :: string

definition socket_path :: "draw \<Rightarrow> string" where
  "socket_path d = Join (dr_TempDir d) (''ida-worker-'' @ dr_sock d @ ''.sock'')"

definition registry_insert :: "session \<Rightarrow> registry \<Rightarrow> nat \<times> registry" where
  "registry_insert session r =
     (rg_next r,
      r\<lparr>rg_heap := (rg_heap r)(rg_next r := session),
        rg_next := Suc (rg_next r),
        rg_sessions := (rg_sessions r)(se_ID session \<mapsto> rg_next r),
        rg_binaryIndex := (rg_binaryIndex r)(se_BinaryPath session \<mapsto> rg_next r)\<rparr>)"

definition max_reached :: "registry \<Rightarrow> gerr" where
  "max_reached r = Msg (''max sessions ('' @ show_dec (rg_maxSessions r) @ '') reached'')"

definition registry_Create :: "draw \<Rightarrow> string \<Rightarrow> int \<Rightarrow> (registry, nat) step" where
  "registry_Create d binaryPath timeout r =
     (if rg_maxSessions r > 0 \<and> int (map_len (rg_sessions r)) \<ge> rg_maxSessions r
      then fail (max_reached r) r
      else
        let normPath = Clean binaryPath;
            session =
              \<lparr>se_ID = dr_id d, se_BinaryPath = normPath, se_CreatedAt = dr_now d,
               se_LastActivity = dr_now' d, se_Timeout = timeout, se_SocketPath = socket_path d,
               se_WorkerPID = 0, se_inFlight = 0, se_analysisActive = False\<rparr>;
            (ref, r) = registry_insert session r
        in (Ret ref, r))"

definition registry_Restore :: "draw \<Rightarrow> Metadata \<Rightarrow> (registry, nat) step" where
  "registry_Restore d meta r =
     (if rg_maxSessions r > 0 \<and> int (map_len (rg_sessions r)) \<ge> rg_maxSessions r
      then fail (max_reached r) r
      else if rg_sessions r (md_ID meta) \<noteq> None
      then fail (Msg (''session '' @ md_ID meta @ '' already exists'')) r
      else
        let normPath = Clean (md_BinaryPath meta);
            session =
              \<lparr>se_ID = md_ID meta, se_BinaryPath = normPath, se_CreatedAt = md_CreatedAt meta,
               se_LastActivity = md_LastActivity meta, se_Timeout = md_Timeout meta,
               se_SocketPath = socket_path d, se_WorkerPID = 0, se_inFlight = 0,
               se_analysisActive = False\<rparr>;
            (ref, r) = registry_insert session r
        in (Ret ref, r))"

definition FindByBinaryPath :: "registry \<Rightarrow> string \<Rightarrow> nat option" where
  "FindByBinaryPath r path = rg_binaryIndex r (Clean path)"

definition registry_Get :: "registry \<Rightarrow> string \<Rightarrow> nat option" where
  "registry_Get r sid = rg_sessions r sid"

definition registry_Delete :: "string \<Rightarrow> registry \<Rightarrow> registry" where
  "registry_Delete sid r =
     (case rg_sessions r sid of
        Some sess \<Rightarrow>
          r\<lparr>rg_binaryIndex := (rg_binaryIndex r)(se_BinaryPath (rg_heap r sess) := None),
            rg_sessions := (rg_sessions r)(sid := None)\<rparr>
      | None \<Rightarrow> r)"

text \<open>\<open>order\<close> lists the ids in the order the map was ranged over.\<close>

fun registry_List :: "string list \<Rightarrow> registry \<Rightarrow> nat list" where
  "registry_List [] r = []"
| "registry_List (k # order) r =
     (case rg_sessions r k of Some s \<Rightarrow> s # registry_List order r | None \<Rightarrow> registry_List order r)"

fun registry_Expired :: "int \<Rightarrow> string list \<Rightarrow> registry \<Rightarrow> nat list" where
  "registry_Expired now [] r = []"
| "registry_Expired now (k # order) r =
     (case rg_sessions r k of
        Some s \<Rightarrow>
          if IsExpired now (rg_heap r s) then s # registry_Expired now order r
          else registry_Expired now order r
      | None \<Rightarrow> registry_Expired now order r)"

text \<open>Access to a session object through its reference.\<close>

definition on_session :: "nat \<Rightarrow> (session \<Rightarrow> session) \<Rightarrow> registry \<Rightarrow> registry" where
  "on_session ref f r = r\<lparr>rg_heap := (rg_heap r)(ref := f (rg_heap r ref))\<rparr>"

section \<open>The registry invariant\<close>

definition registered :: "registry \<Rightarrow> nat set" where
  "registered r = ran (rg_sessions r)"

definition registry_inv :: "registry \<Rightarrow> bool" where
  "registry_inv r \<longleftrightarrow>
     finite (dom (rg_sessions r)) \<and>
     (\<forall>k ref. rg_sessions r k = Some ref \<longrightarrow> ref < rg_next r \<and> se_ID (rg_heap r ref) = k) \<and>
     (\<forall>p ref. rg_binaryIndex r p = Some ref \<longrightarrow>
        se_BinaryPath (rg_heap r ref) = p \<and> rg_sessions r (se_ID (rg_heap r ref)) = Some ref) \<and>
     (rg_maxSessions r > 0 \<longrightarrow> int (map_len (rg_sessions r)) \<le> rg_maxSessions r)"

text \<open>One session per binary: every registered session is the one its path finds.\<close>

definition one_per_binary :: "registry \<Rightarrow> bool" where
  "one_per_binary r \<longleftrightarrow>
     (\<forall>k ref. rg_sessions r k = Some ref \<longrightarrow> rg_binaryIndex r (se_BinaryPath (rg_heap r ref)) = Some ref)"

lemma one_per_binaryD:
  "one_per_binary r \<Longrightarrow> rg_sessions r k = Some ref \<Longrightarrow> rg_binaryIndex r (se_BinaryPath (rg_heap r ref)) = Some ref"
  by (simp add: one_per_binary_def)

lemma registry_inv_New: "registry_inv (NewRegistry m) \<and> one_per_binary (NewRegistry m)"
  by (simp add: registry_inv_def one_per_binary_def NewRegistry_def)

lemma registry_invD:
  "registry_inv r \<Longrightarrow> rg_sessions r k = Some ref \<Longrightarrow> ref < rg_next r \<and> se_ID (rg_heap r ref) = k"
  by (simp add: registry_inv_def)

lemma registry_inv_limitD:
  "registry_inv r \<Longrightarrow> 0 < rg_maxSessions r \<Longrightarrow> int (map_len (rg_sessions r)) \<le> rg_maxSessions r"
  by (simp add: registry_inv_def)

lemma registry_inv_indexD:
  "registry_inv r \<Longrightarrow> rg_binaryIndex r p = Some ref \<Longrightarrow>
   se_BinaryPath (rg_heap r ref) = p \<and> rg_sessions r (se_ID (rg_heap r ref)) = Some ref"
  by (simp add: registry_inv_def)

lemma registry_inv_insert:
  assumes inv: "registry_inv r" and new: "rg_sessions r (se_ID s) = None"
    and room: "rg_maxSessions r > 0 \<Longrightarrow> int (map_len (rg_sessions r)) < rg_maxSessions r"
  shows "registry_inv (snd (registry_insert s r))"
proof -
  have lt: "ref < rg_next r" if "rg_sessions r k = Some ref" for k ref
    using that inv by (auto simp: registry_inv_def)
  have lt': "ref < rg_next r" if "rg_binaryIndex r p = Some ref" for p ref
    using that inv lt [of "se_ID (rg_heap r ref)" ref] by (auto simp: registry_inv_def)
  have fin: "finite (dom (rg_sessions r))" using inv by (simp add: registry_inv_def)
  show ?thesis
    using inv new room lt lt' map_len_insert [OF fin, of "se_ID s" "rg_next r"]
    by (fastforce simp: registry_inv_def registry_insert_def domIff)
qed

lemma one_per_binary_insert:
  assumes "registry_inv r" and "one_per_binary r" and "rg_binaryIndex r (se_BinaryPath s) = None"
  shows "one_per_binary (snd (registry_insert s r))"
proof -
  have "ref < rg_next r" if "rg_sessions r k = Some ref" for k ref
    using that assms(1) by (auto simp: registry_inv_def)
  then show ?thesis
    using assms(2,3) by (fastforce simp: one_per_binary_def registry_insert_def)
qed

lemma registry_Create_cases:
  "registry_Create d path timeout r =
     (if rg_maxSessions r > 0 \<and> int (map_len (rg_sessions r)) \<ge> rg_maxSessions r
      then (Err (max_reached r), r)
      else (Ret (rg_next r), snd (registry_insert
        \<lparr>se_ID = dr_id d, se_BinaryPath = Clean path, se_CreatedAt = dr_now d,
         se_LastActivity = dr_now' d, se_Timeout = timeout, se_SocketPath = socket_path d,
         se_WorkerPID = 0, se_inFlight = 0, se_analysisActive = False\<rparr> r)))"
  by (simp add: registry_Create_def registry_insert_def Let_def)

lemma registry_Restore_cases:
  "registry_Restore d meta r =
     (if rg_maxSessions r > 0 \<and> int (map_len (rg_sessions r)) \<ge> rg_maxSessions r
      then (Err (max_reached r), r)
      else if rg_sessions r (md_ID meta) \<noteq> None
      then (Err (Msg (''session '' @ md_ID meta @ '' already exists'')), r)
      else (Ret (rg_next r), snd (registry_insert
        \<lparr>se_ID = md_ID meta, se_BinaryPath = Clean (md_BinaryPath meta), se_CreatedAt = md_CreatedAt meta,
         se_LastActivity = md_LastActivity meta, se_Timeout = md_Timeout meta,
         se_SocketPath = socket_path d, se_WorkerPID = 0, se_inFlight = 0,
         se_analysisActive = False\<rparr> r)))"
  by (simp add: registry_Restore_def registry_insert_def Let_def)

lemma registry_inv_Create:
  "registry_inv r \<Longrightarrow> rg_sessions r (dr_id d) = None \<Longrightarrow> registry_inv (snd (registry_Create d path timeout r))"
  by (auto simp: registry_Create_cases intro!: registry_inv_insert)

lemma registry_inv_Restore: "registry_inv r \<Longrightarrow> registry_inv (snd (registry_Restore d meta r))"
  by (auto simp: registry_Restore_cases intro!: registry_inv_insert)

lemma registry_inv_Delete:
  assumes inv: "registry_inv r"
  shows "registry_inv (registry_Delete sid r)"
    and "one_per_binary r \<Longrightarrow> one_per_binary (registry_Delete sid r)"
proof -
  have fin: "finite (dom (rg_sessions r))" using inv by (simp add: registry_inv_def)
  show "registry_inv (registry_Delete sid r)"
  proof (cases "rg_sessions r sid")
    case (Some ref)
    let ?path = "se_BinaryPath (rg_heap r ref)" and ?r = "registry_Delete sid r"
    have d: "rg_sessions ?r = (rg_sessions r)(sid := None)" "rg_binaryIndex ?r = (rg_binaryIndex r)(?path := None)"
      "rg_heap ?r = rg_heap r" "rg_next ?r = rg_next r" "rg_maxSessions ?r = rg_maxSessions r"
      using Some by (simp_all add: registry_Delete_def)
    have other: "se_BinaryPath (rg_heap r ref') = p \<and> se_ID (rg_heap r ref') \<noteq> sid \<and>
        rg_sessions r (se_ID (rg_heap r ref')) = Some ref'"
      if "rg_binaryIndex r p = Some ref'" "p \<noteq> ?path" for p ref'
      using registry_inv_indexD [OF inv that(1)] that(2) Some
      by (metis option.inject)
    have "map_len ((rg_sessions r)(sid := None)) \<le> map_len (rg_sessions r)"
      using map_len_delete [OF fin, of sid] Some by (simp add: domI)
    then have limit: "0 < rg_maxSessions r \<Longrightarrow> int (map_len ((rg_sessions r)(sid := None))) \<le> rg_maxSessions r"
      using registry_inv_limitD [OF inv] by linarith
    have session: "ref' < rg_next r \<and> se_ID (rg_heap r ref') = k"
      if "((rg_sessions r)(sid := None)) k = Some ref'" for k ref'
      using that by (intro registry_invD [OF inv]) (simp split: if_splits)
    have index: "se_BinaryPath (rg_heap r ref') = p \<and>
        ((rg_sessions r)(sid := None)) (se_ID (rg_heap r ref')) = Some ref'"
      if "((rg_binaryIndex r)(?path := None)) p = Some ref'" for p ref'
      using that other [of p ref'] by (cases "p = ?path") simp_all
    have fin': "finite (dom ((rg_sessions r)(sid := None)))" using fin by simp
    show ?thesis
      unfolding registry_inv_def d
      by (intro conjI allI impI, rule fin', erule session [THEN conjunct1], erule session [THEN conjunct2],
          erule index [THEN conjunct1], erule index [THEN conjunct2], erule limit)
  qed (use inv in \<open>simp add: registry_Delete_def\<close>)
  show "one_per_binary (registry_Delete sid r)" if one: "one_per_binary r"
  proof (cases "rg_sessions r sid")
    case (Some ref)
    let ?path = "se_BinaryPath (rg_heap r ref)"
    have other: "se_BinaryPath (rg_heap r ref') \<noteq> ?path" if k: "rg_sessions r k = Some ref'" "k \<noteq> sid" for k ref'
    proof
      assume "se_BinaryPath (rg_heap r ref') = ?path"
      then have "ref' = ref" using one_per_binaryD [OF one Some] one_per_binaryD [OF one k(1)] by simp
      then show False using k registry_invD [OF inv k(1)] registry_invD [OF inv Some] by simp
    qed
    show ?thesis
      unfolding one_per_binary_def
    proof (intro allI impI)
      fix k ref'
      assume k: "rg_sessions (registry_Delete sid r) k = Some ref'"
      then have k': "rg_sessions r k = Some ref'" "k \<noteq> sid"
        using Some by (simp_all add: registry_Delete_def split: if_splits)
      show "rg_binaryIndex (registry_Delete sid r) (se_BinaryPath (rg_heap (registry_Delete sid r) ref')) = Some ref'"
        using Some other [OF k'] one_per_binaryD [OF one k'(1)] by (simp add: registry_Delete_def)
    qed
  qed (use one in \<open>simp add: registry_Delete_def\<close>)
qed

lemma registry_inv_on_session:
  "(\<And>s. se_ID (f s) = se_ID s \<and> se_BinaryPath (f s) = se_BinaryPath s) \<Longrightarrow>
   registry_inv r \<Longrightarrow> registry_inv (on_session ref f r)"
  by (auto simp: registry_inv_def on_session_def)

lemma one_per_binary_on_session:
  "(\<And>s. se_ID (f s) = se_ID s \<and> se_BinaryPath (f s) = se_BinaryPath s) \<Longrightarrow>
   one_per_binary r \<Longrightarrow> one_per_binary (on_session ref f r)"
  by (auto simp: one_per_binary_def on_session_def)

lemma set_registry_List: "set (registry_List order r) = {ref. \<exists>k \<in> set order. rg_sessions r k = Some ref}"
  by (induction order r rule: registry_List.induct) (auto split: option.splits)

lemma set_registry_Expired:
  "set (registry_Expired now order r) =
     {ref. (\<exists>k \<in> set order. rg_sessions r k = Some ref) \<and> IsExpired now (rg_heap r ref)}"
  by (induction now order r rule: registry_Expired.induct) (auto split: option.splits)

section \<open>Properties\<close>

text \<open>The registries a server can reach: the operations of the registry, with a uuid that is not
  in use, and the updates of session objects (Touch, the in-flight counter, the analysis slot).\<close>

inductive registry_reach :: "int \<Rightarrow> registry \<Rightarrow> bool" for m :: int where
  reach_New: "registry_reach m (NewRegistry m)"
| reach_Create: "registry_reach m r \<Longrightarrow> rg_sessions r (dr_id d) = None \<Longrightarrow>
    registry_reach m (snd (registry_Create d path timeout r))"
| reach_Restore: "registry_reach m r \<Longrightarrow> registry_reach m (snd (registry_Restore d meta r))"
| reach_Delete: "registry_reach m r \<Longrightarrow> registry_reach m (registry_Delete sid r)"
| reach_Touch: "registry_reach m r \<Longrightarrow> registry_reach m (on_session ref (Touch now) r)"
| reach_Acquire: "registry_reach m r \<Longrightarrow> registry_reach m (on_session ref AcquireInFlight r)"
| reach_Release: "registry_reach m r \<Longrightarrow> registry_reach m (on_session ref (ReleaseInFlight now) r)"
| reach_TryBegin: "registry_reach m r \<Longrightarrow> registry_reach m (on_session ref (\<lambda>s. snd (TryBeginAnalysis s)) r)"
| reach_End: "registry_reach m r \<Longrightarrow> registry_reach m (on_session ref EndAnalysis r)"

lemma session_ops_keep_key:
  "se_ID (Touch now s) = se_ID s" "se_BinaryPath (Touch now s) = se_BinaryPath s"
  "se_ID (AcquireInFlight s) = se_ID s" "se_BinaryPath (AcquireInFlight s) = se_BinaryPath s"
  "se_ID (ReleaseInFlight now s) = se_ID s" "se_BinaryPath (ReleaseInFlight now s) = se_BinaryPath s"
  "se_ID (snd (TryBeginAnalysis s)) = se_ID s" "se_BinaryPath (snd (TryBeginAnalysis s)) = se_BinaryPath s"
  "se_ID (EndAnalysis s) = se_ID s" "se_BinaryPath (EndAnalysis s) = se_BinaryPath s"
  by (simp_all add: Touch_def AcquireInFlight_def ReleaseInFlight_def TryBeginAnalysis_def EndAnalysis_def)

lemma registry_reach_inv: "registry_reach m r \<Longrightarrow> registry_inv r \<and> rg_maxSessions r = m"
proof (induction rule: registry_reach.induct)
  case reach_New
  then show ?case by (simp add: registry_inv_New) (simp add: NewRegistry_def)
next
  case (reach_Create r d path timeout)
  then show ?case by (simp add: registry_inv_Create) (simp add: registry_Create_cases registry_insert_def)
next
  case (reach_Restore r d meta)
  then show ?case by (simp add: registry_inv_Restore) (simp add: registry_Restore_cases registry_insert_def)
next
  case (reach_Delete r sid)
  then show ?case
    by (simp add: registry_inv_Delete(1)) (simp add: registry_Delete_def split: option.splits)
qed (simp_all add: registry_inv_on_session session_ops_keep_key, simp_all add: on_session_def)

text \<open>In every reachable registry the session an id finds has that id, the session a binary
  path finds has the cleaned path and is registered under its own id, and a positive limit on
  the number of sessions is never exceeded.\<close>

theorem registry_reachable:
  assumes "registry_reach m r"
  shows "(\<forall>sid ref. registry_Get r sid = Some ref \<longrightarrow> se_ID (rg_heap r ref) = sid) \<and>
     (\<forall>p ref. FindByBinaryPath r p = Some ref \<longrightarrow>
        se_BinaryPath (rg_heap r ref) = Clean p \<and> registry_Get r (se_ID (rg_heap r ref)) = Some ref) \<and>
     (0 < m \<longrightarrow> int (map_len (rg_sessions r)) \<le> m)"
  using registry_reach_inv [OF assms]
  by (auto simp: registry_inv_def registry_Get_def FindByBinaryPath_def)

theorem registry_reachable_witness:
  "int (map_len (rg_sessions (snd (registry_Create
     \<lparr>dr_id = ''b'', dr_sock = ''s'', dr_now = 2, dr_now' = 2, dr_TempDir = ''/tmp''\<rparr> ''/bin/b'' 9
     (snd (registry_Create \<lparr>dr_id = ''a'', dr_sock = ''s'', dr_now = 1, dr_now' = 1, dr_TempDir = ''/tmp''\<rparr>
       ''/bin/a'' 9 (NewRegistry 1))))))) \<le> 1"
proof -
  let ?a = "snd (registry_Create \<lparr>dr_id = ''a'', dr_sock = ''s'', dr_now = 1, dr_now' = 1, dr_TempDir = ''/tmp''\<rparr>
       ''/bin/a'' 9 (NewRegistry 1))"
  have "registry_reach 1 ?a" by (rule reach_Create [OF reach_New]) (simp add: NewRegistry_def)
  moreover have "rg_sessions ?a ''b'' = None"
    by (simp add: registry_Create_cases registry_insert_def NewRegistry_def)
  ultimately show ?thesis
    using registry_reachable [OF reach_Create [of 1 ?a
      "\<lparr>dr_id = ''b'', dr_sock = ''s'', dr_now = 2, dr_now' = 2, dr_TempDir = ''/tmp''\<rparr>" "''/bin/b''" 9]] by simp
qed

text \<open>A created session is found by its id and by any spelling of its path until it is
  deleted, then by neither, and creating and deleting it leaves every session with another id
  and path as it was.\<close>

theorem registry_create_delete:
  assumes "registry_inv r" and "one_per_binary r" and "rg_sessions r (dr_id d) = None"
    and "rg_binaryIndex r (Clean path) = None"
    and "registry_Create d path timeout r = (Ret ref, r')"
  shows "registry_Get r' (dr_id d) = Some ref \<and> FindByBinaryPath r' path = Some ref \<and>
     se_Timeout (rg_heap r' ref) = timeout \<and> \<not> HasInFlight (rg_heap r' ref) \<and>
     registry_Get (registry_Delete (dr_id d) r') (dr_id d) = None \<and>
     FindByBinaryPath (registry_Delete (dr_id d) r') path = None \<and>
     rg_sessions (registry_Delete (dr_id d) r') = rg_sessions r \<and>
     rg_binaryIndex (registry_Delete (dr_id d) r') = rg_binaryIndex r \<and>
     (\<forall>ref' \<in> registered r. rg_heap (registry_Delete (dr_id d) r') ref' = rg_heap r ref')"
proof -
  have lt: "ref' \<noteq> rg_next r" if "ref' \<in> registered r" for ref'
    using that registry_invD [OF assms(1)] by (auto simp: registered_def ran_def)
  have r': "ref = rg_next r" "r' = snd (registry_insert
        \<lparr>se_ID = dr_id d, se_BinaryPath = Clean path, se_CreatedAt = dr_now d,
         se_LastActivity = dr_now' d, se_Timeout = timeout, se_SocketPath = socket_path d,
         se_WorkerPID = 0, se_inFlight = 0, se_analysisActive = False\<rparr> r)"
    using assms(5) by (auto simp: registry_Create_cases split: if_splits)
  show ?thesis
    using assms(3,4) lt
    by (auto simp: r' registry_insert_def registry_Get_def FindByBinaryPath_def registry_Delete_def
      HasInFlight_def fun_upd_idem)
qed

theorem registry_create_delete_witness:
  "registry_Get (registry_Delete ''a'' (snd (registry_Create
     \<lparr>dr_id = ''a'', dr_sock = ''s'', dr_now = 1, dr_now' = 1, dr_TempDir = ''/tmp''\<rparr> ''/bin/../a'' 9
     (NewRegistry 3)))) ''a'' = None"
  using registry_create_delete [of "NewRegistry 3"
      "\<lparr>dr_id = ''a'', dr_sock = ''s'', dr_now = 1, dr_now' = 1, dr_TempDir = ''/tmp''\<rparr>" "''/bin/../a''" 9 0]
    registry_inv_New [of 3]
  by (simp add: registry_Create_cases) (simp add: NewRegistry_def)

text \<open>When two sessions came to hold the same binary (two restored metadata files, or two
  opens that raced), deleting the one removes the other from the path index: it stays
  registered, but a reopen of its binary no longer finds it.\<close>

theorem registry_Delete_hides_twin:
  assumes "registry_Get r a = Some ra" and "registry_Get r b = Some rb" and "a \<noteq> b"
    and "se_BinaryPath (rg_heap r ra) = Clean path" and "se_BinaryPath (rg_heap r rb) = Clean path"
  shows "registry_Get (registry_Delete a r) b = Some rb \<and> FindByBinaryPath (registry_Delete a r) path = None"
  using assms by (simp add: registry_Get_def FindByBinaryPath_def registry_Delete_def)

theorem registry_Delete_hides_twin_witness:
  "FindByBinaryPath (registry_Delete ''a''
     (snd (registry_Restore \<lparr>dr_id = [], dr_sock = ''t'', dr_now = 1, dr_now' = 1, dr_TempDir = ''/tmp''\<rparr>
        \<lparr>md_ID = ''b'', md_BinaryPath = ''/x'', md_CreatedAt = 0, md_LastActivity = 0, md_Timeout = 9\<rparr>
     (snd (registry_Restore \<lparr>dr_id = [], dr_sock = ''s'', dr_now = 1, dr_now' = 1, dr_TempDir = ''/tmp''\<rparr>
        \<lparr>md_ID = ''a'', md_BinaryPath = ''/x'', md_CreatedAt = 0, md_LastActivity = 0, md_Timeout = 9\<rparr>
     (NewRegistry 0)))))) ''/x'' = None"
proof -
  let ?r = "snd (registry_Restore \<lparr>dr_id = [], dr_sock = ''t'', dr_now = 1, dr_now' = 1, dr_TempDir = ''/tmp''\<rparr>
        \<lparr>md_ID = ''b'', md_BinaryPath = ''/x'', md_CreatedAt = 0, md_LastActivity = 0, md_Timeout = 9\<rparr>
     (snd (registry_Restore \<lparr>dr_id = [], dr_sock = ''s'', dr_now = 1, dr_now' = 1, dr_TempDir = ''/tmp''\<rparr>
        \<lparr>md_ID = ''a'', md_BinaryPath = ''/x'', md_CreatedAt = 0, md_LastActivity = 0, md_Timeout = 9\<rparr>
     (NewRegistry 0))))"
  have "registry_Get ?r ''a'' = Some 0" "registry_Get ?r ''b'' = Some 1"
    "se_BinaryPath (rg_heap ?r 0) = Clean ''/x''" "se_BinaryPath (rg_heap ?r 1) = Clean ''/x''"
    by (simp_all add: registry_Restore_cases registry_insert_def NewRegistry_def registry_Get_def)
  then show ?thesis using registry_Delete_hides_twin [of ?r "''a''" 0 "''b''" 1 "''/x''"] by simp
qed

end
