(* ===== verification/Store.thy ===== *)
theory Store
  imports Registry
begin

text \<open>
  Session metadata on disk (internal/session/store.go): NewStore, Save (a temporary file, then
  a rename), Delete and Load over a model of one directory. The JSON text of a metadata record
  and its reading are arguments (\<open>encode\<close>, \<open>decode\<close>), as is the outcome of each system call.
  The lemmas show that what was saved is what a restarted server loads and restores.
\<close>

section \<open>The store directory\<close>

datatype dirent = File string | Subdir

type_synonym store_dir = "string \<rightharpoonup> dirent"

text \<open>os.WriteFile succeeds, or fails after it left some bytes; the other calls succeed or fail.\<close>

datatype write_outcome = Written | WriteFailed "string option" gerr

record store_io =
  io_write :: write_outcome
  io_rename :: "gerr option"
  io_remove :: "gerr option"
  io_readdir :: "gerr option"
  io_read :: "string \<Rightarrow> gerr option"

definition io_ok :: store_io where
  "io_ok = \<lparr>io_write = Written, io_rename = None, io_remove = None, io_readdir = None, io_read = (\<lambda>_. None)\<rparr>"

definition NewStore :: "gerr option \<Rightarrow> unit go" where
  "NewStore mkdir = (case mkdir of None \<Rightarrow> Ret () | Some e \<Rightarrow> Err (Ctx ''create session store dir'' e))"

definition store_WriteFile :: "write_outcome \<Rightarrow> string \<Rightarrow> string \<Rightarrow> (store_dir, unit) step" where
  "store_WriteFile w path data d =
     (case w of
        Written \<Rightarrow> (Ret (), d(path \<mapsto> File data))
      | WriteFailed None e \<Rightarrow> (Err e, d)
      | WriteFailed (Some part) e \<Rightarrow> (Err e, d(path \<mapsto> File part)))"

definition store_Rename :: "gerr option \<Rightarrow> string \<Rightarrow> string \<Rightarrow> (store_dir, unit) step" where
  "store_Rename r tmp target d =
     (case r of
        Some e \<Rightarrow> (Err e, d)
      | None \<Rightarrow> (Ret (), (d(target := d tmp))(tmp := None)))"

definition store_Save :: "(Metadata \<Rightarrow> string go) \<Rightarrow> store_io \<Rightarrow> session \<Rightarrow> (store_dir, unit) step" where
  "store_Save encode io sess d =
     (case encode (session_Metadata sess) of
        Err e \<Rightarrow> (Err e, d)
      | Panic p \<Rightarrow> (Panic p, d)
      | Ret data \<Rightarrow>
          let tmp = se_ID sess @ ''.json.tmp'';
              target = se_ID sess @ ''.json''
          in and_then (store_WriteFile (io_write io) tmp data)
               (\<lambda>_. store_Rename (io_rename io) tmp target) d)"

text \<open>Removing a missing file is not an error.\<close>

definition store_Delete :: "store_io \<Rightarrow> string \<Rightarrow> (store_dir, unit) step" where
  "store_Delete io sessionID d =
     (let path = sessionID @ ''.json''
      in if d path = None then (Ret (), d)
         else case io_remove io of
                Some e \<Rightarrow> (Err e, d)
              | None \<Rightarrow> (Ret (), d(path := None)))"

text \<open>\<open>names\<close> is what os.ReadDir lists: the names of the directory in alphabetical order.\<close>

fun store_Load_entries ::
  "(string \<Rightarrow> Metadata option) \<Rightarrow> store_io \<Rightarrow> store_dir \<Rightarrow> string list \<Rightarrow> Metadata list \<Rightarrow> Metadata list go" where
  "store_Load_entries decode io d [] metas = Ret metas"
| "store_Load_entries decode io d (name # names) metas =
     (case d name of
        Some (File data) \<Rightarrow>
          (case io_read io name of
             Some e \<Rightarrow> Err e
           | None \<Rightarrow>
               (case decode data of
                  None \<Rightarrow> Err (Ctx (''decode '' @ name) (Msg ''json''))
                | Some meta \<Rightarrow> store_Load_entries decode io d names (metas @ [meta])))
      | Some Subdir \<Rightarrow> store_Load_entries decode io d names metas
      | None \<Rightarrow> Err (Msg ''no such file''))"

definition store_Load ::
  "(string \<Rightarrow> Metadata option) \<Rightarrow> store_io \<Rightarrow> string list \<Rightarrow> store_dir \<Rightarrow> Metadata list go" where
  "store_Load decode io names d =
     (case io_readdir io of Some e \<Rightarrow> Err e | None \<Rightarrow> store_Load_entries decode io d names [])"

section \<open>What the store holds\<close>

text \<open>A directory written by completed saves: each file is the metadata of the session its name
  gives.\<close>

definition saved :: "(Metadata \<Rightarrow> string go) \<Rightarrow> store_dir \<Rightarrow> (string \<rightharpoonup> Metadata) \<Rightarrow> bool" where
  "saved encode d live \<longleftrightarrow>
     (\<forall>name. d name = (if suffix ''.json'' name
        then (case live (take (length name - 5) name) of
                Some m \<Rightarrow> (case encode m of Ret data \<Rightarrow> Some (File data) | _ \<Rightarrow> None) | None \<Rightarrow> None)
        else None)) \<and>
     (\<forall>sid m. live sid = Some m \<longrightarrow> md_ID m = sid \<and> (\<exists>data. encode m = Ret data))"

lemma json_name [simp]: "suffix ''.json'' (sid @ ''.json'')" "\<not> suffix ''.json'' (sid @ ''.json.tmp'')"
  by (auto simp: suffix_def)

lemma json_nameE:
  assumes "suffix ''.json'' name"
  shows "name = take (length name - 5) name @ ''.json''"
  using assms by (auto simp: suffix_def)

lemma saved_dom:
  assumes "saved encode d live" and "name \<in> dom d"
  shows "suffix ''.json'' name \<and> live (take (length name - 5) name) \<noteq> None"
proof -
  have "d name = (if suffix ''.json'' name
        then (case live (take (length name - 5) name) of
                Some m \<Rightarrow> (case encode m of Ret data \<Rightarrow> Some (File data) | _ \<Rightarrow> None) | None \<Rightarrow> None)
        else None)"
    using assms(1) by (simp add: saved_def)
  then show ?thesis using assms(2) by (auto split: if_splits option.splits)
qed

lemma saved_file:
  "saved encode d live \<Longrightarrow> d (sid @ ''.json'') =
     (case live sid of Some m \<Rightarrow> (case encode m of Ret data \<Rightarrow> Some (File data) | _ \<Rightarrow> None) | None \<Rightarrow> None)"
  by (simp add: saved_def)

lemma saved_Save:
  assumes "saved encode d live" and "encode (session_Metadata s) = Ret data"
  shows "fst (store_Save encode io_ok s d) = Ret ()"
    and "saved encode (snd (store_Save encode io_ok s d)) (live(se_ID s \<mapsto> session_Metadata s))"
proof -
  let ?tmp = "se_ID s @ ''.json.tmp''" and ?target = "se_ID s @ ''.json''"
  have tmp: "d ?tmp = None" using assms(1) by (simp add: saved_def)
  have eq: "store_Save encode io_ok s d = (Ret (), (d(?tmp \<mapsto> File data, ?target \<mapsto> File data))(?tmp := None))"
    using assms(2) by (simp add: store_Save_def store_WriteFile_def store_Rename_def io_ok_def Let_def and_then_def)
  then show "fst (store_Save encode io_ok s d) = Ret ()" by simp
  have d': "snd (store_Save encode io_ok s d) = d(?target \<mapsto> File data)"
    using tmp by (simp add: eq fun_upd_twist fun_upd_idem)
  have "take (length name - 5) name = se_ID s \<longleftrightarrow> name = ?target" if "suffix ''.json'' name" for name
    using json_nameE [OF that] by (metis append_same_eq)
  then show "saved encode (snd (store_Save encode io_ok s d)) (live(se_ID s \<mapsto> session_Metadata s))"
    using assms unfolding d' saved_def by (auto simp: session_Metadata_def)
qed

lemma saved_Delete:
  assumes "saved encode d live"
  shows "fst (store_Delete io_ok sid d) = Ret ()"
    and "saved encode (snd (store_Delete io_ok sid d)) (live(sid := None))"
proof -
  let ?target = "sid @ ''.json''"
  show "fst (store_Delete io_ok sid d) = Ret ()" by (simp add: store_Delete_def io_ok_def Let_def)
  have d': "snd (store_Delete io_ok sid d) = d(?target := None)"
    by (auto simp: store_Delete_def io_ok_def Let_def)
  have "take (length name - 5) name = sid \<longleftrightarrow> name = ?target" if "suffix ''.json'' name" for name
    using json_nameE [OF that] by (metis append_same_eq)
  then show "saved encode (snd (store_Delete io_ok sid d)) (live(sid := None))"
    using assms unfolding d' saved_def by auto
qed

lemma store_Load_entries_saved:
  assumes "saved encode d live" and "\<And>m data. m \<in> ran live \<Longrightarrow> encode m = Ret data \<Longrightarrow> decode data = Some m"
  shows "set names \<subseteq> dom d \<Longrightarrow>
     store_Load_entries decode io_ok d names metas =
       Ret (metas @ map (\<lambda>name. the (live (take (length name - 5) name))) names)"
proof (induction names arbitrary: metas)
  case (Cons name names)
  then have "name \<in> dom d" by simp
  then have "suffix ''.json'' name" and n: "d name = (case live (take (length name - 5) name) of
      Some m \<Rightarrow> (case encode m of Ret data \<Rightarrow> Some (File data) | _ \<Rightarrow> None) | None \<Rightarrow> None)"
    using assms(1) by (auto simp: saved_def split: if_splits)
  then obtain m data where m: "live (take (length name - 5) name) = Some m" "encode m = Ret data" "d name = Some (File data)"
    using \<open>name \<in> dom d\<close> by (auto split: option.splits go.splits)
  then have "decode data = Some m" using assms(2) by (auto simp: ran_def)
  then show ?case using m Cons by (simp add: io_ok_def)
qed simp

lemma store_Load_saved:
  assumes "saved encode d live" and "\<And>m data. m \<in> ran live \<Longrightarrow> encode m = Ret data \<Longrightarrow> decode data = Some m"
    and "is_order names d"
  shows "\<exists>metas. store_Load decode io_ok names d = Ret metas \<and> set metas = ran live \<and> distinct (map md_ID metas)"
proof -
  let ?sid = "\<lambda>name. take (length name - 5) name"
  have names: "set names = dom d" "distinct names" using assms(3) by (auto simp: is_order_def)
  have d: "suffix ''.json'' name \<and> live (?sid name) \<noteq> None" if "name \<in> dom d" for name
    using that saved_dom [OF assms(1)] by blast
  have inj: "inj_on ?sid (dom d)" by (intro inj_onI) (metis d json_nameE)
  have load: "store_Load decode io_ok names d = Ret (map (\<lambda>name. the (live (?sid name))) names)"
    using store_Load_entries_saved [OF assms(1), of decode names "[]"] assms(2) names
    by (simp add: store_Load_def) (simp add: io_ok_def)
  have ids: "map md_ID (map (\<lambda>name. the (live (?sid name))) names) = map ?sid names"
    using d names assms(1) by (force simp: saved_def)
  have "\<exists>name \<in> dom d. live (?sid name) = Some m" if sid: "live sid = Some m" for sid m
  proof
    show "live (?sid (sid @ ''.json'')) = Some m" using sid by simp
    have "\<exists>data. encode m = Ret data" using assms(1) sid unfolding saved_def by blast
    then show "sid @ ''.json'' \<in> dom d" using saved_file [OF assms(1), of sid] sid by auto
  qed
  then have "ran live \<subseteq> set (map (\<lambda>name. the (live (?sid name))) names)"
    using names by (force simp: ran_def)
  moreover have "set (map (\<lambda>name. the (live (?sid name))) names) \<subseteq> ran live"
  proof
    fix m assume "m \<in> set (map (\<lambda>name. the (live (?sid name))) names)"
    then obtain name where "name \<in> dom d" "m = the (live (?sid name))" using names(1) by auto
    then have "live (?sid name) = Some m" using d by fastforce
    then show "m \<in> ran live" by (rule ranI)
  qed
  moreover have "distinct (map md_ID (map (\<lambda>name. the (live (?sid name))) names))"
    unfolding ids using inj names by (simp add: distinct_map)
  ultimately show ?thesis using load by blast
qed

section \<open>Properties\<close>

text \<open>A sequence of completed saves and deletes, and what it should leave.\<close>

datatype store_op = OpSave session | OpDelete string

definition store_apply :: "(Metadata \<Rightarrow> string go) \<Rightarrow> store_dir \<Rightarrow> store_op \<Rightarrow> store_dir" where
  "store_apply encode d op =
     (case op of
        OpSave s \<Rightarrow> snd (store_Save encode io_ok s d)
      | OpDelete sid \<Rightarrow> snd (store_Delete io_ok sid d))"

definition live_apply :: "(string \<rightharpoonup> Metadata) \<Rightarrow> store_op \<Rightarrow> (string \<rightharpoonup> Metadata)" where
  "live_apply live op =
     (case op of
        OpSave s \<Rightarrow> live(se_ID s \<mapsto> session_Metadata s)
      | OpDelete sid \<Rightarrow> live(sid := None))"

lemma store_run_saved:
  "saved encode d live \<Longrightarrow> \<forall>s. OpSave s \<in> set ops \<longrightarrow> (\<exists>data. encode (session_Metadata s) = Ret data) \<Longrightarrow>
   saved encode (foldl (store_apply encode) d ops) (foldl live_apply live ops)"
proof (induction ops arbitrary: d live)
  case (Cons op ops)
  have "saved encode (store_apply encode d op) (live_apply live op)"
  proof (cases op)
    case (OpSave s)
    then obtain data where "encode (session_Metadata s) = Ret data" using Cons.prems(2) by auto
    with OpSave show ?thesis
      using saved_Save(2) [OF Cons.prems(1)] by (simp add: store_apply_def live_apply_def)
  next
    case (OpDelete sid)
    then show ?thesis using saved_Delete(2) [OF Cons.prems(1)] by (simp add: store_apply_def live_apply_def)
  qed
  then show ?case using Cons by simp
qed simp

lemma ran_live_run:
  "ran (foldl live_apply live ops) \<subseteq> ran live \<union> {session_Metadata s |s. OpSave s \<in> set ops}"
proof (induction ops arbitrary: live)
  case (Cons op ops)
  have "ran (live_apply live op) \<subseteq> ran live \<union> {session_Metadata s |s. op = OpSave s}"
    by (cases op) (auto simp: live_apply_def ran_def split: if_splits)
  then show ?case using Cons.IH [of "live_apply live op"] by auto
qed simp

lemma stored_sessions:
  assumes "\<And>s. OpSave s \<in> set ops \<Longrightarrow>
      \<exists>data. encode (session_Metadata s) = Ret data \<and> decode data = Some (session_Metadata s)"
    and "is_order names (foldl (store_apply encode) Map.empty ops)"
  shows "\<exists>metas. store_Load decode io_ok names (foldl (store_apply encode) Map.empty ops) = Ret metas \<and>
     set metas = ran (foldl live_apply Map.empty ops) \<and> distinct (map md_ID metas)"
proof (rule store_Load_saved)
  have "saved encode Map.empty Map.empty" by (simp add: saved_def)
  then show "saved encode (foldl (store_apply encode) Map.empty ops) (foldl live_apply Map.empty ops)"
    by (rule store_run_saved) (use assms(1) in blast)
  show "decode data = Some m" if "m \<in> ran (foldl live_apply Map.empty ops)" "encode m = Ret data" for m data
  proof -
    have "m \<in> {session_Metadata s |s. OpSave s \<in> set ops}"
      using that(1) ran_live_run [of Map.empty ops] by auto
    then obtain s where "m = session_Metadata s" "OpSave s \<in> set ops" by blast
    then show ?thesis using assms(1) [of s] that(2) by auto
  qed
qed (rule assms(2))

text \<open>C5: after any sequence of saves and deletes that completed, Load returns exactly the last
  metadata saved for each session that was not deleted since, each once, whatever the order
  of the directory. The JSON coding is assumed to be inverted on the metadata saved.\<close>

theorem store_load_returns_saved:
  assumes "\<And>s. OpSave s \<in> set ops \<Longrightarrow>
      \<exists>data. encode (session_Metadata s) = Ret data \<and> decode data = Some (session_Metadata s)"
    and "is_order names (foldl (store_apply encode) Map.empty ops)"
  shows "\<exists>metas. store_Load decode io_ok names (foldl (store_apply encode) Map.empty ops) = Ret metas \<and>
     set metas = ran (foldl live_apply Map.empty ops) \<and> distinct (map md_ID metas)"
  by (rule stored_sessions) (use assms in auto)

definition enc_id :: "Metadata \<Rightarrow> string go" where
  "enc_id m = Ret (md_ID m)"

theorem store_load_returns_saved_witness:
  "\<exists>metas. store_Load (\<lambda>data. Some (session_Metadata (no_session\<lparr>se_ID := data\<rparr>))) io_ok [''a.json'']
      (foldl (store_apply enc_id) Map.empty
        [OpSave (no_session\<lparr>se_ID := ''a''\<rparr>), OpSave (no_session\<lparr>se_ID := ''b''\<rparr>), OpDelete ''b'']) = Ret metas \<and>
     set metas = {session_Metadata (no_session\<lparr>se_ID := ''a''\<rparr>)}"
proof -
  let ?ops = "[OpSave (no_session\<lparr>se_ID := ''a''\<rparr>), OpSave (no_session\<lparr>se_ID := ''b''\<rparr>), OpDelete ''b'']"
  have d: "foldl (store_apply enc_id) Map.empty ?ops = [''a.json'' \<mapsto> File ''a'']"
    by (rule ext) (simp add: store_apply_def store_Save_def store_Delete_def store_WriteFile_def store_Rename_def
      io_ok_def Let_def and_then_def enc_id_def session_Metadata_def)
  have "foldl live_apply Map.empty ?ops = [''a'' \<mapsto> session_Metadata (no_session\<lparr>se_ID := ''a''\<rparr>)]"
    by (rule ext) (simp add: live_apply_def)
  then have live: "ran (foldl live_apply Map.empty ?ops) = {session_Metadata (no_session\<lparr>se_ID := ''a''\<rparr>)}"
    by (simp only: ran_map_upd ran_empty)
  have "\<exists>data. enc_id (session_Metadata s) = Ret data \<and>
      Some (session_Metadata (no_session\<lparr>se_ID := data\<rparr>)) = Some (session_Metadata s)"
    if "OpSave s \<in> set ?ops" for s
    using that by (auto simp: enc_id_def session_Metadata_def)
  from store_load_returns_saved [of ?ops enc_id "\<lambda>data. Some (session_Metadata (no_session\<lparr>se_ID := data\<rparr>))" "[''a.json'']", OF this]
  show ?thesis unfolding d live by (simp add: is_order_def) blast
qed

text \<open>The metadata saved for a session restores it after a restart: the restored session has
  the same id, path, creation and activity times and timeout, is found by id and by path, and
  has no worker operation in flight. The paths of sessions are clean, as Create makes them.\<close>

theorem restore_recovers_session:
  assumes "encode (session_Metadata s) = Ret data" and "decode data = Some (session_Metadata s)"
    and "Clean (se_BinaryPath s) = se_BinaryPath s"
    and "rg_sessions r (se_ID s) = None"
    and "rg_maxSessions r \<le> 0 \<or> int (map_len (rg_sessions r)) < rg_maxSessions r"
  shows "\<exists>meta ref r'. store_Load decode io_ok [se_ID s @ ''.json'']
        (snd (store_Save encode io_ok s Map.empty)) = Ret [meta] \<and>
     registry_Restore dr meta r = (Ret ref, r') \<and>
     registry_Get r' (se_ID s) = Some ref \<and> FindByBinaryPath r' (se_BinaryPath s) = Some ref \<and>
     session_Metadata (rg_heap r' ref) = session_Metadata s \<and> \<not> HasInFlight (rg_heap r' ref)"
proof -
  have "store_Load decode io_ok [se_ID s @ ''.json''] (snd (store_Save encode io_ok s Map.empty)) =
      Ret [session_Metadata s]"
    using assms(1,2)
    by (simp add: store_Load_def store_Save_def store_WriteFile_def store_Rename_def io_ok_def Let_def and_then_def)
  moreover have "md_ID (session_Metadata s) = se_ID s" "md_BinaryPath (session_Metadata s) = se_BinaryPath s"
    by (simp_all add: session_Metadata_def)
  ultimately show ?thesis
    using assms(3-5)
    by (auto simp: registry_Restore_cases registry_insert_def registry_Get_def FindByBinaryPath_def HasInFlight_def)
       (auto simp: session_Metadata_def)
qed

theorem restore_recovers_session_witness:
  "\<exists>ref r'. registry_Restore \<lparr>dr_id = [], dr_sock = ''t'', dr_now = 1, dr_now' = 1, dr_TempDir = ''/tmp''\<rparr>
      (session_Metadata (no_session\<lparr>se_ID := ''a'', se_BinaryPath := ''/x''\<rparr>)) (NewRegistry 1) = (Ret ref, r') \<and>
     FindByBinaryPath r' ''/x'' = Some ref"
proof -
  let ?s = "no_session\<lparr>se_ID := ''a'', se_BinaryPath := ''/x''\<rparr>"
  have clean: "Clean ''/x'' = ''/x''" by code_simp
  have "store_Load (\<lambda>_. Some (session_Metadata ?s)) io_ok [''a.json'']
        (snd (store_Save enc_id io_ok ?s Map.empty)) = Ret [session_Metadata ?s]"
    by (simp add: store_Load_def store_Save_def enc_id_def store_WriteFile_def store_Rename_def io_ok_def Let_def
      and_then_def session_Metadata_def no_session_def)
  then show ?thesis
    using restore_recovers_session [of enc_id ?s "''a''" "\<lambda>_. Some (session_Metadata ?s)" "NewRegistry 1"
      "\<lparr>dr_id = [], dr_sock = ''t'', dr_now = 1, dr_now' = 1, dr_TempDir = ''/tmp''\<rparr>"] clean
    by (auto simp: enc_id_def session_Metadata_def no_session_def NewRegistry_def)
qed

text \<open>C34: a crash between the write of the temporary file and the rename is not harmless. Load
  reads every file of the directory, so a temporary file with incomplete text makes Load fail
  and no session is restored at all, although all complete files are intact.\<close>

theorem leftover_tmp_blocks_load:
  assumes "saved encode d live" and "\<And>m data. encode m = Ret data \<Longrightarrow> decode data = Some m"
    and "decode part = None"
    and "is_order names (d(sid @ ''.json.tmp'' \<mapsto> File part))"
  shows "\<exists>e. store_Load decode io_ok names (d(sid @ ''.json.tmp'' \<mapsto> File part)) = Err e"
proof -
  let ?tmp = "sid @ ''.json.tmp''" and ?d = "d(sid @ ''.json.tmp'' \<mapsto> File part)"
  have "set ns \<subseteq> dom ?d \<Longrightarrow> ?tmp \<in> set ns \<Longrightarrow> \<exists>e. store_Load_entries decode io_ok ?d ns metas = Err e" for ns metas
  proof (induction ns arbitrary: metas)
    case (Cons n ns)
    show ?case
    proof (cases "n = ?tmp")
      case True
      then show ?thesis using assms(3) by (simp add: io_ok_def)
    next
      case False
      then have n: "n \<in> dom d" and tmp: "?tmp \<in> set ns" using Cons.prems by auto
      then obtain m where "live (take (length n - 5) n) = Some m" using saved_dom [OF assms(1)] by blast
      moreover have "suffix ''.json'' n" using saved_dom [OF assms(1) n] by simp
      ultimately have "d n = (case encode m of Ret data \<Rightarrow> Some (File data) | _ \<Rightarrow> None)"
        using saved_file [OF assms(1)] json_nameE by (metis option.simps(5))
      then obtain data where data: "encode m = Ret data" "d n = Some (File data)"
        using n by (auto split: go.splits)
      have "\<exists>e. store_Load_entries decode io_ok ?d ns (metas @ [m]) = Err e"
        using Cons.IH [OF subset_trans [OF set_subset_Cons Cons.prems(1)] tmp] .
      moreover have "io_read io_ok n = None" "?d n = Some (File data)" "decode data = Some m"
        using data False assms(2) by (simp_all add: io_ok_def)
      ultimately show ?thesis by (simp del: fun_upd_apply)
    qed
  qed simp
  moreover have "set names = dom ?d" using assms(4) by (simp add: is_order_def)
  ultimately show ?thesis by (simp add: store_Load_def io_ok_def)
qed

theorem leftover_tmp_blocks_load_witness:
  "\<exists>e. store_Load (\<lambda>data. if data = ''{'' then None else Some (session_Metadata no_session)) io_ok
     [''a.json.tmp''] [''a.json.tmp'' \<mapsto> File ''{''] = Err e"
  using leftover_tmp_blocks_load [of "\<lambda>_. Err (Msg [])" Map.empty Map.empty
      "\<lambda>data. if data = ''{'' then None else Some (session_Metadata no_session)" "''{''" "[''a.json.tmp'']" "''a''"]
  by (simp add: saved_def is_order_def)

end
