(* ===== verification/Worker.thy ===== *)
theory Worker
  imports Registry
begin

text \<open>
  The worker manager and the launcher (internal/worker/manager.go, launcher_direct.go,
  launcher_wait.go): Start, Stop, GetClient and the monitor goroutine over a map from session
  ids to worker clients, and the polling loops that wait for a worker to become ready. Clients
  are pointers, so the map holds references. Outcomes of system calls, the clock readings and
  the probes are arguments. The locale \<open>controller\<close> is Go's Controller interface with the
  contract the server relies on; the manager provides it.
\<close>

section \<open>manager.go\<close>

text \<open>A LaunchResult; Stop and Wait are function values, here whether they are present.\<close>

record LaunchResult =
  lr_PID :: int
  lr_BaseURL :: string
  lr_Stop :: bool
  lr_Wait :: bool

record WorkerClient =
  wc_BaseURL :: string
  wc_stop :: bool
  wc_wait :: bool
  wc_done :: bool
  wc_session :: string
  wc_binaryPath :: string

record Manager =
  mg_sessions :: "string \<rightharpoonup> nat"
  mg_clients :: "nat \<Rightarrow> WorkerClient"
  mg_next :: nat
  mg_monitors :: "(string \<times> nat) list"

definition no_client :: WorkerClient where
  "no_client = \<lparr>wc_BaseURL = [], wc_stop = False, wc_wait = False, wc_done = False,
                wc_session = [], wc_binaryPath = []\<rparr>"

definition NewManager :: Manager where
  "NewManager = \<lparr>mg_sessions = Map.empty, mg_clients = (\<lambda>_. no_client), mg_next = 0, mg_monitors = []\<rparr>"

definition newWorkerClient :: "string \<Rightarrow> string \<Rightarrow> LaunchResult \<Rightarrow> WorkerClient" where
  "newWorkerClient sid binaryPath result =
     \<lparr>wc_BaseURL = lr_BaseURL result, wc_stop = lr_Stop result, wc_wait = lr_Wait result,
      wc_done = False, wc_session = sid, wc_binaryPath = binaryPath\<rparr>"

text \<open>Start is given what the launcher returned. It writes the PID into the session object and
  registers the client; a client that can be waited for gets a monitor goroutine.\<close>

definition manager_Start :: "LaunchResult go \<Rightarrow> string \<Rightarrow> (Manager \<times> session, unit) step" where
  "manager_Start launched binaryPath =
     (\<lambda>(m, sess).
       case launched of
         Err e \<Rightarrow> (Err e, m, sess)
       | Panic p \<Rightarrow> (Panic p, m, sess)
       | Ret result \<Rightarrow>
           let sess = sess\<lparr>se_WorkerPID := lr_PID result\<rparr>;
               worker = newWorkerClient (se_ID sess) binaryPath result;
               ref = mg_next m;
               m = m\<lparr>mg_sessions := (mg_sessions m)(se_ID sess \<mapsto> ref),
                     mg_clients := (mg_clients m)(ref := worker), mg_next := Suc ref\<rparr>;
               m = (if wc_wait worker then m\<lparr>mg_monitors := (se_ID sess, ref) # mg_monitors m\<rparr> else m)
           in (Ret (), m, sess))"

text \<open>A monitor goroutine after its worker exited: it deletes the entry of its session id, then
  (deferred) closes \<open>done\<close>.\<close>

definition monitorWorker :: "string \<Rightarrow> nat \<Rightarrow> Manager \<Rightarrow> Manager" where
  "monitorWorker sessionID worker m =
     m\<lparr>mg_sessions := (mg_sessions m)(sessionID := None),
       mg_clients := (mg_clients m)(worker := (mg_clients m worker)\<lparr>wc_done := True\<rparr>),
       mg_monitors := remove1 (sessionID, worker) (mg_monitors m)\<rparr>"

definition manager_GetClient :: "string \<Rightarrow> Manager \<Rightarrow> nat go" where
  "manager_GetClient sessionID m =
     (case mg_sessions m sessionID of
        None \<Rightarrow> Err (Msg (''no worker for session '' @ sessionID))
      | Some worker \<Rightarrow> Ret worker)"

text \<open>What Stop meets outside: the outcome of the stop function and whether the worker exits
  within the five seconds, that is, whether its monitor runs before the select gives up.\<close>

record stop_io =
  st_error :: "gerr option"
  st_exits :: bool

definition stopWorker :: "stop_io \<Rightarrow> string \<Rightarrow> nat \<Rightarrow> (Manager, unit) step" where
  "stopWorker io sessionID worker m =
     (if \<not> wc_stop (mg_clients m worker) then (Ret (), m)
      else case st_error io of
             Some e \<Rightarrow> (Err (Ctx ''failed to stop worker'' e), m)
           | None \<Rightarrow>
               if \<not> wc_wait (mg_clients m worker) then (Ret (), m)
               else if st_exits io then (Ret (), monitorWorker sessionID worker m)
               else (Ret (), m))"

definition manager_Stop :: "stop_io \<Rightarrow> string \<Rightarrow> (Manager, unit) step" where
  "manager_Stop io sessionID m =
     (case manager_GetClient sessionID m of
        Err e \<Rightarrow> (Err e, m)
      | Panic p \<Rightarrow> (Panic p, m)
      | Ret worker \<Rightarrow>
          and_then (stopWorker io sessionID worker)
            (\<lambda>_. upd (\<lambda>m. m\<lparr>mg_sessions := (mg_sessions m)(sessionID := None)\<rparr>)) m)"

section \<open>launcher_wait.go, launcher_direct.go\<close>

text \<open>One turn of a polling loop: the clock read by the loop condition, and what the probes of
  the body answered. A loop that outlives its observations has not returned (\<open>None\<close>).\<close>

fun waitForPortFile :: "string \<Rightarrow> int \<Rightarrow> (int \<times> int option) list \<Rightarrow> unit go option" where
  "waitForPortFile path deadline [] = None"
| "waitForPortFile path deadline ((now, sz) # rest) =
     (if now < deadline then
        (case sz of
           Some n \<Rightarrow> if n > 0 then Some (Ret ()) else waitForPortFile path deadline rest
         | None \<Rightarrow> waitForPortFile path deadline rest)
      else Some (Err (Msg (''timeout waiting for port file '' @ path))))"

fun waitForTCP :: "string \<Rightarrow> int \<Rightarrow> (int \<times> bool) list \<Rightarrow> unit go option" where
  "waitForTCP addr deadline [] = None"
| "waitForTCP addr deadline ((now, dial) # rest) =
     (if now < deadline then
        (if dial then Some (Ret ()) else waitForTCP addr deadline rest)
      else Some (Err (Msg (''timeout waiting for TCP '' @ addr))))"

fun waitForSocket :: "string \<Rightarrow> int \<Rightarrow> (int \<times> bool \<times> bool) list \<Rightarrow> unit go option" where
  "waitForSocket socketPath deadline [] = None"
| "waitForSocket socketPath deadline ((now, stat, dial) # rest) =
     (if now < deadline then
        (if stat then
           (if dial then Some (Ret ()) else waitForSocket socketPath deadline rest)
         else waitForSocket socketPath deadline rest)
      else Some (Err (Msg (''timeout waiting for socket '' @ socketPath))))"

definition second :: int where
  "second = 1000000000"

record readyEndpoint =
  re_baseURL :: string

text \<open>What the readiness checks observe: the clock when each deadline is set and the probes.\<close>

record ready_io =
  ri_start :: int
  ri_socket :: "(int \<times> bool \<times> bool) list"
  ri_portfile :: "(int \<times> int option) list"
  ri_readfile :: "string go"
  ri_start' :: int
  ri_tcp :: "(int \<times> bool) list"

definition waitForTCPReady :: "string \<Rightarrow> ready_io \<Rightarrow> readyEndpoint go option" where
  "waitForTCPReady portFile io =
     (case waitForPortFile portFile (ri_start io + 30 * second) (ri_portfile io) of
        None \<Rightarrow> None
      | Some (Err e) \<Rightarrow> Some (Err (Ctx ''worker TCP not ready'' e))
      | Some (Panic p) \<Rightarrow> Some (Panic p)
      | Some (Ret u) \<Rightarrow>
          (case ri_readfile io of
             Err e \<Rightarrow> Some (Err e)
           | Panic p \<Rightarrow> Some (Panic p)
           | Ret portBytes \<Rightarrow>
               let addr = ''127.0.0.1:'' @ portBytes
               in case waitForTCP addr (ri_start' io + 10 * second) (ri_tcp io) of
                    None \<Rightarrow> None
                  | Some (Err e) \<Rightarrow> Some (Err (Ctx ''worker TCP not connectable'' e))
                  | Some (Panic p) \<Rightarrow> Some (Panic p)
                  | Some (Ret u) \<Rightarrow> Some (Ret \<lparr>re_baseURL = ''http://'' @ addr\<rparr>)))"

definition waitForReadyEndpoint :: "string \<Rightarrow> session \<Rightarrow> string \<Rightarrow> ready_io \<Rightarrow> readyEndpoint go option" where
  "waitForReadyEndpoint GOOS sess portFile io =
     (if GOOS = ''windows'' then waitForTCPReady portFile io
      else
        case waitForSocket (se_SocketPath sess) (ri_start io + 10 * second) (ri_socket io) of
          None \<Rightarrow> None
        | Some (Err e) \<Rightarrow> Some (Err (Ctx ''worker socket not ready'' e))
        | Some (Panic p) \<Rightarrow> Some (Panic p)
        | Some (Ret u) \<Rightarrow> Some (Ret \<lparr>re_baseURL = ''http://unix''\<rparr>))"

text \<open>The command line, and the path of the port file.\<close>

definition buildPythonCommand ::
  "string \<Rightarrow> gerr option \<Rightarrow> string \<Rightarrow> session \<Rightarrow> string \<Rightarrow> (string list \<times> string) go" where
  "buildPythonCommand GOOS rm_err script sess binaryPath =
     (if GOOS = ''windows'' then
        let portFile = se_SocketPath sess @ ''.port''
        in Ret ([''python'', script, ''--port'', ''0'', ''--port-file'', portFile, ''--binary'', binaryPath,
                 ''--session-id'', se_ID sess], portFile)
      else case rm_err of
             Some e \<Rightarrow> Err (Ctx ''failed to remove old socket'' e)
           | None \<Rightarrow> Ret ([''python3'', script, ''--socket'', se_SocketPath sess, ''--binary'', binaryPath,
                           ''--session-id'', se_ID sess], []))"

text \<open>The processes of the host that were started and not killed. Kill reports an error unless
  the process is already done, which stopDirectWorker ignores.\<close>

datatype kill_outcome = Killed | ProcessDone | KillFailed gerr

definition stopDirectWorker :: "kill_outcome \<Rightarrow> int \<Rightarrow> int set \<Rightarrow> gerr option \<times> int set" where
  "stopDirectWorker kill pid procs =
     (case kill of
        Killed \<Rightarrow> (None, procs - {pid})
      | ProcessDone \<Rightarrow> (None, procs - {pid})
      | KillFailed e \<Rightarrow> (Some e, procs))"

record launch_io =
  li_GOOS :: string
  li_removeAll :: "gerr option"
  li_start :: "int go"
  li_ready :: ready_io
  li_kill :: kill_outcome

definition startPythonWorker ::
  "launch_io \<Rightarrow> string \<Rightarrow> session \<Rightarrow> string \<Rightarrow> int set \<Rightarrow> ((int \<times> readyEndpoint) go \<times> int set) option" where
  "startPythonWorker io script sess binaryPath procs =
     (case buildPythonCommand (li_GOOS io) (li_removeAll io) script sess binaryPath of
        Err e \<Rightarrow> Some (Err e, procs)
      | Panic p \<Rightarrow> Some (Panic p, procs)
      | Ret (cmd, portFile) \<Rightarrow>
          (case li_start io of
             Err e \<Rightarrow> Some (Err (Ctx ''failed to start worker'' e), procs)
           | Panic p \<Rightarrow> Some (Panic p, procs)
           | Ret pid \<Rightarrow>
               let procs = insert pid procs
               in case waitForReadyEndpoint (li_GOOS io) sess portFile (li_ready io) of
                    None \<Rightarrow> None
                  | Some (Err e) \<Rightarrow> Some (Err e, snd (stopDirectWorker (li_kill io) pid procs))
                  | Some (Panic p) \<Rightarrow> Some (Panic p, procs)
                  | Some (Ret ready) \<Rightarrow> Some (Ret (pid, ready), procs)))"

definition newDirectLauncher ::
  "launch_io \<Rightarrow> string \<Rightarrow> session \<Rightarrow> string \<Rightarrow> int set \<Rightarrow> (LaunchResult go \<times> int set) option" where
  "newDirectLauncher io script sess binaryPath procs =
     (case startPythonWorker io script sess binaryPath procs of
        None \<Rightarrow> None
      | Some (Err e, procs) \<Rightarrow> Some (Err e, procs)
      | Some (Panic p, procs) \<Rightarrow> Some (Panic p, procs)
      | Some (Ret (pid, ready), procs) \<Rightarrow>
          Some (Ret \<lparr>lr_PID = pid, lr_BaseURL = re_baseURL ready, lr_Stop = True, lr_Wait = True\<rparr>, procs))"

section \<open>The contract of a Controller\<close>

text \<open>Go's Controller interface: a started session has a client until it is stopped, and the
  calls for one session do not touch the client of another.\<close>

locale controller =
  fixes start :: "'w \<Rightarrow> 'sid \<Rightarrow> 'm \<Rightarrow> 'm"
    and stop :: "'sid \<Rightarrow> 'm \<Rightarrow> 'm"
    and client :: "'sid \<Rightarrow> 'm \<Rightarrow> 'c option"
    and mk :: "'sid \<Rightarrow> 'w \<Rightarrow> 'm \<Rightarrow> 'c"
  assumes client_start: "client sid (start w sid m) = Some (mk sid w m)"
    and client_start_other: "sid \<noteq> sid' \<Longrightarrow> client sid (start w sid' m) = client sid m"
    and client_stop: "client sid (stop sid m) = None"
    and client_stop_other: "sid \<noteq> sid' \<Longrightarrow> client sid (stop sid' m) = client sid m"
begin

text \<open>A schedule of starts and stops, the last event first.\<close>

fun schedule :: "('sid \<times> 'w option) list \<Rightarrow> 'm \<Rightarrow> 'm" where
  "schedule [] m = m"
| "schedule ((sid, Some w) # es) m = start w sid (schedule es m)"
| "schedule ((sid, None) # es) m = stop sid (schedule es m)"

lemma client_schedule:
  "(client sid (schedule es m) = None) =
     (case map_of es sid of None \<Rightarrow> client sid m = None | Some ev \<Rightarrow> ev = None)"
proof (induction es m rule: schedule.induct)
  case (2 sid' w es m)
  then show ?case by (cases "sid = sid'") (simp_all add: client_start client_start_other)
next
  case (3 sid' es m)
  then show ?case by (cases "sid = sid'") (simp_all add: client_stop client_stop_other)
qed simp

end

text \<open>The manager with a launcher that succeeds and workers that can be stopped.\<close>

definition start_worker :: "LaunchResult \<Rightarrow> string \<Rightarrow> Manager \<Rightarrow> Manager" where
  "start_worker result sid m =
     fst (snd (manager_Start (Ret result) [] (m, no_session\<lparr>se_ID := sid\<rparr>)))"

definition stop_worker :: "string \<Rightarrow> Manager \<Rightarrow> Manager" where
  "stop_worker sid m = snd (manager_Stop \<lparr>st_error = None, st_exits = True\<rparr> sid m)"

definition client_of :: "string \<Rightarrow> Manager \<Rightarrow> nat option" where
  "client_of sid m = (case manager_GetClient sid m of Ret w \<Rightarrow> Some w | _ \<Rightarrow> None)"

lemma client_of_sessions: "client_of sid m = mg_sessions m sid"
  by (simp add: client_of_def manager_GetClient_def split: option.splits)

lemma stop_worker_sessions: "mg_sessions (stop_worker sid m) = (mg_sessions m)(sid := None)"
  by (auto simp: stop_worker_def manager_Stop_def manager_GetClient_def stopWorker_def monitorWorker_def
    and_then_def split: option.splits)

interpretation workers: controller start_worker stop_worker client_of "\<lambda>sid w m. mg_next m"
  by unfold_locales
     (simp_all add: client_of_sessions stop_worker_sessions start_worker_def manager_Start_def Let_def
       newWorkerClient_def)

section \<open>The polling loops end\<close>

text \<open>Each turn sleeps 100 ms or blocks longer in a dial: the clock readings of turn \<open>i\<close> is at least
  \<open>i\<close> tenths of a second after the start.\<close>

definition ticking :: "int \<Rightarrow> int list \<Rightarrow> bool" where
  "ticking start nows \<longleftrightarrow> (\<forall>i < length nows. start + 100000000 * int i \<le> nows ! i)"

lemma ticking_late:
  "ticking start nows \<Longrightarrow> deadline \<le> start + 100000000 * int n \<Longrightarrow> n < length nows \<Longrightarrow>
   \<exists>now \<in> set nows. deadline \<le> now"
  unfolding ticking_def by (intro bexI [of _ "nows ! n"]) force+

lemma waitForSocket_returns:
  "\<exists>now \<in> set (map fst turns). deadline \<le> now \<Longrightarrow> \<exists>r. waitForSocket path deadline turns = Some r"
  by (induction path deadline turns rule: waitForSocket.induct) auto

lemma waitForPortFile_returns:
  "\<exists>now \<in> set (map fst turns). deadline \<le> now \<Longrightarrow> \<exists>r. waitForPortFile path deadline turns = Some r"
  by (induction path deadline turns rule: waitForPortFile.induct) (auto split: option.splits)

lemma waitForTCP_returns:
  "\<exists>now \<in> set (map fst turns). deadline \<le> now \<Longrightarrow> \<exists>r. waitForTCP addr deadline turns = Some r"
  by (induction addr deadline turns rule: waitForTCP.induct) auto

lemma socket_no_panic: "waitForSocket path deadline turns \<noteq> Some (Panic p)"
  by (induction path deadline turns rule: waitForSocket.induct) auto

lemma portfile_no_panic: "waitForPortFile path deadline turns \<noteq> Some (Panic p)"
  by (induction path deadline turns rule: waitForPortFile.induct) (auto split: option.splits)

lemma tcp_no_panic: "waitForTCP addr deadline turns \<noteq> Some (Panic p)"
  by (induction addr deadline turns rule: waitForTCP.induct) auto

section \<open>Properties\<close>

text \<open>C21: the manager keeps Go's Controller contract. A started session has the client of its
  own launch and carries its PID; a launch that failed changes nothing; a Stop that succeeds
  leaves the session without a client, one whose kill failed leaves the client in place; and no
  call touches the client of another session.\<close>

theorem manager_contract:
  assumes "manager_Start (Ret result) path (m, s) = (r, m', s')"
  shows "r = Ret () \<and> manager_GetClient (se_ID s) m' = Ret (mg_next m) \<and>
     mg_clients m' (mg_next m) = newWorkerClient (se_ID s) path result \<and> se_WorkerPID s' = lr_PID result \<and>
     manager_Start (Err e) path (m, s) = (Err e, m, s) \<and>
     (\<forall>sid. sid \<noteq> se_ID s \<longrightarrow> manager_GetClient sid m' = manager_GetClient sid m) \<and>
     (\<forall>io. case manager_Stop io (se_ID s) m' of
        (Ret _, m'') \<Rightarrow>
          (\<exists>err. manager_GetClient (se_ID s) m'' = Err err) \<and>
          (\<forall>sid. sid \<noteq> se_ID s \<longrightarrow> manager_GetClient sid m'' = manager_GetClient sid m')
      | (Err _, m'') \<Rightarrow> m'' = m'
      | (Panic p, _) \<Rightarrow> False)"
proof -
  have m': "r = Ret ()" "mg_sessions m' = (mg_sessions m)(se_ID s \<mapsto> mg_next m)"
      "mg_clients m' = (mg_clients m)(mg_next m := newWorkerClient (se_ID s) path result)"
      "se_WorkerPID s' = lr_PID result"
    using assms by (auto simp: manager_Start_def Let_def split: if_splits)
  show ?thesis
    by (auto simp: m' manager_GetClient_def manager_Start_def manager_Stop_def stopWorker_def monitorWorker_def
      and_then_def newWorkerClient_def split: option.splits)
qed

theorem manager_contract_witness:
  "manager_GetClient ''a'' (fst (snd (manager_Start
     (Ret \<lparr>lr_PID = 7, lr_BaseURL = ''http://unix'', lr_Stop = True, lr_Wait = True\<rparr>) ''/x''
     (NewManager, no_session\<lparr>se_ID := ''a''\<rparr>)))) = Ret 0"
proof -
  let ?l = "\<lparr>lr_PID = 7, lr_BaseURL = ''http://unix'', lr_Stop = True, lr_Wait = True\<rparr>"
  obtain r m' s' where "manager_Start (Ret ?l) ''/x'' (NewManager, no_session\<lparr>se_ID := ''a''\<rparr>) = (r, m', s')"
    by (cases "manager_Start (Ret ?l) ''/x'' (NewManager, no_session\<lparr>se_ID := ''a''\<rparr>)") auto
  from manager_contract [OF this] this show ?thesis by (simp add: NewManager_def)
qed





end
