(* ===== verification/Lru.thy ===== *)
theory Lru
  imports Prelude "HOL-Library.AList"
begin

text \<open>
  The decompilation cache (internal/server/cache.go, decompCache): a bounded LRU over a
  container/list and a map from addresses to list elements. The model keeps the element
  pointers: an element is a reference into a heap of entries, the map and the list hold
  references, so the agreement of map and list is an invariant to prove. The locale
  \<open>lru_cache\<close> is the contract the session cache relies on, stated over the recency list of
  the contents; decompCache is its interpretation.
\<close>

section \<open>cache.go: decompEntry, decompCache\<close>

record decompEntry =
  de_addr :: u64
  de_code :: string

record decompCache =
  dc_cap :: int
  dc_entries :: "u64 \<rightharpoonup> nat"
  dc_order :: "nat list"
  dc_heap :: "nat \<Rightarrow> decompEntry"
  dc_next :: nat

definition newDecompCache :: "int \<Rightarrow> decompCache" where
  "newDecompCache capacity =
     \<lparr>dc_cap = capacity, dc_entries = Map.empty, dc_order = [],
      dc_heap = (\<lambda>_. \<lparr>de_addr = 0, de_code = []\<rparr>), dc_next = 0\<rparr>"

text \<open>container/list: MoveToFront and Remove ignore an element that is not in the list.\<close>

definition MoveToFront :: "nat \<Rightarrow> nat list \<Rightarrow> nat list" where
  "MoveToFront el order = (if el \<in> set order then el # remove1 el order else order)"

definition decomp_get :: "decompCache \<Rightarrow> u64 \<Rightarrow> string option \<times> decompCache" where
  "decomp_get c addr =
     (case dc_entries c addr of
        None \<Rightarrow> (None, c)
      | Some el \<Rightarrow>
          (Some (de_code (dc_heap c el)), c\<lparr>dc_order := MoveToFront el (dc_order c)\<rparr>))"

definition decomp_evict :: "decompCache \<Rightarrow> decompCache" where
  "decomp_evict c =
     (if dc_cap c \<le> int (length (dc_order c)) then
        if dc_order c = [] then c
        else
          let oldest = last (dc_order c)
          in c\<lparr>dc_entries := (dc_entries c)(de_addr (dc_heap c oldest) := None),
               dc_order := remove1 oldest (dc_order c)\<rparr>
      else c)"

definition decomp_push :: "decompCache \<Rightarrow> u64 \<Rightarrow> string \<Rightarrow> decompCache" where
  "decomp_push c addr code =
     (let el = dc_next c
      in c\<lparr>dc_entries := (dc_entries c)(addr \<mapsto> el),
           dc_order := el # dc_order c,
           dc_heap := (dc_heap c)(el := \<lparr>de_addr = addr, de_code = code\<rparr>),
           dc_next := Suc el\<rparr>)"

definition decomp_set :: "decompCache \<Rightarrow> u64 \<Rightarrow> string \<Rightarrow> decompCache" where
  "decomp_set c addr code =
     (case dc_entries c addr of
        Some el \<Rightarrow>
          c\<lparr>dc_heap := (dc_heap c)(el := (dc_heap c el)\<lparr>de_code := code\<rparr>),
            dc_order := MoveToFront el (dc_order c)\<rparr>
      | None \<Rightarrow> decomp_push (decomp_evict c) addr code)"

definition decomp_delete :: "decompCache \<Rightarrow> u64 \<Rightarrow> decompCache" where
  "decomp_delete c addr =
     (case dc_entries c addr of
        Some el \<Rightarrow>
          c\<lparr>dc_order := remove1 el (dc_order c), dc_entries := (dc_entries c)(addr := None)\<rparr>
      | None \<Rightarrow> c)"

definition decomp_has :: "decompCache \<Rightarrow> u64 \<Rightarrow> bool" where
  "decomp_has c addr \<longleftrightarrow> dc_entries c addr \<noteq> None"

text \<open>The walk of deleteWhere saves \<open>el.Next()\<close> before it removes \<open>el\<close>, so it visits the
  elements the list had at the start, front to back.\<close>

fun deleteWhere_walk :: "(string \<Rightarrow> bool) \<Rightarrow> nat list \<Rightarrow> decompCache \<Rightarrow> int \<Rightarrow> int \<times> decompCache" where
  "deleteWhere_walk predicate [] c count = (count, c)"
| "deleteWhere_walk predicate (el # els) c count =
     (let entry = dc_heap c el
      in if predicate (de_code entry)
         then deleteWhere_walk predicate els
                (c\<lparr>dc_order := remove1 el (dc_order c),
                   dc_entries := (dc_entries c)(de_addr entry := None)\<rparr>) (count + 1)
         else deleteWhere_walk predicate els c count)"

definition decomp_deleteWhere :: "decompCache \<Rightarrow> (string \<Rightarrow> bool) \<Rightarrow> int \<times> decompCache" where
  "decomp_deleteWhere c predicate = deleteWhere_walk predicate (dc_order c) c 0"

section \<open>The recency list\<close>

text \<open>The abstraction: addresses with their code, most recently used first.\<close>

definition decomp_list :: "decompCache \<Rightarrow> (u64 \<times> string) list" where
  "decomp_list c = map (\<lambda>el. (de_addr (dc_heap c el), de_code (dc_heap c el))) (dc_order c)"

definition decomp_inv :: "decompCache \<Rightarrow> bool" where
  "decomp_inv c \<longleftrightarrow>
     distinct (dc_order c) \<and> (\<forall>el \<in> set (dc_order c). el < dc_next c) \<and>
     (\<forall>a el. dc_entries c a = Some el \<longleftrightarrow> el \<in> set (dc_order c) \<and> de_addr (dc_heap c el) = a) \<and>
     1 \<le> dc_cap c \<and> int (length (dc_order c)) \<le> dc_cap c"

text \<open>The operations of an LRU on that list: a hit moves the pair to the front, a store puts
  it there and keeps at most \<open>capacity\<close> pairs.\<close>

definition lru_touch :: "'k \<Rightarrow> ('k \<times> 'v) list \<Rightarrow> ('k \<times> 'v) list" where
  "lru_touch k xs = (case map_of xs k of None \<Rightarrow> xs | Some v \<Rightarrow> (k, v) # AList.delete k xs)"

definition lru_put :: "nat \<Rightarrow> 'k \<Rightarrow> 'v \<Rightarrow> ('k \<times> 'v) list \<Rightarrow> ('k \<times> 'v) list" where
  "lru_put n k v xs = take n ((k, v) # AList.delete k xs)"

text \<open>The keys more recent than \<open>k\<close>; a bound on their number keeps \<open>k\<close> within the limit.\<close>

definition ahead :: "'k \<Rightarrow> ('k \<times> 'v) list \<Rightarrow> 'k set" where
  "ahead k xs = fst ` set (takeWhile (\<lambda>p. fst p \<noteq> k) xs)"

lemma ahead_simps [simp]:
  "ahead k [] = {}"
  "ahead k (p # xs) = (if fst p = k then {} else insert (fst p) (ahead k xs))"
  by (auto simp: ahead_def)

lemma finite_ahead [simp]: "finite (ahead k xs)"
  by (simp add: ahead_def)

lemma ahead_subset: "ahead k xs \<subseteq> fst ` set xs"
  by (induction xs) auto

lemma ahead_not_mem: "k \<notin> ahead k xs"
  by (induction xs) auto

lemma ahead_delete: "k' \<noteq> k \<Longrightarrow> ahead k (AList.delete k' xs) \<subseteq> ahead k xs"
  by (induction xs) (auto simp: AList.delete_eq)

lemma map_of_delete_other: "k \<noteq> k' \<Longrightarrow> map_of (AList.delete k' xs) k = map_of xs k"
  by (simp add: AList.delete_conv')

lemma distinct_delete: "distinct (map fst xs) \<Longrightarrow> distinct (map fst (AList.delete k xs))"
  by (rule distinct_delete)

lemma delete_absent: "k \<notin> fst ` set xs \<Longrightarrow> AList.delete k xs = xs"
  by (induction xs) (auto simp: AList.delete_eq)

lemma keys_delete: "fst ` set (AList.delete k xs) = fst ` set xs - {k}"
  by (auto simp: AList.delete_eq)

lemma take_keeps_recent:
  "distinct (map fst xs) \<Longrightarrow> card (ahead k xs) < n \<Longrightarrow> map_of xs k = Some v \<Longrightarrow>
   map_of (take n xs) k = Some v \<and> ahead k (take n xs) = ahead k xs"
proof (induction xs arbitrary: n)
  case Nil
  then show ?case by simp
next
  case (Cons p xs)
  then obtain m where m: "n = Suc m" by (cases n) auto
  show ?case
  proof (cases "fst p = k")
    case True
    with Cons.prems m show ?thesis by (cases p) simp
  next
    case False
    moreover have "fst p \<notin> ahead k xs" using Cons.prems(1) ahead_subset [of k xs] by auto
    ultimately have "card (ahead k xs) < m" using Cons.prems(2) m by simp
    then have "map_of (take m xs) k = Some v \<and> ahead k (take m xs) = ahead k xs"
      using Cons.prems False by (intro Cons.IH) (auto split: if_splits)
    with False m show ?thesis by (cases p) auto
  qed
qed

datatype ('k, 'v) access = Read 'k | Write 'k 'v | Drop 'k

fun access_key :: "('k, 'v) access \<Rightarrow> 'k" where
  "access_key (Read k) = k"
| "access_key (Write k v) = k"
| "access_key (Drop k) = k"

locale lru_cache =
  fixes get :: "'c \<Rightarrow> 'k \<Rightarrow> 'v option \<times> 'c"
    and put :: "'c \<Rightarrow> 'k \<Rightarrow> 'v \<Rightarrow> 'c"
    and del :: "'c \<Rightarrow> 'k \<Rightarrow> 'c"
    and contents :: "'c \<Rightarrow> ('k \<times> 'v) list"
    and size_limit :: "'c \<Rightarrow> nat"
    and ok :: "'c \<Rightarrow> bool"
  assumes get_val: "ok c \<Longrightarrow> fst (get c k) = map_of (contents c) k"
    and get_contents: "ok c \<Longrightarrow> contents (snd (get c k)) = lru_touch k (contents c)"
    and put_contents: "ok c \<Longrightarrow> contents (put c k v) = lru_put (size_limit c) k v (contents c)"
    and del_contents: "ok c \<Longrightarrow> contents (del c k) = AList.delete k (contents c)"
    and ok_get: "ok c \<Longrightarrow> ok (snd (get c k))"
    and ok_put: "ok c \<Longrightarrow> ok (put c k v)"
    and ok_del: "ok c \<Longrightarrow> ok (del c k)"
    and limit_get: "ok c \<Longrightarrow> size_limit (snd (get c k)) = size_limit c"
    and limit_put: "ok c \<Longrightarrow> size_limit (put c k v) = size_limit c"
    and limit_del: "ok c \<Longrightarrow> size_limit (del c k) = size_limit c"
    and limit_pos: "ok c \<Longrightarrow> 0 < size_limit c"
    and distinct_contents: "ok c \<Longrightarrow> distinct (map fst (contents c))"
    and length_contents: "ok c \<Longrightarrow> length (contents c) \<le> size_limit c"

begin

primrec access :: "'c \<Rightarrow> ('k, 'v) access \<Rightarrow> 'c" where
  "access c (Read k) = snd (get c k)"
| "access c (Write k v) = put c k v"
| "access c (Drop k) = del c k"

lemma ok_access: "ok c \<Longrightarrow> ok (access c a)"
  by (cases a) (auto simp: ok_get ok_put ok_del)

lemma limit_access: "ok c \<Longrightarrow> size_limit (access c a) = size_limit c"
  by (cases a) (auto simp: limit_get limit_put limit_del)

lemma get_put_same: "ok c \<Longrightarrow> fst (get (put c k v) k) = Some v"
  using limit_pos [of c]
  by (simp add: get_val ok_put put_contents lru_put_def take_Cons split: nat.splits)

lemma get_put_other:
  assumes "ok c" and "k \<noteq> k'"
  shows "fst (get (put c k' v) k) = fst (get c k) \<or> fst (get (put c k' v) k) = None"
proof -
  let ?xs = "(k', v) # AList.delete k' (contents c)"
  have "map_of (take n ?xs) k = map_of ?xs k \<or> map_of (take n ?xs) k = None" for n
  proof (cases "map_of (take n ?xs) k")
    case (Some w)
    then have "map_of (take n ?xs @ drop n ?xs) k = Some w"
      by (subst map_of_append) simp
    with Some show ?thesis by (simp only: append_take_drop_id simp_thms)
  qed simp
  moreover have "map_of ?xs k = map_of (contents c) k"
    using assms by (simp add: map_of_delete_other)
  ultimately show ?thesis
    using assms by (simp add: get_val ok_put put_contents lru_put_def)
qed

lemma get_del_same: "ok c \<Longrightarrow> fst (get (del c k) k) = None"
  by (simp add: get_val ok_del del_contents AList.delete_conv')

lemma get_del_other: "ok c \<Longrightarrow> k \<noteq> k' \<Longrightarrow> fst (get (del c k') k) = fst (get c k)"
  by (simp add: get_val ok_del del_contents map_of_delete_other)

text \<open>An entry is still served after any accesses that write or drop other keys only, as long
  as they touch fewer other keys than the cache holds.\<close>

definition recent :: "'k \<Rightarrow> 'v \<Rightarrow> 'k set \<Rightarrow> 'c \<Rightarrow> bool" where
  "recent k v T c \<longleftrightarrow> map_of (contents c) k = Some v \<and> ahead k (contents c) \<subseteq> T"

lemma recent_put: "ok c \<Longrightarrow> recent k v {} (put c k v)"
  using limit_pos [of c]
  by (simp add: recent_def put_contents lru_put_def take_Cons split: nat.splits)

lemma recent_access:
  assumes ok: "ok c" and rec: "recent k v T c" and T: "finite T" "card T < size_limit c"
    and a: "access_key a \<in> insert k T" "\<And>w. a \<noteq> Write k w" "a \<noteq> Drop k"
  shows "recent k v T (access c a)"
proof (cases a)
  case (Read k')
  show ?thesis
  proof (cases "k' = k")
    case True
    with Read rec show ?thesis
      by (simp add: recent_def get_contents ok lru_touch_def)
  next
    case False
    then have "k' \<in> T" using a Read by simp
    with Read rec False ahead_delete [of k' k "contents c"] show ?thesis
      by (auto simp: recent_def get_contents ok lru_touch_def map_of_delete_other
               split: option.splits)
  qed
next
  case (Write k' w)
  then have k': "k' \<noteq> k" "k' \<in> T" using a by auto
  let ?xs = "(k', w) # AList.delete k' (contents c)"
  have sub: "ahead k ?xs \<subseteq> T"
    using k' rec ahead_delete [of k' k "contents c"] by (auto simp: recent_def)
  then have "card (ahead k ?xs) < size_limit c"
    using T by (meson card_mono order.strict_trans1)
  moreover have "distinct (map fst ?xs)"
    using distinct_contents [OF ok] by (auto simp: distinct_delete keys_delete)
  moreover have "map_of ?xs k = Some v"
    using rec k' by (simp add: recent_def map_of_delete_other)
  ultimately have "map_of (take (size_limit c) ?xs) k = Some v \<and>
      ahead k (take (size_limit c) ?xs) = ahead k ?xs"
    by (intro take_keeps_recent)
  with sub show ?thesis by (simp add: recent_def Write put_contents ok lru_put_def)
next
  case (Drop k')
  then have "k' \<noteq> k" using a by auto
  with Drop rec ahead_delete [of k' k "contents c"] show ?thesis
    by (auto simp: recent_def del_contents ok map_of_delete_other)
qed

lemma recent_accesses:
  assumes "finite T"
  shows "ok c \<Longrightarrow> recent k v T c \<Longrightarrow> card T < size_limit c \<Longrightarrow>
    \<forall>a \<in> set as. access_key a \<in> insert k T \<and> (\<forall>w. a \<noteq> Write k w) \<and> a \<noteq> Drop k \<Longrightarrow>
    recent k v T (foldl access c as) \<and> ok (foldl access c as)"
  using assms
  by (induction as arbitrary: c) (auto simp: recent_access ok_access limit_access)

lemma retained:
  assumes ok: "ok c"
    and few: "card (access_key ` set as - {k}) < size_limit c"
    and others: "\<forall>a \<in> set as. (\<forall>w. a \<noteq> Write k w) \<and> a \<noteq> Drop k"
  shows "fst (get (foldl access (put c k v) as) k) = Some v"
proof -
  let ?T = "access_key ` set as - {k}"
  have "recent k v ?T (put c k v)" using recent_put [OF ok] by (simp add: recent_def)
  then have "recent k v ?T (foldl access (put c k v) as) \<and> ok (foldl access (put c k v) as)"
    using ok few others by (intro recent_accesses) (auto simp: ok_put limit_put)
  then show ?thesis by (simp add: recent_def get_val)
qed

end

section \<open>decompCache is an LRU cache\<close>

definition decomp_limit :: "decompCache \<Rightarrow> nat" where
  "decomp_limit c = nat (dc_cap c)"

lemma decomp_inv_new: "1 \<le> capacity \<Longrightarrow> decomp_inv (newDecompCache capacity)"
  by (simp add: decomp_inv_def newDecompCache_def)

lemma decomp_inv_entry:
  "decomp_inv c \<Longrightarrow> dc_entries c a = Some el \<longleftrightarrow> el \<in> set (dc_order c) \<and> de_addr (dc_heap c el) = a"
  by (simp add: decomp_inv_def)

lemma decomp_inv_unique:
  "decomp_inv c \<Longrightarrow> el \<in> set (dc_order c) \<Longrightarrow> el' \<in> set (dc_order c) \<Longrightarrow>
   de_addr (dc_heap c el) = de_addr (dc_heap c el') \<Longrightarrow> el = el'"
  by (metis decomp_inv_entry option.inject)

lemma insert_remove1: "el \<in> set xs \<Longrightarrow> insert el (set (remove1 el xs)) = set xs"
  by (induction xs) auto

lemma set_MoveToFront [simp]: "set (MoveToFront el xs) = set xs"
  by (simp add: MoveToFront_def insert_remove1)

lemma distinct_MoveToFront: "distinct xs \<Longrightarrow> distinct (MoveToFront el xs)"
  by (auto simp: MoveToFront_def)

lemma length_MoveToFront [simp]: "length (MoveToFront el xs) = length xs"
  using length_pos_if_in_set [of el xs] by (auto simp: MoveToFront_def length_remove1)

lemma distinct_decomp_list: "decomp_inv c \<Longrightarrow> distinct (map fst (decomp_list c))"
  by (auto simp: decomp_list_def distinct_map comp_def decomp_inv_def inj_on_def
      intro: decomp_inv_unique [unfolded decomp_inv_def])

text \<open>Lookups agree with the recency list, and taking an element out of the list is the
  deletion of its address.\<close>

lemma map_of_decomp_list:
  assumes "decomp_inv c"
  shows "map_of (decomp_list c) a = map_option (\<lambda>el. de_code (dc_heap c el)) (dc_entries c a)"
proof (cases "dc_entries c a")
  case None
  then have "a \<notin> fst ` set (decomp_list c)"
    using decomp_inv_entry [OF assms] by (force simp: decomp_list_def)
  with None show ?thesis by (simp add: map_of_eq_None_iff)
next
  case (Some el)
  then have "(a, de_code (dc_heap c el)) \<in> set (decomp_list c)"
    using decomp_inv_entry [OF assms] by (auto simp: decomp_list_def)
  with Some show ?thesis
    using distinct_decomp_list [OF assms] by (simp add: map_of_is_SomeI)
qed

lemma map_remove1_delete:
  assumes "distinct els" and "\<forall>e \<in> set els. f e = f el \<longrightarrow> e = el"
  shows "map (\<lambda>e. (f e, g e)) (remove1 el els) = AList.delete (f el) (map (\<lambda>e. (f e, g e)) els)"
proof -
  have "filter (\<lambda>e. el \<noteq> e) els = filter (\<lambda>e. f el \<noteq> f e) els"
    using assms(2) by (intro filter_cong) auto
  then show ?thesis
    using assms(1)
    by (simp add: distinct_remove1_removeAll removeAll_filter_not_eq AList.delete_eq
                  filter_map comp_def)
qed

lemma decomp_list_remove:
  assumes "decomp_inv c" and "el \<in> set (dc_order c)"
  shows "map (\<lambda>e. (de_addr (dc_heap c e), de_code (dc_heap c e))) (remove1 el (dc_order c)) =
         AList.delete (de_addr (dc_heap c el)) (decomp_list c)"
  unfolding decomp_list_def
  using assms decomp_inv_unique [OF assms(1) _ assms(2)]
  by (intro map_remove1_delete) (auto simp: decomp_inv_def)

text \<open>Every operation keeps the agreement of map, list and heap.\<close>

lemma decomp_inv_get: "decomp_inv c \<Longrightarrow> decomp_inv (snd (decomp_get c a))"
  by (auto simp: decomp_get_def decomp_inv_def distinct_MoveToFront split: option.splits)

definition decomp_drop :: "nat \<Rightarrow> decompCache \<Rightarrow> decompCache" where
  "decomp_drop el c =
     c\<lparr>dc_order := remove1 el (dc_order c),
       dc_entries := (dc_entries c)(de_addr (dc_heap c el) := None)\<rparr>"

lemma decomp_drop_simps [simp]:
  "dc_cap (decomp_drop el c) = dc_cap c"
  "dc_heap (decomp_drop el c) = dc_heap c"
  "dc_order (decomp_drop el c) = remove1 el (dc_order c)"
  "dc_next (decomp_drop el c) = dc_next c"
  by (simp_all add: decomp_drop_def)

lemma decomp_inv_drop:
  assumes inv: "decomp_inv c" and el: "el \<in> set (dc_order c)"
  shows "decomp_inv (decomp_drop el c)"
proof -
  have d: "distinct (dc_order c)" using inv by (simp add: decomp_inv_def)
  have "length (remove1 el (dc_order c)) \<le> length (dc_order c)" by (simp add: length_remove1)
  moreover have "dc_entries (decomp_drop el c) a = Some e \<longleftrightarrow>
      e \<in> set (remove1 el (dc_order c)) \<and> de_addr (dc_heap c e) = a" for a e
    using decomp_inv_entry [OF inv, of a e] decomp_inv_unique [OF inv _ el, of e] d
    by (auto simp: decomp_drop_def)
  ultimately show ?thesis using inv d by (auto simp: decomp_inv_def)
qed

lemma decomp_list_drop:
  "decomp_inv c \<Longrightarrow> el \<in> set (dc_order c) \<Longrightarrow>
   decomp_list (decomp_drop el c) = AList.delete (de_addr (dc_heap c el)) (decomp_list c)"
  by (subst decomp_list_remove [symmetric]) (simp_all add: decomp_list_def)

lemma decomp_delete_drop:
  "decomp_inv c \<Longrightarrow>
   decomp_delete c a = (case dc_entries c a of None \<Rightarrow> c | Some el \<Rightarrow> decomp_drop el c)"
proof (cases "dc_entries c a")
  case (Some el)
  assume "decomp_inv c"
  with Some have "de_addr (dc_heap c el) = a" by (simp add: decomp_inv_entry)
  with Some show ?thesis by (simp add: decomp_delete_def decomp_drop_def)
qed (simp add: decomp_delete_def)

lemma decomp_inv_delete: "decomp_inv c \<Longrightarrow> decomp_inv (decomp_delete c a)"
  by (auto simp: decomp_delete_drop decomp_inv_entry decomp_inv_drop split: option.splits)

lemma decomp_list_delete: "decomp_inv c \<Longrightarrow> decomp_list (decomp_delete c a) = AList.delete a (decomp_list c)"
proof (cases "dc_entries c a")
  case None
  assume inv: "decomp_inv c"
  with None have "a \<notin> fst ` set (decomp_list c)"
    by (metis map_of_decomp_list map_of_eq_None_iff option.map_disc_iff)
  with None inv show ?thesis by (simp add: decomp_delete_drop delete_absent)
next
  case (Some el)
  assume inv: "decomp_inv c"
  with Some have "el \<in> set (dc_order c)" and "de_addr (dc_heap c el) = a"
    by (simp_all add: decomp_inv_entry)
  with inv Some show ?thesis by (simp add: decomp_delete_drop decomp_list_drop)
qed

lemma decomp_evict_drop:
  "decomp_inv c \<Longrightarrow>
   decomp_evict c = (if int (length (dc_order c)) = dc_cap c
                     then decomp_drop (last (dc_order c)) c else c)"
  by (auto simp: decomp_evict_def decomp_drop_def decomp_inv_def Let_def)

lemma decomp_inv_evict:
  assumes "decomp_inv c"
  shows "decomp_inv (decomp_evict c)"
    and "int (length (dc_order (decomp_evict c))) < dc_cap c"
    and "dc_cap (decomp_evict c) = dc_cap c"
proof -
  have ne: "int (length (dc_order c)) = dc_cap c \<Longrightarrow> dc_order c \<noteq> []"
    using assms by (auto simp: decomp_inv_def)
  show "decomp_inv (decomp_evict c)"
    using assms ne by (auto simp: decomp_evict_drop decomp_inv_drop)
  show "int (length (dc_order (decomp_evict c))) < dc_cap c"
    using assms ne by (auto simp: decomp_evict_drop length_remove1 decomp_inv_def)
  show "dc_cap (decomp_evict c) = dc_cap c"
    using assms by (simp add: decomp_evict_drop)
qed

lemma delete_last:
  "distinct (map fst xs) \<Longrightarrow> xs \<noteq> [] \<Longrightarrow> AList.delete (fst (last xs)) xs = butlast xs"
proof (induction xs rule: rev_induct)
  case (snoc p xs)
  have "AList.delete (fst p) xs = xs" using snoc.prems by (intro delete_absent) auto
  then show ?case by (cases p) (simp add: AList.delete_eq)
qed simp

lemma decomp_list_evict:
  assumes "decomp_inv c"
  shows "decomp_list (decomp_evict c) = take (decomp_limit c - 1) (decomp_list c)"
proof (cases "int (length (dc_order c)) = dc_cap c")
  case True
  then have ne: "dc_order c \<noteq> []" using assms by (auto simp: decomp_inv_def)
  then have "decomp_list (decomp_evict c) =
      AList.delete (fst (last (decomp_list c))) (decomp_list c)"
    using True assms by (simp add: decomp_evict_drop decomp_list_drop) (simp add: decomp_list_def last_map)
  also have "\<dots> = butlast (decomp_list c)"
    using ne distinct_decomp_list [OF assms] by (intro delete_last) (simp_all add: decomp_list_def)
  also have "\<dots> = take (decomp_limit c - 1) (decomp_list c)"
    using True by (simp add: butlast_conv_take decomp_list_def decomp_limit_def flip: True)
  finally show ?thesis .
next
  case False
  then have "length (dc_order c) \<le> nat (dc_cap c) - 1" using assms by (auto simp: decomp_inv_def)
  then show ?thesis
    using False assms by (simp add: decomp_evict_drop decomp_list_def decomp_limit_def)
qed

lemma decomp_inv_push:
  assumes inv: "decomp_inv c" and room: "int (length (dc_order c)) < dc_cap c"
    and new: "dc_entries c a = None"
  shows "decomp_inv (decomp_push c a code)"
    and "decomp_list (decomp_push c a code) = (a, code) # decomp_list c"
proof -
  have fresh: "dc_next c \<notin> set (dc_order c)" using inv by (auto simp: decomp_inv_def)
  have "de_addr (dc_heap c el) \<noteq> a" if "el \<in> set (dc_order c)" for el
    using that new decomp_inv_entry [OF inv, of a el] by auto
  with inv room fresh show "decomp_inv (decomp_push c a code)"
    unfolding decomp_inv_def decomp_push_def Let_def by (auto simp: less_Suc_eq)
  show "decomp_list (decomp_push c a code) = (a, code) # decomp_list c"
    using fresh by (auto simp: decomp_list_def decomp_push_def Let_def)
qed

lemma decomp_inv_overwrite:
  assumes inv: "decomp_inv c" and el: "dc_entries c a = Some el"
  shows "decomp_inv (decomp_set c a code)"
    and "decomp_list (decomp_set c a code) = (a, code) # AList.delete a (decomp_list c)"
proof -
  have mem: "el \<in> set (dc_order c)" and addr: "de_addr (dc_heap c el) = a"
    using decomp_inv_entry [OF inv] el by auto
  have eq: "decomp_set c a code =
      c\<lparr>dc_heap := (dc_heap c)(el := (dc_heap c el)\<lparr>de_code := code\<rparr>),
        dc_order := MoveToFront el (dc_order c)\<rparr>"
    using el by (simp add: decomp_set_def)
  show "decomp_inv (decomp_set c a code)"
    using inv unfolding eq by (auto simp: decomp_inv_def distinct_MoveToFront)
  have "el \<notin> set (remove1 el (dc_order c))" using inv by (simp add: decomp_inv_def)
  then have "map (\<lambda>e. (de_addr (dc_heap (decomp_set c a code) e), de_code (dc_heap (decomp_set c a code) e)))
        (remove1 el (dc_order c)) =
      map (\<lambda>e. (de_addr (dc_heap c e), de_code (dc_heap c e))) (remove1 el (dc_order c))"
    unfolding eq by auto
  with mem addr decomp_list_remove [OF inv mem]
  show "decomp_list (decomp_set c a code) = (a, code) # AList.delete a (decomp_list c)"
    by (simp add: decomp_list_def MoveToFront_def eq)
qed

lemma decomp_set_spec:
  assumes inv: "decomp_inv c"
  shows "decomp_inv (decomp_set c a code)"
    and "decomp_list (decomp_set c a code) = lru_put (decomp_limit c) a code (decomp_list c)"
proof -
  have len: "length (decomp_list c) \<le> decomp_limit c" and pos: "0 < decomp_limit c"
    using inv by (auto simp: decomp_list_def decomp_limit_def decomp_inv_def)
  show "decomp_inv (decomp_set c a code)"
  proof (cases "dc_entries c a")
    case (Some el)
    with inv show ?thesis by (rule decomp_inv_overwrite)
  next
    case None
    then have "dc_entries (decomp_evict c) a = None"
      using inv by (auto simp: decomp_evict_drop decomp_drop_def)
    with None decomp_inv_evict [OF inv] show ?thesis
      by (auto simp: decomp_set_def intro: decomp_inv_push)
  qed
  show "decomp_list (decomp_set c a code) = lru_put (decomp_limit c) a code (decomp_list c)"
  proof (cases "dc_entries c a")
    case (Some el)
    then have "a \<in> fst ` set (decomp_list c)"
      using inv by (metis map_of_decomp_list map_of_eq_None_iff option.discI option.map_disc_iff)
    then have "length (AList.delete a (decomp_list c)) < length (decomp_list c)"
      by (auto simp: AList.delete_eq intro: length_filter_less)
    with Some inv len show ?thesis
      by (simp add: decomp_inv_overwrite lru_put_def take_Cons' )
  next
    case None
    then have e: "dc_entries (decomp_evict c) a = None"
      using inv by (auto simp: decomp_evict_drop decomp_drop_def)
    have "a \<notin> fst ` set (decomp_list c)"
      using None inv by (metis map_of_decomp_list map_of_eq_None_iff option.map_disc_iff)
    then have "AList.delete a (decomp_list c) = decomp_list c" by (rule delete_absent)
    then show ?thesis
      using None e pos decomp_inv_evict [OF inv]
      by (simp add: decomp_set_def decomp_inv_push decomp_list_evict [OF inv] lru_put_def take_Cons')
  qed
qed

lemma decomp_get_spec:
  assumes inv: "decomp_inv c"
  shows "fst (decomp_get c a) = map_of (decomp_list c) a"
    and "decomp_list (snd (decomp_get c a)) = lru_touch a (decomp_list c)"
proof -
  show "fst (decomp_get c a) = map_of (decomp_list c) a"
    using inv by (auto simp: decomp_get_def map_of_decomp_list split: option.splits)
  show "decomp_list (snd (decomp_get c a)) = lru_touch a (decomp_list c)"
  proof (cases "dc_entries c a")
    case None
    with inv show ?thesis by (simp add: decomp_get_def lru_touch_def map_of_decomp_list)
  next
    case (Some el)
    then have mem: "el \<in> set (dc_order c)" and addr: "de_addr (dc_heap c el) = a"
      using decomp_inv_entry [OF inv] by auto
    then show ?thesis
      using Some decomp_list_remove [OF inv mem] inv
      by (simp add: decomp_get_def lru_touch_def map_of_decomp_list MoveToFront_def)
         (simp add: decomp_list_def)
  qed
qed

interpretation decomp: lru_cache decomp_get decomp_set decomp_delete decomp_list decomp_limit decomp_inv
proof unfold_locales
  fix c assume inv: "decomp_inv c"
  show "distinct (map fst (decomp_list c))" by (rule distinct_decomp_list [OF inv])
  show "length (decomp_list c) \<le> decomp_limit c" and "0 < decomp_limit c"
    using inv by (auto simp: decomp_list_def decomp_limit_def decomp_inv_def)
  fix a code
  show "decomp_limit (decomp_set c a code) = decomp_limit c"
    using decomp_inv_evict(3) [OF inv]
    by (auto simp: decomp_set_def decomp_limit_def decomp_push_def Let_def split: option.splits)
  show "decomp_limit (snd (decomp_get c a)) = decomp_limit c"
    by (auto simp: decomp_get_def decomp_limit_def split: option.splits)
  show "decomp_limit (decomp_delete c a) = decomp_limit c"
    by (auto simp: decomp_delete_def decomp_limit_def split: option.splits)
qed (simp_all add: decomp_get_spec decomp_set_spec decomp_inv_get decomp_inv_delete decomp_list_delete)

text \<open>deleteWhere removes exactly the entries whose code satisfies the predicate and reports
  their number.\<close>

lemma deleteWhere_walk_spec:
  "decomp_inv c \<Longrightarrow> distinct els \<Longrightarrow> set els \<subseteq> set (dc_order c) \<Longrightarrow>
   decomp_inv (snd (deleteWhere_walk p els c n)) \<and>
   dc_cap (snd (deleteWhere_walk p els c n)) = dc_cap c \<and>
   fst (deleteWhere_walk p els c n) = n + int (length (filter (\<lambda>el. p (de_code (dc_heap c el))) els)) \<and>
   decomp_list (snd (deleteWhere_walk p els c n)) =
     map (\<lambda>el. (de_addr (dc_heap c el), de_code (dc_heap c el)))
       (filter (\<lambda>el. \<not> (el \<in> set els \<and> p (de_code (dc_heap c el)))) (dc_order c))"
proof (induction els arbitrary: c n)
  case Nil
  then show ?case by (simp add: decomp_list_def)
next
  case (Cons el els)
  show ?case
  proof (cases "p (de_code (dc_heap c el))")
    case True
    let ?c = "decomp_drop el c"
    have inv: "decomp_inv ?c" using Cons.prems by (auto intro: decomp_inv_drop)
    have d: "distinct (dc_order c)" using Cons.prems by (simp add: decomp_inv_def)
    have "set els \<subseteq> set (dc_order ?c)" using Cons.prems d by auto
    note IH = Cons.IH [OF inv _ this, of "n + 1"]
    have "filter (\<lambda>e. \<not> (e \<in> set els \<and> p (de_code (dc_heap c e)))) (remove1 el (dc_order c)) =
          filter (\<lambda>e. \<not> (e \<in> set (el # els) \<and> p (de_code (dc_heap c e)))) (dc_order c)"
      using d True by (auto simp: distinct_remove1_removeAll removeAll_filter_not_eq intro: filter_cong)
    then show ?thesis using IH True Cons.prems
      by (simp add: Let_def decomp_drop_def)
  next
    case False
    then have "filter (\<lambda>e. \<not> (e \<in> set els \<and> p (de_code (dc_heap c e)))) (dc_order c) =
          filter (\<lambda>e. \<not> (e \<in> set (el # els) \<and> p (de_code (dc_heap c e)))) (dc_order c)"
      by (auto intro: filter_cong)
    then show ?thesis using False Cons by (simp add: Let_def)
  qed
qed

lemma decomp_deleteWhere_spec:
  assumes "decomp_inv c"
  shows "decomp_inv (snd (decomp_deleteWhere c p))"
    and "decomp_list (snd (decomp_deleteWhere c p)) = filter (\<lambda>(a, code). \<not> p code) (decomp_list c)"
    and "fst (decomp_deleteWhere c p) = int (length (filter (\<lambda>(a, code). p code) (decomp_list c)))"
    and "decomp_limit (snd (decomp_deleteWhere c p)) = decomp_limit c"
proof -
  have d: "distinct (dc_order c)" using assms by (simp add: decomp_inv_def)
  have f: "filter (\<lambda>el. \<not> (el \<in> set (dc_order c) \<and> p (de_code (dc_heap c el)))) (dc_order c) =
      filter (\<lambda>el. \<not> p (de_code (dc_heap c el))) (dc_order c)"
    by (rule filter_cong) auto
  note walk = deleteWhere_walk_spec [OF assms d order_refl, of p 0, unfolded f]
  show "decomp_inv (snd (decomp_deleteWhere c p))"
    and "decomp_limit (snd (decomp_deleteWhere c p)) = decomp_limit c"
    using walk by (simp_all add: decomp_deleteWhere_def decomp_limit_def)
  show "decomp_list (snd (decomp_deleteWhere c p)) = filter (\<lambda>(a, code). \<not> p code) (decomp_list c)"
    using walk by (simp add: decomp_deleteWhere_def decomp_list_def filter_map comp_def)
  show "fst (decomp_deleteWhere c p) = int (length (filter (\<lambda>(a, code). p code) (decomp_list c)))"
    using walk by (simp add: decomp_deleteWhere_def decomp_list_def filter_map comp_def)
qed

section \<open>Properties\<close>

text \<open>The calls the session cache makes on its decompilation cache, and the same calls on the
  recency list.\<close>

datatype decomp_op =
    DGet u64
  | DSet u64 string
  | DDelete u64
  | DDeleteWhere "string \<Rightarrow> bool"

definition decomp_apply :: "decompCache \<Rightarrow> decomp_op \<Rightarrow> decompCache" where
  "decomp_apply c op =
     (case op of
        DGet a \<Rightarrow> snd (decomp_get c a)
      | DSet a code \<Rightarrow> decomp_set c a code
      | DDelete a \<Rightarrow> decomp_delete c a
      | DDeleteWhere p \<Rightarrow> snd (decomp_deleteWhere c p))"

definition lru_apply :: "nat \<Rightarrow> (u64 \<times> string) list \<Rightarrow> decomp_op \<Rightarrow> (u64 \<times> string) list" where
  "lru_apply n xs op =
     (case op of
        DGet a \<Rightarrow> lru_touch a xs
      | DSet a code \<Rightarrow> lru_put n a code xs
      | DDelete a \<Rightarrow> AList.delete a xs
      | DDeleteWhere p \<Rightarrow> filter (\<lambda>(a, code). \<not> p code) xs)"

lemma decomp_apply_sim:
  assumes "decomp_inv c"
  shows "decomp_inv (decomp_apply c op) \<and> decomp_limit (decomp_apply c op) = decomp_limit c \<and>
         decomp_list (decomp_apply c op) = lru_apply (decomp_limit c) (decomp_list c) op"
  using assms
  by (cases op) (simp_all add: decomp_apply_def lru_apply_def decomp_deleteWhere_spec decomp.ok_get
    decomp.ok_put decomp.ok_del decomp.limit_get decomp.limit_put decomp.limit_del
    decomp.get_contents decomp.put_contents decomp.del_contents)

lemma decomp_run_sim:
  "decomp_inv c \<Longrightarrow>
   decomp_inv (foldl decomp_apply c ops) \<and> decomp_limit (foldl decomp_apply c ops) = decomp_limit c \<and>
   decomp_list (foldl decomp_apply c ops) = foldl (lru_apply (decomp_limit c)) (decomp_list c) ops"
  by (induction ops arbitrary: c) (simp_all add: decomp_apply_sim)

lemma length_decomp_list: "length (decomp_list c) = length (dc_order c)"
  by (simp add: decomp_list_def)

text \<open>C3: started empty, the pointer-based cache behaves on every sequence of get, set, delete
  and deleteWhere as the bounded recency list: same contents in the same order, the answer of
  get is the list's, and it never holds more entries than its capacity.\<close>

theorem decomp_refines_lru:
  assumes "0 < n"
  shows "let c = foldl decomp_apply (newDecompCache (int n)) ops;
             xs = foldl (lru_apply n) [] ops
         in decomp_list c = xs \<and> fst (decomp_get c a) = map_of xs a \<and> length (dc_order c) \<le> n"
proof -
  have "decomp_inv (newDecompCache (int n))" using assms by (simp add: decomp_inv_new)
  moreover have "decomp_limit (newDecompCache (int n)) = n" "decomp_list (newDecompCache (int n)) = []"
    by (simp_all add: decomp_limit_def newDecompCache_def decomp_list_def)
  ultimately show ?thesis
    using decomp_run_sim [of "newDecompCache (int n)" ops]
      decomp.length_contents [of "foldl decomp_apply (newDecompCache (int n)) ops"]
    by (simp add: decomp.get_val Let_def length_decomp_list [symmetric])
qed

theorem decomp_refines_lru_witness:
  "fst (decomp_get (foldl decomp_apply (newDecompCache 2)
     [DSet 1 ''a'', DSet 2 ''b'', DGet 1, DSet 3 ''c'']) 2) = None \<and>
   fst (decomp_get (foldl decomp_apply (newDecompCache 2)
     [DSet 1 ''a'', DSet 2 ''b'', DGet 1, DSet 3 ''c'']) 1) = Some ''a''"
  using decomp_refines_lru [of 2 "[DSet 1 ''a'', DSet 2 ''b'', DGet 1, DSet 3 ''c'']" 2]
    decomp_refines_lru [of 2 "[DSet 1 ''a'', DSet 2 ''b'', DGet 1, DSet 3 ''c'']" 1]
  by (simp add: Let_def lru_apply_def lru_put_def lru_touch_def)

definition decomp_access :: "decompCache \<Rightarrow> (u64, string) access \<Rightarrow> decompCache" where
  "decomp_access c a =
     (case a of
        Read k \<Rightarrow> snd (decomp_get c k)
      | Write k v \<Rightarrow> decomp_set c k v
      | Drop k \<Rightarrow> decomp_delete c k)"

lemma decomp_access_eq: "decomp_access = decomp.access"
  by (intro ext) (simp add: decomp_access_def split: access.splits)

text \<open>A cached function stays cached while fewer other addresses than the capacity are
  touched after it: eviction takes the least recently used entry, never a hot one.\<close>

theorem decomp_retains_hot:
  assumes "decomp_inv c" and "card (access_key ` set as - {a}) < decomp_limit c"
    and "\<forall>x \<in> set as. (\<forall>w. x \<noteq> Write a w) \<and> x \<noteq> Drop a"
  shows "fst (decomp_get (foldl decomp_access (decomp_set c a code) as) a) = Some code"
  unfolding decomp_access_eq using assms by (rule decomp.retained)

theorem decomp_retains_hot_witness:
  "fst (decomp_get (foldl decomp_access (decomp_set (newDecompCache 3) 7 ''code'')
     [Write 1 ''x'', Write 2 ''y'', Write 1 ''z'', Read 2, Drop 1]) 7) = Some ''code''"
proof (rule decomp_retains_hot)
  show "decomp_inv (newDecompCache 3)" by (simp add: decomp_inv_new)
  have "{1, 2, 1, 2, 1 :: u64} - {7} = {1, 2}" by auto
  then show "card (access_key ` set [Write 1 ''x'', Write 2 ''y'', Write 1 ''z'', Read 2, Drop 1] - {7 :: u64})
      < decomp_limit (newDecompCache 3)"
    by (simp add: decomp_limit_def newDecompCache_def insert_Diff_if)
qed simp

end
