(* ===== verification/Messages.thy ===== *)
theory Messages
  imports Complex_Main Prelude
begin

text \<open>
  What the server exchanges with a Python worker (proto/ida/worker/v1): the messages the
  handlers look at, as records, and the interface of a worker. The worker itself is a separate
  process and is an argument of the model: a record of functions over an opaque database
  \<open>'db\<close>, one per RPC, each of which answers with a transport error or a response and leaves a
  database. A response carries its \<open>error\<close> field next to its payload. A double is a rational.
\<close>

record 'a reply =
  rp_Error :: string
  rp_Msg :: 'a

type_synonym ('q, 'a, 'db) rpc = "'q \<Rightarrow> 'db \<Rightarrow> (gerr + 'a reply) \<times> 'db"

record StringItem =
  si_Address :: u64
  si_Value :: string

record Function =
  fn_Address :: u64
  fn_Name :: string

record Import =
  ip_Module :: string
  ip_Address :: u64
  ip_Name :: string
  ip_Ordinal :: u64

record Export =
  ep_Ordinal :: u64
  ep_Address :: u64
  ep_Name :: string

record Segment =
  sg_Start :: u64
  sg_End :: u64
  sg_Name :: string
  sg_SegClass :: string
  sg_Permissions :: u32
  sg_Bitness :: u32

record XRef =
  xr_From :: u64
  xr_Type :: u32
  xr_To :: u64

record FunctionInfo =
  fi_Name :: string
  fi_Start :: u64
  fi_End :: u64
  fi_Size :: u32
  fi_FrameSize :: u32
  fi_IsLibrary :: bool
  fi_IsThunk :: bool
  fi_NoReturn :: bool
  fi_CallingConvention :: string
  fi_ReturnType :: string
  fi_NumArgs :: u32

record TypeAt =
  ta_Type :: string
  ta_Size :: u32
  ta_IsPtr :: bool
  ta_IsFunc :: bool
  ta_IsArray :: bool
  ta_IsStruct :: bool
  ta_IsUnion :: bool
  ta_IsEnum :: bool
  ta_HasType :: bool

record StringXRef =
  sx_Address :: u64
  sx_FunctionAddress :: u64
  sx_FunctionName :: string

record GlobalVariable =
  gv_Address :: u64
  gv_Name :: string
  gv_Type :: string

record StructMember =
  sm_MName :: string
  sm_MOffset :: u32
  sm_MSize :: u32
  sm_MType :: string

record SessionInfo =
  nf_HasDecompiler :: bool
  nf_AutoRunning :: bool
  nf_AutoState :: string

record Il2CppStats =
  il_Success :: bool
  il_Duration :: rat
  il_FunctionsNamed :: u32
  il_StringsNamed :: u32
  il_MetadataNamed :: u32
  il_MetadataMethods :: u32
  il_FunctionsDefined :: u32
  il_SignaturesApplied :: u32

record FlutterStats =
  fl_Success :: bool
  fl_Duration :: rat
  fl_FunctionsCreated :: u32
  fl_FunctionsNamed :: u32
  fl_StructsCreated :: u32
  fl_SignaturesApplied :: u32
  fl_CommentsSet :: u32

text \<open>The session control service. The payload of a status response is its \<open>success\<close> field.\<close>

record 'db session_api =
  w_OpenBinary :: "(string \<times> bool, bool, 'db) rpc"
  w_CloseSession :: "(bool, unit, 'db) rpc"
  w_SaveDatabase :: "(unit, bool \<times> int \<times> bool, 'db) rpc"
  w_PlanAndWait :: "(unit, bool \<times> rat, 'db) rpc"
  w_GetSessionInfo :: "(unit, SessionInfo, 'db) rpc"

text \<open>The analysis service, and the two JSON endpoints of the worker, in groups.\<close>

record 'db list_api =
  w_GetStrings :: "(int \<times> int, int \<times> StringItem list, 'db) rpc"
  w_GetFunctions :: "(unit, Function list, 'db) rpc"
  w_GetImports :: "(unit, Import list, 'db) rpc"
  w_GetExports :: "(unit, Export list, 'db) rpc"
  w_GetSegments :: "(unit, Segment list, 'db) rpc"
  w_GetEntryPoint :: "(unit, u64, 'db) rpc"

record 'db func_api =
  w_GetDecompiled :: "(u64, string, 'db) rpc"
  w_GetFunctionInfo :: "(u64, FunctionInfo, 'db) rpc"
  w_GetXRefsTo :: "(u64, XRef list, 'db) rpc"
  w_GetXRefsFrom :: "(u64, XRef list, 'db) rpc"
  w_GetFuncComment :: "(u64, string, 'db) rpc"
  w_GetName :: "(u64, string, 'db) rpc"
  w_GetFunctionName :: "(u64, string, 'db) rpc"

record 'db inspect_api =
  w_GetTypeAt :: "(u64, TypeAt, 'db) rpc"
  w_GetComment :: "(u64, string, 'db) rpc"
  w_GetInstructionLength :: "(u64, u32, 'db) rpc"
  w_GetDataRefs :: "(u64, XRef list, 'db) rpc"
  w_GetStringXRefs :: "(u64, StringXRef list, 'db) rpc"
  w_GetDisasm :: "(u64, string, 'db) rpc"
  w_GetFunctionDisasm :: "(u64, string, 'db) rpc"

record 'db memory_api =
  w_DataReadString :: "(u64 \<times> u32, string, 'db) rpc"
  w_GetDwordAt :: "(u64, u32, 'db) rpc"
  w_GetQwordAt :: "(u64, u64, 'db) rpc"
  w_DataReadByte :: "(u64, u32, 'db) rpc"
  w_GetBytes :: "(u64 \<times> u32, string, 'db) rpc"
  w_FindBinary :: "(u64 \<times> u64 \<times> string \<times> bool, u64 list, 'db) rpc"
  w_FindText :: "(u64 \<times> u64 \<times> string \<times> bool \<times> bool, u64 list, 'db) rpc"

record 'db type_api =
  w_GetGlobals :: "(string \<times> bool, GlobalVariable list, 'db) rpc"
  w_GetStruct :: "(string, string \<times> u32 \<times> StructMember list, 'db) rpc"
  w_ListStructs :: "(string \<times> bool, (string \<times> u32) list, 'db) rpc"
  w_GetEnum :: "(string, string \<times> (string \<times> u64) list, 'db) rpc"
  w_ListEnums :: "(string \<times> bool, string list, 'db) rpc"

record 'db write_api =
  w_SetComment :: "(u64 \<times> string \<times> bool, bool, 'db) rpc"
  w_SetFuncComment :: "(u64 \<times> string, bool, 'db) rpc"
  w_SetDecompilerComment :: "(u64 \<times> u64 \<times> string, bool, 'db) rpc"
  w_SetName :: "(u64 \<times> string, bool, 'db) rpc"
  w_DeleteName :: "(u64, bool, 'db) rpc"
  w_SetLvarType :: "(u64 \<times> string \<times> string, bool, 'db) rpc"
  w_SetGlobalType :: "(u64 \<times> string, bool, 'db) rpc"
  w_SetFunctionType :: "(u64 \<times> string, bool, 'db) rpc"
  w_MakeFunction :: "(u64, bool, 'db) rpc"

record 'db import_api =
  w_ImportIl2Cpp :: "(string \<times> string \<times> string list, Il2CppStats, 'db) rpc"
  w_ImportFlutter :: "(string, FlutterStats, 'db) rpc"
  w_POST :: "string \<times> string \<Rightarrow> 'db \<Rightarrow> (gerr + int \<times> string go) \<times> 'db"

record 'db worker_api =
  wa_session :: "'db session_api"
  wa_list :: "'db list_api"
  wa_func :: "'db func_api"
  wa_inspect :: "'db inspect_api"
  wa_memory :: "'db memory_api"
  wa_type :: "'db type_api"
  wa_write :: "'db write_api"
  wa_import :: "'db import_api"

end
