(* ===== verification/SessionCache.thy ===== *)
theory SessionCache
  imports Lru Messages
begin

text \<open>
  The per-session cache (internal/server/cache.go): the lists loadCached fills, the
  decompilation and cross-reference caches with their invalidation, and the analysis context.
  A nil slice or map is \<open>None\<close>; a list decoded from an empty repeated field is nil in Go, so
  storing an empty list leaves the slot nil. Every method holds the mutex of the cache, so it is
  one step. The lemmas say what each method keeps.
\<close>

section \<open>Types\<close>

definition maxDecompCacheEntries :: int where
  "maxDecompCacheEntries = 200"

record xrefsEntry =
  xe_to :: "(u64 \<times> u32) list"
  xe_from :: "(u64 \<times> u32) list"

record analysisNote =
  an_Timestamp :: int
  an_Note :: string

record sessionCache =
  sc_strings :: "StringItem list option"
  sc_functions :: "Function list option"
  sc_imports :: "Import list option"
  sc_exports :: "Export list option"
  sc_segments :: "Segment list option"
  sc_decomp :: "decompCache option"
  sc_xrefs :: "(u64 \<rightharpoonup> xrefsEntry) option"
  sc_visited :: "(u64 \<rightharpoonup> analysisNote) option"

definition empty_cache :: sessionCache where
  "empty_cache =
     \<lparr>sc_strings = None, sc_functions = None, sc_imports = None, sc_exports = None,
      sc_segments = None, sc_decomp = None, sc_xrefs = None, sc_visited = None\<rparr>"

section \<open>loadCached\<close>

definition slice_value :: "'a list option \<Rightarrow> 'a list" where
  "slice_value s = (case s of None \<Rightarrow> [] | Some xs \<Rightarrow> xs)"

definition nil_if_empty :: "'a list \<Rightarrow> 'a list option" where
  "nil_if_empty xs = (if xs = [] then None else Some xs)"

text \<open>The section under the read lock, and the one under the write lock. The loader is a step over
  the state outside the cache (the worker, the progress store).\<close>

definition loadCached_read :: "'a list option \<Rightarrow> ('a list \<times> bool) option" where
  "loadCached_read slot = (case slot of Some xs \<Rightarrow> Some (xs, True) | None \<Rightarrow> None)"

definition loadCached_locked ::
  "('s, 'a list) step \<Rightarrow> 'a list option \<Rightarrow> 's \<Rightarrow> ('a list \<times> bool) go \<times> 'a list option \<times> 's" where
  "loadCached_locked loader slot s =
     (case slot of
        None \<Rightarrow>
          (case loader s of
             (Err e, s') \<Rightarrow> (Err e, slot, s')
           | (Panic p, s') \<Rightarrow> (Panic p, slot, s')
           | (Ret xs, s') \<Rightarrow>
               let slot = nil_if_empty xs in (Ret (slice_value slot, False), slot, s'))
      | Some xs \<Rightarrow> (Ret (slice_value slot, False), slot, s))"

definition loadCached ::
  "('s, 'a list) step \<Rightarrow> 'a list option \<Rightarrow> 's \<Rightarrow> ('a list \<times> bool) go \<times> 'a list option \<times> 's" where
  "loadCached loader slot s =
     (case loadCached_read slot of
        Some (xs, hit) \<Rightarrow> (Ret (xs, hit), slot, s)
      | None \<Rightarrow> loadCached_locked loader slot s)"

section \<open>Function list, decompilations, cross references\<close>

definition invalidateFunctions :: "sessionCache \<Rightarrow> sessionCache" where
  "invalidateFunctions c = c\<lparr>sc_functions := None\<rparr>"

definition getDecomp :: "u64 \<Rightarrow> sessionCache \<Rightarrow> string option \<times> sessionCache" where
  "getDecomp addr c =
     (case sc_decomp c of
        None \<Rightarrow> (None, c)
      | Some d \<Rightarrow> let (code, d) = decomp_get d addr in (code, c\<lparr>sc_decomp := Some d\<rparr>))"

definition setDecomp :: "u64 \<Rightarrow> string \<Rightarrow> sessionCache \<Rightarrow> sessionCache" where
  "setDecomp addr code c =
     (let d = (case sc_decomp c of None \<Rightarrow> newDecompCache maxDecompCacheEntries | Some d \<Rightarrow> d)
      in c\<lparr>sc_decomp := Some (decomp_set d addr code)\<rparr>)"

definition invalidateDecomp :: "u64 \<Rightarrow> sessionCache \<Rightarrow> sessionCache" where
  "invalidateDecomp addr c =
     (case sc_decomp c of None \<Rightarrow> c | Some d \<Rightarrow> c\<lparr>sc_decomp := Some (decomp_delete d addr)\<rparr>)"

definition invalidateDecompByOldName :: "string \<Rightarrow> sessionCache \<Rightarrow> int \<times> sessionCache" where
  "invalidateDecompByOldName oldName c =
     (if oldName = [] then (0, c)
      else case sc_decomp c of
             None \<Rightarrow> (0, c)
           | Some d \<Rightarrow>
               let (n, d) = decomp_deleteWhere d (\<lambda>code. contains code oldName)
               in (n, c\<lparr>sc_decomp := Some d\<rparr>))"

definition isCachedFunction :: "u64 \<Rightarrow> sessionCache \<Rightarrow> bool" where
  "isCachedFunction addr c = list_ex (\<lambda>f. fn_Address f = addr) (slice_value (sc_functions c))"

definition invalidateAllDecomp :: "sessionCache \<Rightarrow> sessionCache" where
  "invalidateAllDecomp c = c\<lparr>sc_decomp := None\<rparr>"

definition getXRefs_cached :: "u64 \<Rightarrow> sessionCache \<Rightarrow> xrefsEntry option" where
  "getXRefs_cached addr c = (case sc_xrefs c of None \<Rightarrow> None | Some m \<Rightarrow> m addr)"

definition setXRefs :: "u64 \<Rightarrow> xrefsEntry \<Rightarrow> sessionCache \<Rightarrow> sessionCache" where
  "setXRefs addr entry c =
     (let m = (case sc_xrefs c of None \<Rightarrow> Map.empty | Some m \<Rightarrow> m)
      in c\<lparr>sc_xrefs := Some (m(addr \<mapsto> entry))\<rparr>)"

definition invalidateAllXRefs :: "sessionCache \<Rightarrow> sessionCache" where
  "invalidateAllXRefs c = c\<lparr>sc_xrefs := None\<rparr>"

section \<open>Analysis context\<close>

definition visited_map :: "sessionCache \<Rightarrow> (u64 \<rightharpoonup> analysisNote)" where
  "visited_map c = (case sc_visited c of None \<Rightarrow> Map.empty | Some m \<Rightarrow> m)"

definition markVisited :: "u64 \<Rightarrow> int \<Rightarrow> string \<Rightarrow> sessionCache \<Rightarrow> sessionCache" where
  "markVisited addr ts note c =
     (let m = visited_map c
      in case m addr of
           Some existing \<Rightarrow>
             if note = []
             then c\<lparr>sc_visited := Some (m(addr \<mapsto> existing\<lparr>an_Timestamp := ts\<rparr>))\<rparr>
             else c\<lparr>sc_visited := Some (m(addr \<mapsto> \<lparr>an_Timestamp = ts, an_Note = note\<rparr>))\<rparr>
         | None \<Rightarrow> c\<lparr>sc_visited := Some (m(addr \<mapsto> \<lparr>an_Timestamp = ts, an_Note = note\<rparr>))\<rparr>)"

definition setNote :: "u64 \<Rightarrow> int \<Rightarrow> string \<Rightarrow> sessionCache \<Rightarrow> sessionCache" where
  "setNote addr ts note c =
     c\<lparr>sc_visited := Some ((visited_map c)(addr \<mapsto> \<lparr>an_Timestamp = ts, an_Note = note\<rparr>))\<rparr>"

definition getVisited :: "sessionCache \<Rightarrow> (u64 \<rightharpoonup> analysisNote)" where
  "getVisited c = visited_map c"

text \<open>\<open>order\<close> lists the visited addresses in the order the map was ranged over.\<close>

definition prune_one :: "u64 \<Rightarrow> analysisNote \<Rightarrow> int \<times> sessionCache \<Rightarrow> int \<times> sessionCache" where
  "prune_one addr note p =
     (if an_Note note = [] then p
      else
        let (count, c) = p;
            (count, c) =
              (case sc_decomp c of
                 Some d \<Rightarrow>
                   if decomp_has d addr then (count + 1, c\<lparr>sc_decomp := Some (decomp_delete d addr)\<rparr>)
                   else (count, c)
               | None \<Rightarrow> (count, c))
        in case sc_xrefs c of
             Some m \<Rightarrow>
               if m addr \<noteq> None then (count + 1, c\<lparr>sc_xrefs := Some (m(addr := None))\<rparr>)
               else (count, c)
           | None \<Rightarrow> (count, c))"

definition pruneNotedFunctions :: "u64 list \<Rightarrow> sessionCache \<Rightarrow> int \<times> sessionCache" where
  "pruneNotedFunctions order c =
     fold (\<lambda>addr p. case visited_map c addr of Some note \<Rightarrow> prune_one addr note p | None \<Rightarrow> p) order (0, c)"

section \<open>What a session cache serves\<close>

definition cache_inv :: "sessionCache \<Rightarrow> bool" where
  "cache_inv c \<longleftrightarrow> (case sc_decomp c of None \<Rightarrow> True | Some d \<Rightarrow> decomp_inv d)"

definition decomps :: "sessionCache \<Rightarrow> (u64 \<times> string) list" where
  "decomps c = (case sc_decomp c of None \<Rightarrow> [] | Some d \<Rightarrow> decomp_list d)"

lemma cache_inv_empty: "cache_inv empty_cache" "decomps empty_cache = []"
  by (simp_all add: cache_inv_def decomps_def empty_cache_def)

lemma decomps_distinct: "cache_inv c \<Longrightarrow> distinct (map fst (decomps c))"
  by (auto simp: cache_inv_def decomps_def decomp.distinct_contents split: option.splits)

lemma cache_inv_decomp: "cache_inv c \<Longrightarrow> sc_decomp c = Some d \<Longrightarrow> decomp_inv d"
  by (simp add: cache_inv_def)

lemma getDecomp_spec:
  assumes "cache_inv c"
  shows "fst (getDecomp a c) = map_of (decomps c) a" and "cache_inv (snd (getDecomp a c))"
    and "decomps (snd (getDecomp a c)) = lru_touch a (decomps c)"
proof -
  have "fst (getDecomp a c) = map_of (decomps c) a \<and> cache_inv (snd (getDecomp a c)) \<and>
      decomps (snd (getDecomp a c)) = lru_touch a (decomps c)"
  proof (cases "sc_decomp c")
    case (Some d)
    then have "decomp_inv d" using assms by (simp add: cache_inv_def)
    then show ?thesis using Some
      by (simp add: getDecomp_def decomps_def cache_inv_def case_prod_unfold
        decomp.get_val decomp.ok_get decomp.get_contents)
  qed (simp add: getDecomp_def decomps_def cache_inv_def lru_touch_def)
  then show "fst (getDecomp a c) = map_of (decomps c) a" and "cache_inv (snd (getDecomp a c))"
    and "decomps (snd (getDecomp a c)) = lru_touch a (decomps c)" by auto
qed

lemma decomp_capacity: "decomp_inv d \<Longrightarrow> decomp_inv (decomp_set d a code)"
  by (rule decomp.ok_put)

lemma set_lru_put: "set (lru_put n a v xs) \<subseteq> insert (a, v) {p \<in> set xs. fst p \<noteq> a}"
  using set_take_subset [of n "(a, v) # AList.delete a xs"] by (auto simp: lru_put_def AList.delete_eq)

lemma setDecomp_spec:
  assumes "cache_inv c"
  shows "cache_inv (setDecomp a code c)"
    and "set (decomps (setDecomp a code c)) \<subseteq> insert (a, code) {p \<in> set (decomps c). fst p \<noteq> a}"
    and "map_of (decomps (setDecomp a code c)) a = Some code"
proof -
  define d where "d = (case sc_decomp c of None \<Rightarrow> newDecompCache maxDecompCacheEntries | Some d \<Rightarrow> d)"
  have inv: "decomp_inv d"
    using assms by (auto simp: d_def cache_inv_def maxDecompCacheEntries_def intro: decomp_inv_new split: option.splits)
  have list: "decomp_list d = decomps c"
    by (simp add: d_def decomps_def newDecompCache_def decomp_list_def split: option.splits)
  have eq: "sc_decomp (setDecomp a code c) = Some (decomp_set d a code)"
    by (simp add: setDecomp_def d_def Let_def)
  show "cache_inv (setDecomp a code c)" by (simp add: cache_inv_def eq decomp_capacity inv)
  show "set (decomps (setDecomp a code c)) \<subseteq> insert (a, code) {p \<in> set (decomps c). fst p \<noteq> a}"
    using set_lru_put [of "decomp_limit d" a code "decomps c"]
    by (simp add: decomps_def eq decomp.put_contents inv list)
  show "map_of (decomps (setDecomp a code c)) a = Some code"
    using decomp.get_put_same [OF inv, of a code]
    by (simp add: decomps_def eq decomp.get_val decomp_capacity inv)
qed

lemma invalidateDecomp_spec:
  assumes "cache_inv c"
  shows "cache_inv (invalidateDecomp a c)" and "decomps (invalidateDecomp a c) = AList.delete a (decomps c)"
  using assms
  by (auto simp: invalidateDecomp_def cache_inv_def decomps_def decomp.ok_del decomp.del_contents
      split: option.splits)

lemma invalidateDecompByOldName_spec:
  assumes "cache_inv c"
  shows "cache_inv (snd (invalidateDecompByOldName old c))"
    and "decomps (snd (invalidateDecompByOldName old c)) =
      (if old = [] then decomps c else filter (\<lambda>(a, code). \<not> contains code old) (decomps c))"
  using assms decomp_deleteWhere_spec
  by (auto simp: invalidateDecompByOldName_def cache_inv_def decomps_def case_prod_unfold
      split: option.splits)

lemma invalidateAllDecomp_spec: "cache_inv (invalidateAllDecomp c)" "decomps (invalidateAllDecomp c) = []"
  by (simp_all add: invalidateAllDecomp_def cache_inv_def decomps_def)

lemma other_ops_decomps [simp]:
  "decomps (invalidateFunctions c) = decomps c" "cache_inv (invalidateFunctions c) = cache_inv c"
  "decomps (setXRefs a e c) = decomps c" "cache_inv (setXRefs a e c) = cache_inv c"
  "decomps (invalidateAllXRefs c) = decomps c" "cache_inv (invalidateAllXRefs c) = cache_inv c"
  "decomps (markVisited a t n c) = decomps c" "cache_inv (markVisited a t n c) = cache_inv c"
  "decomps (setNote a t n c) = decomps c" "cache_inv (setNote a t n c) = cache_inv c"
  by (auto simp: decomps_def cache_inv_def invalidateFunctions_def setXRefs_def invalidateAllXRefs_def
      markVisited_def setNote_def Let_def split: option.splits)

section \<open>pruneNotedFunctions\<close>

definition noted :: "sessionCache \<Rightarrow> u64 set" where
  "noted c = {a. \<exists>n. visited_map c a = Some n \<and> an_Note n \<noteq> []}"

lemma decomp_has_list: "decomp_inv d \<Longrightarrow> decomp_has d a \<longleftrightarrow> a \<in> fst ` set (decomp_list d)"
proof -
  assume "decomp_inv d"
  then have eq: "map_of (decomp_list d) a = fst (decomp_get d a)" by (simp add: decomp.get_val)
  have "dc_entries d a = None \<longleftrightarrow> map_of (decomp_list d) a = None"
    unfolding eq by (simp add: decomp_get_def split: option.split)
  then show ?thesis by (simp add: decomp_has_def map_of_eq_None_iff)
qed

lemma AList_delete_filter: "AList.delete a xs = filter (\<lambda>p. fst p \<noteq> a) xs"
  by (induction xs) (auto simp: AList.delete_eq)

text \<open>One turn of the loop on a noted address removes it from both caches.\<close>

lemma prune_one_spec:
  assumes "cache_inv c" and "an_Note note \<noteq> []"
  shows "let (n', c') = prune_one a note (n, c)
    in cache_inv c' \<and> decomps c' = filter (\<lambda>p. fst p \<noteq> a) (decomps c) \<and>
       sc_xrefs c' = map_option (\<lambda>m. m(a := None)) (sc_xrefs c) \<and> visited_map c' = visited_map c \<and>
       n' = n + of_bool (a \<in> fst ` set (decomps c)) + of_bool (getXRefs_cached a c \<noteq> None)"
proof -
  define p where "p = (case sc_decomp c of
      Some d \<Rightarrow> if decomp_has d a then (n + 1, c\<lparr>sc_decomp := Some (decomp_delete d a)\<rparr>) else (n, c)
    | None \<Rightarrow> (n, c))"
  have p: "cache_inv (snd p) \<and> decomps (snd p) = filter (\<lambda>p. fst p \<noteq> a) (decomps c) \<and>
      sc_xrefs (snd p) = sc_xrefs c \<and> visited_map (snd p) = visited_map c \<and>
      fst p = n + of_bool (a \<in> fst ` set (decomps c))"
  proof (cases "sc_decomp c")
    case None
    then show ?thesis using assms(1) by (simp add: p_def decomps_def)
  next
    case (Some d)
    then have inv: "decomp_inv d" using assms(1) by (simp add: cache_inv_def)
    have "filter (\<lambda>p. fst p \<noteq> a) (decomp_list d) = decomp_list d" if "a \<notin> fst ` set (decomp_list d)"
      using that by (simp add: filter_id_conv) blast
    then show ?thesis
      using Some inv assms(1)
      by (auto simp: p_def decomp_has_list cache_inv_def decomps_def decomp.ok_del decomp.del_contents
        visited_map_def AList_delete_filter)
  qed
  obtain n1 c1 where p1: "p = (n1, c1)" by (cases p)
  have one: "prune_one a note (n, c) = (case sc_xrefs c1 of
      Some m \<Rightarrow> if m a \<noteq> None then (n1 + 1, c1\<lparr>sc_xrefs := Some (m(a := None))\<rparr>) else (n1, c1)
    | None \<Rightarrow> (n1, c1))"
    using assms(2) p1 by (simp add: prune_one_def p_def)
  show ?thesis
  proof (cases "sc_xrefs c")
    case None
    then show ?thesis using p p1 one by (simp add: getXRefs_cached_def)
  next
    case (Some m)
    have "cache_inv (c1\<lparr>sc_xrefs := x\<rparr>) = cache_inv c1" "decomps (c1\<lparr>sc_xrefs := x\<rparr>) = decomps c1"
      "visited_map (c1\<lparr>sc_xrefs := x\<rparr>) = visited_map c1" for x
      by (simp_all add: cache_inv_def decomps_def visited_map_def)
    moreover have "m(a := None) = m" if "m a = None" using that by (simp add: fun_upd_idem)
    ultimately show ?thesis using Some p p1 one by (auto simp: getXRefs_cached_def)
  qed
qed

text \<open>The loop over any order of the addresses.\<close>

lemma prune_fold_spec:
  "distinct xs \<Longrightarrow> cache_inv c \<Longrightarrow> visited_map c = V \<Longrightarrow>
   let (n', c') = fold (\<lambda>addr p. case V addr of Some note \<Rightarrow> prune_one addr note p | None \<Rightarrow> p) xs (n, c)
   in cache_inv c' \<and> decomps c' = filter (\<lambda>p. fst p \<notin> set xs \<inter> noted c) (decomps c) \<and>
      sc_xrefs c' = map_option (\<lambda>m. m |` (- (set xs \<inter> noted c))) (sc_xrefs c) \<and> visited_map c' = V \<and>
      n' = n + int (card {a \<in> set xs \<inter> noted c. a \<in> fst ` set (decomps c)}) +
               int (card {a \<in> set xs \<inter> noted c. getXRefs_cached a c \<noteq> None})"
proof (induction xs arbitrary: n c)
  case Nil
  have "map_option (\<lambda>m. m) (sc_xrefs c) = sc_xrefs c" by (simp add: option.map_ident)
  with Nil show ?case by simp
next
  case (Cons a xs)
  show ?case
  proof (cases "\<exists>note. V a = Some note \<and> an_Note note \<noteq> []")
    case False
    have "(case V a of Some note \<Rightarrow> prune_one a note (n, c) | None \<Rightarrow> (n, c)) = (n, c)"
      using False by (auto simp: prune_one_def split: option.splits)
    moreover have "a \<notin> noted c" using False Cons.prems(3) by (simp add: noted_def)
    then have "set (a # xs) \<inter> noted c = set xs \<inter> noted c" by auto
    ultimately show ?thesis using Cons by simp
  next
    case True
    then obtain nt where nt: "V a = Some nt" "an_Note nt \<noteq> []" by blast
    obtain n1 c1 where one: "prune_one a nt (n, c) = (n1, c1)" by force
    have s1: "cache_inv c1" "decomps c1 = filter (\<lambda>p. fst p \<noteq> a) (decomps c)"
      "sc_xrefs c1 = map_option (\<lambda>m. m(a := None)) (sc_xrefs c)" "visited_map c1 = V"
      "n1 = n + of_bool (a \<in> fst ` set (decomps c)) + of_bool (getXRefs_cached a c \<noteq> None)"
      using prune_one_spec [OF Cons.prems(2) nt(2), of a n] one Cons.prems(3) by simp_all
    have a: "a \<in> noted c" "a \<notin> set xs" "distinct xs" using nt Cons.prems by (auto simp: noted_def)
    have noted: "noted c1 = noted c" using s1(4) Cons.prems(3) by (simp add: noted_def)
    obtain n2 c2 where two: "fold (\<lambda>addr p. case V addr of Some note \<Rightarrow> prune_one addr note p | None \<Rightarrow> p) xs (n1, c1) = (n2, c2)"
      by force
    note IH = Cons.IH [OF a(3) s1(1,4), of n1, unfolded two noted]
    have ins: "set (a # xs) \<inter> noted c = insert a (set xs \<inter> noted c)" using a by auto
    have c1: "{b \<in> set xs \<inter> noted c. b \<in> fst ` set (decomps c1)} = {b \<in> set xs \<inter> noted c. b \<in> fst ` set (decomps c)}"
      using a(2) by (force simp: s1(2))
    have c2: "{b \<in> set xs \<inter> noted c. getXRefs_cached b c1 \<noteq> None} = {b \<in> set xs \<inter> noted c. getXRefs_cached b c \<noteq> None}"
      using a(2) by (auto simp: s1(3) getXRefs_cached_def split: option.splits if_splits)
    have card: "card {b \<in> insert a (set xs \<inter> noted c). P b} = of_bool (P a) + card {b \<in> set xs \<inter> noted c. P b}" for P
    proof -
      have "{b \<in> insert a (set xs \<inter> noted c). P b} =
          (if P a then insert a {b \<in> set xs \<inter> noted c. P b} else {b \<in> set xs \<inter> noted c. P b})" by auto
      then show ?thesis using a(2) by simp
    qed
    have fold: "fold (\<lambda>addr p. case V addr of Some note \<Rightarrow> prune_one addr note p | None \<Rightarrow> p) (a # xs) (n, c) = (n2, c2)"
      using nt one two by simp
    have "decomps c2 = filter (\<lambda>p. fst p \<notin> insert a (set xs \<inter> noted c)) (decomps c)"
      using IH by (simp add: s1(2) conj_commute)
    moreover have "sc_xrefs c2 = map_option (\<lambda>m. m |` (- insert a (set xs \<inter> noted c))) (sc_xrefs c)"
      using IH by (cases "sc_xrefs c") (auto simp: s1(3) restrict_map_def)
    ultimately show ?thesis
      unfolding fold ins card using IH s1(5) c1 c2 by (simp add: Let_def)
  qed
qed

lemma pruneNotedFunctions_spec:
  assumes "is_order order (visited_map c)" and "cache_inv c"
  shows "cache_inv (snd (pruneNotedFunctions order c))"
    and "decomps (snd (pruneNotedFunctions order c)) = filter (\<lambda>p. fst p \<notin> noted c) (decomps c)"
    and "getXRefs_cached a (snd (pruneNotedFunctions order c)) =
      (if a \<in> noted c then None else getXRefs_cached a c)"
    and "visited_map (snd (pruneNotedFunctions order c)) = visited_map c"
    and "fst (pruneNotedFunctions order c) =
      int (card {a \<in> noted c. a \<in> fst ` set (decomps c)}) + int (card {a \<in> noted c. getXRefs_cached a c \<noteq> None})"
proof -
  have "noted c \<subseteq> set order" using assms(1) by (auto simp: is_order_def noted_def)
  then have i: "set order \<inter> noted c = noted c" by blast
  have d: "distinct order" using assms(1) by (simp add: is_order_def)
  obtain n' c' where r: "pruneNotedFunctions order c = (n', c')" by force
  note s = prune_fold_spec [OF d assms(2) refl, of 0, folded pruneNotedFunctions_def, unfolded r i, simplified]
  show "cache_inv (snd (pruneNotedFunctions order c))"
    and "decomps (snd (pruneNotedFunctions order c)) = filter (\<lambda>p. fst p \<notin> noted c) (decomps c)"
    and "visited_map (snd (pruneNotedFunctions order c)) = visited_map c"
    and "fst (pruneNotedFunctions order c) =
      int (card {a \<in> noted c. a \<in> fst ` set (decomps c)}) + int (card {a \<in> noted c. getXRefs_cached a c \<noteq> None})"
    using s r by simp_all
  show "getXRefs_cached a (snd (pruneNotedFunctions order c)) =
      (if a \<in> noted c then None else getXRefs_cached a c)"
    using s r by (auto simp: getXRefs_cached_def restrict_map_def split: option.splits)
qed

section \<open>Properties\<close>

text \<open>Callers that found the slot empty queue at the write lock, each with a loader of its own.\<close>

fun lock_queue ::
  "('s, 'a list) step list \<Rightarrow> 'a list option \<Rightarrow> 's \<Rightarrow> ('a list \<times> bool) go list \<times> 'a list option \<times> 's" where
  "lock_queue [] slot s = ([], slot, s)"
| "lock_queue (loader # loaders) slot s =
     (let (r, slot, s) = loadCached_locked loader slot s;
          (rs, slot, s) = lock_queue loaders slot s
      in (r # rs, slot, s))"

lemma lock_queue_full:
  "xs \<noteq> [] \<Longrightarrow> lock_queue loaders (Some xs) s = (replicate (length loaders) (Ret (xs, False)), Some xs, s)"
  by (induction loaders) (simp_all add: loadCached_locked_def slice_value_def)

text \<open>C24: loadCached asks the worker once. However many callers found a list missing, the one
  that gets the lock first loads it and the others wait for its result; a later caller is
  served from the cache. A loader that fails caches nothing, so that the next caller tries
  again. (An empty list is nil and is asked for every time.)\<close>

theorem loadCached_loads_once:
  assumes "loader s = (Ret xs, s')" and "xs \<noteq> []"
  shows "lock_queue (loader # loaders) None s =
      (replicate (Suc (length loaders)) (Ret (xs, False)), Some xs, s') \<and>
     loadCached later (Some xs) t = (Ret (xs, True), Some xs, t) \<and>
     (\<forall>bad e s1. bad s = (Err e, s1) \<longrightarrow>
        loadCached bad None s = (Err e, None, s1) \<and>
        (\<forall>loader2 ys s2. loader2 s1 = (Ret ys, s2) \<longrightarrow> loadCached loader2 None s1 = (Ret (ys, False), nil_if_empty ys, s2)))"
  using assms lock_queue_full [OF assms(2), of loaders s']
  by (auto simp: loadCached_locked_def loadCached_def loadCached_read_def nil_if_empty_def slice_value_def)

theorem loadCached_loads_once_witness:
  "lock_queue [\<lambda>n. (Ret [n], Suc n), \<lambda>n. (Ret [n], Suc n)] None (7 :: nat) =
     ([Ret ([7], False), Ret ([7], False)], Some [7], 8)"
  using loadCached_loads_once [of "\<lambda>n. (Ret [n], Suc n)" 7 "[7]" 8 "[\<lambda>n. (Ret [n], Suc n)]", THEN conjunct1]
  by (simp del: lock_queue.simps add: numeral_2_eq_2)

text \<open>Prune_context removes exactly the caches of the functions the agent has written a note
  for. It keeps the notes, every other cached decompilation and cross reference, and reports the
  number of entries removed, in whatever order the map of visited addresses is ranged over.\<close>

theorem prune_noted_exact:
  assumes "cache_inv c" and "is_order order (visited_map c)"
  shows "let (n, c') = pruneNotedFunctions order c
    in cache_inv c' \<and> decomps c' = filter (\<lambda>(a, _). \<not> (\<exists>m. getVisited c a = Some m \<and> an_Note m \<noteq> [])) (decomps c) \<and>
       (\<forall>a. getXRefs_cached a c' =
          (if \<exists>m. getVisited c a = Some m \<and> an_Note m \<noteq> [] then None else getXRefs_cached a c)) \<and>
       getVisited c' = getVisited c \<and>
       n = int (card {a \<in> noted c. a \<in> fst ` set (decomps c)}) +
           int (card {a \<in> noted c. getXRefs_cached a c \<noteq> None})"
  using pruneNotedFunctions_spec [OF assms(2,1)]
  by (simp add: case_prod_unfold getVisited_def noted_def)

theorem prune_noted_exact_witness:
  "fst (pruneNotedFunctions [1, 2]
     (setDecomp 1 ''f'' (setDecomp 2 ''g'' (setNote 1 9 ''parser'' (markVisited 2 9 [] empty_cache))))) = 1"
proof -
  let ?c = "setDecomp 1 ''f'' (setDecomp 2 ''g'' (setNote 1 9 ''parser'' (markVisited 2 9 [] empty_cache)))"
  have inv: "cache_inv ?c" by (simp add: setDecomp_spec(1) cache_inv_empty)
  have v: "visited_map ?c = [2 \<mapsto> \<lparr>an_Timestamp = 9, an_Note = []\<rparr>, 1 \<mapsto> \<lparr>an_Timestamp = 9, an_Note = ''parser''\<rparr>]"
    by (simp add: visited_map_def setDecomp_def setNote_def markVisited_def empty_cache_def Let_def)
  have n: "noted ?c = {1}" by (auto simp: noted_def v)
  have "map_of (decomps ?c) 1 = Some ''f''" by (simp add: setDecomp_spec cache_inv_empty)
  then have "1 \<in> fst ` set (decomps ?c)" by (metis map_of_eq_None_iff option.distinct(1))
  moreover have "getXRefs_cached 1 ?c = None"
    by (simp add: getXRefs_cached_def setDecomp_def setNote_def markVisited_def empty_cache_def Let_def visited_map_def)
  moreover have "is_order [1, 2] (visited_map ?c)" by (auto simp: is_order_def v)
  ultimately have "{a \<in> noted ?c. a \<in> fst ` set (decomps ?c)} = {1}" "{a \<in> noted ?c. getXRefs_cached a ?c \<noteq> None} = {}"
    using n by auto
  then show ?thesis
    using prune_noted_exact [OF inv \<open>is_order [1, 2] (visited_map ?c)\<close>] by (simp add: case_prod_unfold Let_def)
qed

text \<open>What happens to a session cache between two notes on an address: visits, notes elsewhere,
  stores and invalidations.\<close>

datatype cache_op =
    OpVisit u64 int
  | OpNote u64 int string
  | OpSetDecomp u64 string
  | OpGetDecomp u64
  | OpSetXRefs u64 xrefsEntry
  | OpDropDecomp u64
  | OpDropName string
  | OpDropAll
  | OpDropFunctions
  | OpDropXRefs
  | OpPrune "u64 list"

definition cache_apply :: "sessionCache \<Rightarrow> cache_op \<Rightarrow> sessionCache" where
  "cache_apply c op =
     (case op of
        OpVisit a t \<Rightarrow> markVisited a t [] c
      | OpNote a t n \<Rightarrow> setNote a t n c
      | OpSetDecomp a code \<Rightarrow> setDecomp a code c
      | OpGetDecomp a \<Rightarrow> snd (getDecomp a c)
      | OpSetXRefs a e \<Rightarrow> setXRefs a e c
      | OpDropDecomp a \<Rightarrow> invalidateDecomp a c
      | OpDropName n \<Rightarrow> snd (invalidateDecompByOldName n c)
      | OpDropAll \<Rightarrow> invalidateAllDecomp c
      | OpDropFunctions \<Rightarrow> invalidateFunctions c
      | OpDropXRefs \<Rightarrow> invalidateAllXRefs c
      | OpPrune order \<Rightarrow> snd (pruneNotedFunctions order c))"

lemma visited_simps [simp]:
  "visited_map (setDecomp a code c) = visited_map c"
  "visited_map (snd (getDecomp a c)) = visited_map c"
  "visited_map (setXRefs a e c) = visited_map c"
  "visited_map (invalidateDecomp a c) = visited_map c"
  "visited_map (snd (invalidateDecompByOldName n c)) = visited_map c"
  "visited_map (invalidateAllDecomp c) = visited_map c"
  "visited_map (invalidateFunctions c) = visited_map c"
  "visited_map (invalidateAllXRefs c) = visited_map c"
  by (auto simp: visited_map_def setDecomp_def getDecomp_def setXRefs_def invalidateDecomp_def
      invalidateDecompByOldName_def invalidateAllDecomp_def invalidateFunctions_def invalidateAllXRefs_def
      Let_def case_prod_unfold split: option.splits)

lemma visited_prune_one: "visited_map (snd (prune_one a nt p)) = visited_map (snd p)"
  by (auto simp: prune_one_def visited_map_def case_prod_unfold Let_def split: option.splits)

lemma visited_prune: "visited_map (snd (pruneNotedFunctions order c)) = visited_map c"
proof -
  have "visited_map (snd (fold (\<lambda>addr p. case V addr of Some note \<Rightarrow> prune_one addr note p | None \<Rightarrow> p) order p)) =
      visited_map (snd p)" for V p
    by (induction order arbitrary: p) (auto simp: visited_prune_one split: option.splits)
  then show ?thesis by (simp add: pruneNotedFunctions_def)
qed

text \<open>C36: a note on an address is kept by everything but another note on that address (and the
  removal of the whole cache): visits refresh its time stamp, and neither pruning nor any
  invalidation touches it.\<close>

theorem notes_survive:
  assumes "\<forall>op \<in> set ops. \<forall>t n. op \<noteq> OpNote a t n"
  shows "map_option an_Note (getVisited (foldl cache_apply (setNote a ts text c) ops) a) = Some text"
proof -
  have "map_option an_Note (visited_map c a) = Some text \<Longrightarrow> \<forall>op \<in> set ops. \<forall>t n. op \<noteq> OpNote a t n \<Longrightarrow>
      map_option an_Note (visited_map (foldl cache_apply c ops) a) = Some text" for c
  proof (induction ops arbitrary: c)
    case (Cons op ops)
    have "map_option an_Note (visited_map (cache_apply c op) a) = Some text"
      using Cons.prems
      by (cases op) (auto simp: cache_apply_def visited_prune markVisited_def setNote_def Let_def
          split: option.splits, auto simp: visited_map_def)
    then show ?case using Cons by simp
  qed simp
  moreover have "map_option an_Note (visited_map (setNote a ts text c) a) = Some text"
    by (simp add: setNote_def visited_map_def)
  ultimately show ?thesis using assms by (simp add: getVisited_def)
qed

theorem notes_survive_witness:
  "map_option an_Note (getVisited (foldl cache_apply (setNote 4 1 ''key'' empty_cache)
     [OpVisit 4 2, OpNote 5 3 ''x'', OpDropAll, OpPrune [4, 5], OpVisit 4 7]) 4) = Some ''key''"
  by (rule notes_survive) simp

section \<open>Served texts and edits of the database\<close>

text \<open>What a tool that edits the database relies on: dropping an entry, and dropping the entries
  that mention a name. A cache agrees with the database when every text it serves is the text
  the database has for that key.\<close>

locale text_cache =
  fixes ok :: "'c \<Rightarrow> bool"
    and served :: "'c \<Rightarrow> ('k \<rightharpoonup> 't)"
    and put :: "'k \<Rightarrow> 't \<Rightarrow> 'c \<Rightarrow> 'c"
    and drop :: "'k \<Rightarrow> 'c \<Rightarrow> 'c"
    and drop_mention :: "'n \<Rightarrow> 'c \<Rightarrow> 'c"
    and mentions :: "'t \<Rightarrow> 'n \<Rightarrow> bool"
  assumes ok_put: "ok c \<Longrightarrow> ok (put k t c)"
    and ok_drop: "ok c \<Longrightarrow> ok (drop k c)"
    and ok_drop_mention: "ok c \<Longrightarrow> ok (drop_mention n c)"
    and served_put: "ok c \<Longrightarrow> served (put k t c) \<subseteq>\<^sub>m (served c)(k \<mapsto> t)"
    and served_drop: "ok c \<Longrightarrow> served (drop k c) k' = (if k' = k then None else served c k')"
    and served_drop_mention: "ok c \<Longrightarrow> served (drop_mention n c) k =
          (case served c k of None \<Rightarrow> None | Some t \<Rightarrow> if mentions t n then None else Some t)"
begin

lemma put_agrees:
  assumes "ok c" and "served c \<subseteq>\<^sub>m texts" and "texts k = Some t"
  shows "served (put k t c) \<subseteq>\<^sub>m texts"
  using served_put [OF assms(1), of k t] assms(2,3)
  by (auto simp: map_le_def dom_def split: if_splits) (metis fun_upd_apply option.inject option.simps(3))

lemma drop_agrees:
  assumes "ok c" and "served c \<subseteq>\<^sub>m texts" and "\<And>k'. k' \<noteq> k \<Longrightarrow> texts' k' = texts k'"
  shows "served (drop k c) \<subseteq>\<^sub>m texts'"
  using assms(2,3) by (auto simp: map_le_def dom_def served_drop [OF assms(1)] split: if_splits)

lemma drop_mention_agrees:
  assumes "ok c" and "served c \<subseteq>\<^sub>m texts"
    and "\<And>k t. texts k = Some t \<Longrightarrow> \<not> mentions t n \<Longrightarrow> texts' k = Some t"
  shows "served (drop_mention n c) \<subseteq>\<^sub>m texts'"
  unfolding map_le_def
proof
  fix k assume "k \<in> dom (served (drop_mention n c))"
  then obtain t where t: "served c k = Some t" "\<not> mentions t n"
    by (auto simp: served_drop_mention [OF assms(1)] split: option.splits if_splits)
  then have "texts k = Some t" using assms(2) by (auto simp: map_le_def dom_def)
  with t assms(3) show "served (drop_mention n c) k = texts' k"
    by (simp add: served_drop_mention [OF assms(1)])
qed

text \<open>An edit at one key that also changes the texts that mention its name.\<close>

lemma edit_agrees:
  assumes "ok c" and "served c \<subseteq>\<^sub>m texts"
    and "\<And>k' t. k' \<noteq> k \<Longrightarrow> texts k' = Some t \<Longrightarrow> \<not> mentions t n \<Longrightarrow> texts' k' = Some t"
  shows "served (drop_mention n (drop k c)) \<subseteq>\<^sub>m texts'"
proof -
  have "served (drop k c) \<subseteq>\<^sub>m texts(k := None)"
    using assms(2) by (auto simp: map_le_def dom_def served_drop [OF assms(1)] split: if_splits)
  then show ?thesis
    by (rule drop_mention_agrees [OF ok_drop [OF assms(1)]]) (auto simp: assms(3) split: if_splits)
qed

end

definition code_mentions :: "string \<Rightarrow> string \<Rightarrow> bool" where
  "code_mentions code name \<longleftrightarrow> name \<noteq> [] \<and> contains code name"

lemma map_of_filter_text:
  "distinct (map fst xs) \<Longrightarrow> map_of (filter (\<lambda>(a, t). \<not> P t) xs) k =
     (case map_of xs k of None \<Rightarrow> None | Some t \<Rightarrow> if P t then None else Some t)"
proof (induction xs)
  case (Cons x xs)
  then have "map_of xs (fst x) = None" by (simp add: map_of_eq_None_iff)
  with Cons show ?case by (cases x) (auto split: option.splits)
qed simp

interpretation decomps: text_cache cache_inv "\<lambda>c. map_of (decomps c)" setDecomp invalidateDecomp
  "\<lambda>name c. snd (invalidateDecompByOldName name c)" code_mentions
proof
  fix c :: sessionCache and k k' :: u64 and t name :: string
  assume c: "cache_inv c"
  show "cache_inv (setDecomp k t c)" "cache_inv (invalidateDecomp k c)"
    "cache_inv (snd (invalidateDecompByOldName name c))"
    using c by (simp_all add: setDecomp_spec invalidateDecomp_spec invalidateDecompByOldName_spec)
  show "map_of (decomps (invalidateDecomp k c)) k' = (if k' = k then None else map_of (decomps c) k')"
    using c by (simp add: invalidateDecomp_spec AList.delete_conv')
  show "map_of (decomps (snd (invalidateDecompByOldName name c))) k =
      (case map_of (decomps c) k of None \<Rightarrow> None | Some t \<Rightarrow> if code_mentions t name then None else Some t)"
    using map_of_filter_text [OF decomps_distinct [OF c], of "\<lambda>t. contains t name" k]
    by (auto simp: invalidateDecompByOldName_spec [OF c] code_mentions_def split: option.splits)
  show "map_of (decomps (setDecomp k t c)) \<subseteq>\<^sub>m (map_of (decomps c))(k \<mapsto> t)"
    unfolding map_le_def
  proof
    fix a assume "a \<in> dom (map_of (decomps (setDecomp k t c)))"
    then obtain code where code: "map_of (decomps (setDecomp k t c)) a = Some code" by auto
    then have "(a, code) \<in> set (decomps (setDecomp k t c))" by (rule map_of_SomeD)
    then have "(a, code) = (k, t) \<or> (a, code) \<in> set (decomps c) \<and> a \<noteq> k"
      using setDecomp_spec(2) [OF c, of k t] by auto
    then show "map_of (decomps (setDecomp k t c)) a = ((map_of (decomps c))(k \<mapsto> t)) a"
      using code decomps_distinct [OF c] by auto
  qed
qed

end
