(* ===== verification/Requests.thy ===== *)
theory Requests
  imports Addr
begin

text \<open>
  The parameter records of the tools (internal/server/params.go), one per Go struct, with the
  fields in the order of the struct. An absent optional field is the zero value, as
  encoding/json leaves it. ListSessionsRequest has no fields and is the unit type; the request
  of get_cached_output is in OutputStore.
\<close>

record OpenBinaryRequest =
  ob_Path :: string
  ob_SkipAnalysis :: bool

record CloseBinaryRequest =
  cb_SessionID :: string

record SaveDatabaseRequest =
  sd_SessionID :: string

record GetSessionProgressRequest =
  gsp_SessionID :: string

record RunAutoAnalysisRequest =
  raa_SessionID :: string

record WatchAutoAnalysisRequest =
  waa_SessionID :: string
  waa_IntervalMs :: int
  waa_TimeoutSecs :: int

record GetDisasmRequest =
  gd_SessionID :: string
  gd_Address :: string
  gd_WholeFunction :: bool

record GetFunctionsRequest =
  gf_SessionID :: string
  gf_Offset :: int
  gf_Limit :: int
  gf_Regex :: string
  gf_CaseSens :: bool
  gf_NamedOnly :: bool

record GetImportsRequest =
  gi_SessionID :: string
  gi_Offset :: int
  gi_Limit :: int
  gi_Module :: string
  gi_Regex :: string
  gi_CaseSens :: bool

record GetExportsRequest =
  ge_SessionID :: string
  ge_Offset :: int
  ge_Limit :: int
  ge_Regex :: string
  ge_CaseSens :: bool

record GetStringsRequest =
  gs_SessionID :: string
  gs_Offset :: int
  gs_Limit :: int
  gs_Regex :: string
  gs_CaseSens :: bool

record ReadMemoryRequest =
  rm_SessionID :: string
  rm_Address :: string
  rm_Format :: string
  rm_Size :: u32

record GetSegmentsRequest =
  seg_SessionID :: string

record GetEntryPointRequest =
  gep_SessionID :: string

record SetCommentRequest =
  sc_SessionID :: string
  sc_Address :: u64
  sc_Comment :: string
  sc_Scope :: string
  sc_Repeatable :: bool
  sc_FunctionAddress :: u64

record SetNameRequest =
  sn_SessionID :: string
  sn_Address :: u64
  sn_Name :: string

record DeleteNameRequest =
  dn_SessionID :: string
  dn_Address :: u64

record SetLvarTypeRequest =
  slt_SessionID :: string
  slt_FunctionAddress :: u64
  slt_LvarName :: string
  slt_LvarType :: string

record SetGlobalTypeRequest =
  sgt_SessionID :: string
  sgt_Address :: u64
  sgt_Type :: string

record SetFunctionTypeRequest =
  sft_SessionID :: string
  sft_Address :: u64
  sft_Prototype :: string

record MakeFunctionRequest =
  mf_SessionID :: string
  mf_Address :: string

record GetGlobalsRequest =
  gg_SessionID :: string
  gg_Regex :: string
  gg_CaseSensitive :: bool
  gg_Offset :: int
  gg_Limit :: int

record GetStructsRequest =
  gst_SessionID :: string
  gst_Name :: string
  gst_Regex :: string
  gst_CaseSensitive :: bool

record GetEnumsRequest =
  gen_SessionID :: string
  gen_Name :: string
  gen_Regex :: string
  gen_CaseSensitive :: bool

record FindBinaryRequest =
  fb_SessionID :: string
  fb_Start :: u64
  fb_End :: u64
  fb_Pattern :: string
  fb_SearchUp :: bool

record FindTextRequest =
  ft_SessionID :: string
  ft_Start :: u64
  ft_End :: u64
  ft_Needle :: string
  ft_CaseSensitive :: bool
  ft_Unicode :: bool

record ImportIl2cppRequest =
  ii_SessionID :: string
  ii_ScriptPath :: string
  ii_Il2cppPath :: string
  ii_Fields :: "string list"

record ImportFlutterRequest =
  ifl_SessionID :: string
  ifl_MetaJsonPath :: string

record SurveyBinaryRequest =
  sb_SessionID :: string

record AnalyzeFunctionRequest =
  af_SessionID :: string
  af_Address :: string

record AnalyzeFunctionsRequest =
  afs_SessionID :: string
  afs_Addresses :: "string list"

record SetAnalysisNoteRequest =
  san_SessionID :: string
  san_Address :: string
  san_Note :: string

record GetAnalysisContextRequest =
  gac_SessionID :: string

record PruneContextRequest =
  pc_SessionID :: string

record PyEvalRequest =
  pe_SessionID :: string
  pe_Code :: string
  pe_ReadOnly :: bool

record LvarRename =
  lrn_Current :: string
  lrn_New :: string

record LvarRetype =
  lrt_Name :: string
  lrt_Type :: string

record DecompComment =
  dc_Address :: string
  dc_Comment :: string

record AnnotateFunctionRequest =
  ann_SessionID :: string
  ann_Address :: string
  ann_Name :: string
  ann_Comment :: string
  ann_Renames :: "LvarRename list"
  ann_Retypes :: "LvarRetype list"
  ann_DecompComments :: "DecompComment list"

record QueryRequest =
  qr_SessionID :: string
  qr_Category :: string
  qr_Regex :: string
  qr_CaseSensitive :: bool
  qr_Offset :: int
  qr_Limit :: int
  qr_NamedOnly :: bool
  qr_Module :: string
  qr_Name :: string

record GetReferencesRequest =
  gr_SessionID :: string
  gr_Address :: string
  gr_Mode :: string
  gr_Direction :: string

record SearchRequest =
  sr_SessionID :: string
  sr_Mode :: string
  sr_Needle :: string
  sr_CaseSensitive :: bool
  sr_Unicode :: bool
  sr_Pattern :: string
  sr_SearchUp :: bool
  sr_Start :: string
  sr_End :: string

record InspectRequest =
  isp_SessionID :: string
  isp_Address :: string

record CrossReferenceRequest =
  cr_SourceSessionID :: string
  cr_TargetSessionID :: string
  cr_Address :: string

record CrossSearchRequest =
  cs_SessionIDs :: "string list"
  cs_Mode :: string
  cs_Regex :: string
  cs_Needle :: string
  cs_Limit :: int

record SetMetadataRequest =
  sm_SessionID :: string
  sm_Address :: string
  sm_Action :: string
  sm_Name :: string
  sm_Comment :: string
  sm_Scope :: string
  sm_Repeatable :: bool
  sm_FunctionAddress :: string

record SetTypeRequest =
  sty_SessionID :: string
  sty_Address :: string
  sty_Target :: string
  sty_Type :: string
  sty_Prototype :: string
  sty_FunctionAddress :: string
  sty_LvarName :: string

record ImportMetadataRequest =
  im_SessionID :: string
  im_Format :: string
  im_ScriptPath :: string
  im_Il2cppPath :: string
  im_Fields :: "string list"
  im_MetaJsonPath :: string

record GetXRefsRequest =
  gxr_SessionID :: string
  gxr_Address :: u64
  gxr_Direction :: string

record DataRefRequest =
  dref_SessionID :: string
  dref_Address :: u64

record StringXRefRequest =
  sxr_SessionID :: string
  sxr_Address :: u64

end
