(* ===== verification/ServerState.thy ===== *)
theory ServerState
  imports OutputStore Store Worker SessionCache Requests
begin

text \<open>
  The server object (internal/server/server.go Server and New), its environment, the progress
  store (progress.go), the tool tiers (server.go) and the resolution of a session and its worker
  with the readiness gate (util.go). A handler is a step over the server record. The databases
  of the worker processes are part of the state, one per worker client. What a handler draws
  from outside (clock, ids, iteration orders, outcomes of system calls) is the environment
  record; a request that is being handled keeps the list of the leases it acquired.
\<close>

section \<open>Server\<close>

record sessionProgress =
  pg_Stage :: string
  pg_Message :: string
  pg_Progress :: rat
  pg_Total :: rat
  pg_UpdatedAt :: int

record 'db server =
  sv_registry :: registry
  sv_workers :: Manager
  sv_dbs :: "nat \<Rightarrow> 'db"
  sv_sessionTimeout :: int
  sv_enablePyEval :: bool
  sv_bind :: string
  sv_allowedRoots :: "string list"
  sv_store :: "store_dir option"
  sv_cache :: "string \<rightharpoonup> sessionCache"
  sv_progress :: "string \<rightharpoonup> sessionProgress"
  sv_outputs :: outputStore
  sv_tools :: "string list"
  sv_tier :: int
  sv_leases :: "nat list"

definition New :: "registry \<Rightarrow> Manager \<Rightarrow> (nat \<Rightarrow> 'db) \<Rightarrow> int \<Rightarrow> store_dir option \<Rightarrow> 'db server" where
  "New registry workers dbs sessionTimeout store =
     \<lparr>sv_registry = registry, sv_workers = workers, sv_dbs = dbs, sv_sessionTimeout = sessionTimeout,
      sv_enablePyEval = False, sv_bind = [], sv_allowedRoots = [], sv_store = store,
      sv_cache = Map.empty, sv_progress = Map.empty, sv_outputs = newOutputStore,
      sv_tools = [], sv_tier = 0, sv_leases = []\<rparr>"

definition SetSecurity :: "host \<Rightarrow> string \<Rightarrow> bool \<Rightarrow> string list \<Rightarrow> 'db server \<Rightarrow> 'db server" where
  "SetSecurity h bind enablePyEval allowedRoots s =
     s\<lparr>sv_bind := bind, sv_enablePyEval := enablePyEval,
       sv_allowedRoots := normalizeRoots (h_cwd h) (h_EvalSymlinks h) allowedRoots\<rparr>"

text \<open>The environment of one call: the operating system (os.Stat, the worker launcher and the stop
  of a worker, the store directory), per session id where a call meets several sessions; the
  scheduler and the context (the order in which parallel tasks run, how many pages of an
  enumeration the context of the call lives to see and its error after that, the ticks of a
  heartbeat, whether the request ends before the analysis it waits for); and the rest.
  \<open>we_ticks\<close> is what the other goroutines do to the server between the polls of a waiting
  request, until the request is cancelled.\<close>

record os_env =
  os_stat :: "string \<Rightarrow> gerr option"
  os_launch :: "string \<Rightarrow> LaunchResult go"
  os_stop :: "string \<Rightarrow> stop_io"
  os_draw :: "string \<Rightarrow> draw"
  os_encode :: "Metadata \<Rightarrow> string go"
  os_decode :: "string \<Rightarrow> Metadata option"
  os_io :: store_io
  os_listing :: "string list"
  os_rfc3339 :: "int \<Rightarrow> string"

record sched_env =
  sch_tasks :: "string list"
  sch_indices :: "nat list"
  sch_pages :: nat
  sch_ctxErr :: gerr
  sch_beats :: "string list"
  sch_done :: bool

record 'db env =
  ev_now :: int
  ev_worker :: "'db worker_api"
  ev_marshal :: "json \<Rightarrow> string"
  ev_unmarshal :: "string \<Rightarrow> gerr + (string \<times> json) list option"
  ev_regex :: "string \<Rightarrow> gerr + (string \<Rightarrow> bool)"
  ev_quote :: "string \<Rightarrow> string"
  ev_host :: host
  ev_order :: "string list"
  ev_visits :: "u64 list"
  ev_draw :: draw
  ev_cacheID :: string
  ev_os :: os_env
  ev_sched :: sched_env

record 'db wait_env =
  we_token :: bool
  we_ticks :: "('db server \<Rightarrow> 'db server) list"

text \<open>\<open>err.Error()\<close>; \<open>q\<close> is the quoting of \<open>%q\<close>.\<close>

fun err_text :: "(string \<Rightarrow> string) \<Rightarrow> gerr \<Rightarrow> string" where
  "err_text q (Msg m) = m"
| "err_text q (Ctx c e) = c @ '': '' @ err_text q e"
| "err_text q (Waited w r) = ''session not ready (waited: '' @ err_text q w @ ''; original: '' @ err_text q r @ '')''"
| "err_text q (Quoted pre s post) = pre @ q s @ post"
| "err_text q AddressRequired = ''address is required (hex like 0x1000 or decimal)''"
| "err_text q (InvalidAddress s) = ''invalid address '' @ q s @ '': want hex (0x...) or decimal''"

section \<open>progress.go\<close>

definition recordProgress ::
  "int \<Rightarrow> string \<Rightarrow> string \<Rightarrow> string \<Rightarrow> rat \<Rightarrow> rat \<Rightarrow> 'db server \<Rightarrow> 'db server" where
  "recordProgress now sessionID stage message progress tot s =
     (if sessionID = [] then s
      else s\<lparr>sv_progress := (sv_progress s)(sessionID \<mapsto>
               \<lparr>pg_Stage = stage, pg_Message = message, pg_Progress = progress, pg_Total = tot,
                pg_UpdatedAt = now\<rparr>)\<rparr>)"

definition clearProgress :: "string \<Rightarrow> 'db server \<Rightarrow> 'db server" where
  "clearProgress sessionID s =
     (if sessionID = [] then s else s\<lparr>sv_progress := (sv_progress s)(sessionID := None)\<rparr>)"

definition getProgress :: "string \<Rightarrow> 'db server \<Rightarrow> sessionProgress option" where
  "getProgress sessionID s = sv_progress s sessionID"

text \<open>A reporter that records for a session; a notification goes to the client only with a
  progress token, and never reports less progress than the one before.\<close>

record progressReporter =
  pr_session :: string
  pr_token :: bool
  pr_last :: rat
  pr_stage :: string

record notification =
  nt_Progress :: rat
  nt_Message :: string
  nt_Total :: "rat option"

definition newProgressReporter :: "string \<Rightarrow> bool \<Rightarrow> string \<Rightarrow> progressReporter" where
  "newProgressReporter sessionID token stage =
     \<lparr>pr_session = sessionID, pr_token = token, pr_last = 0, pr_stage = stage\<rparr>"

definition Emit ::
  "int \<Rightarrow> string \<Rightarrow> string \<Rightarrow> rat \<Rightarrow> rat \<Rightarrow> progressReporter \<times> 'db server \<Rightarrow>
   notification option \<times> progressReporter \<times> 'db server" where
  "Emit now stage message progress tot ps =
     (let (p, s) = ps;
          stage = (if stage = [] then pr_stage p else stage);
          p = (if stage \<noteq> [] then p\<lparr>pr_stage := stage\<rparr> else p);
          s = recordProgress now (pr_session p) (pr_stage p) message progress tot s
      in if \<not> pr_token p then (None, p, s)
         else
           let (progress, p) =
             (if progress < pr_last p then (pr_last p, p) else (progress, p\<lparr>pr_last := progress\<rparr>))
           in (Some \<lparr>nt_Progress = progress, nt_Message = message,
                     nt_Total = (if 0 < tot then Some tot else None)\<rparr>, p, s))"

text \<open>emitProgress with or without a reporter records the stage; the notification is not part of
  the state.\<close>

definition emitProgress ::
  "int \<Rightarrow> progressReporter option \<Rightarrow> string \<Rightarrow> string \<Rightarrow> string \<Rightarrow> rat \<Rightarrow> rat \<Rightarrow> 'db server \<Rightarrow> 'db server" where
  "emitProgress now progress sessionID stage message cur tot s =
     (case progress of
        Some p \<Rightarrow> snd (snd (Emit now stage message cur tot (p, s)))
      | None \<Rightarrow> recordProgress now sessionID stage message cur tot s)"

section \<open>server.go: tool tiers\<close>

definition tier0ToolNames :: "string list" where
  "tier0ToolNames = [''open_binary'', ''list_sessions'', ''get_cached_output'']"

definition tier1ToolNames :: "string list" where
  "tier1ToolNames =
     [''close_binary'', ''save_database'', ''survey_binary'', ''analyze_function'', ''analyze_functions'',
      ''set_analysis_note'', ''get_analysis_context'', ''prune_context'', ''read_memory'', ''get_disasm'',
      ''query'', ''get_references'', ''search'', ''inspect'', ''cross_reference'', ''cross_search'',
      ''run_auto_analysis'', ''watch_auto_analysis'', ''get_session_progress'']"

definition tier1Tools :: "'db server \<Rightarrow> string list" where
  "tier1Tools s = (if sv_enablePyEval s then tier1ToolNames @ [''py_eval''] else tier1ToolNames)"

definition tier2ToolNames :: "string list" where
  "tier2ToolNames =
     [''annotate_function'', ''set_metadata'', ''set_type'', ''make_function'', ''import_metadata'']"

text \<open>AddTool replaces a tool of the same name; RemoveTools ignores names that are not there.\<close>

definition add_tool :: "string \<Rightarrow> 'db server \<Rightarrow> 'db server" where
  "add_tool name s = (if name \<in> set (sv_tools s) then s else s\<lparr>sv_tools := sv_tools s @ [name]\<rparr>)"

definition RemoveTools :: "string list \<Rightarrow> 'db server \<Rightarrow> 'db server" where
  "RemoveTools names s = s\<lparr>sv_tools := filter (\<lambda>t. t \<notin> set names) (sv_tools s)\<rparr>"

definition registerTier0 :: "'db server \<Rightarrow> 'db server" where
  "registerTier0 s = fold add_tool [''open_binary'', ''list_sessions'', ''get_cached_output''] s"

definition registerTier1 :: "'db server \<Rightarrow> 'db server" where
  "registerTier1 s =
     (let s = fold add_tool
        [''close_binary'', ''save_database'', ''survey_binary'', ''analyze_function'', ''analyze_functions'',
         ''set_analysis_note'', ''get_analysis_context'', ''prune_context'', ''read_memory'', ''get_disasm'',
         ''query'', ''get_references'', ''search'', ''inspect'', ''cross_reference'', ''cross_search'',
         ''run_auto_analysis'', ''watch_auto_analysis'', ''get_session_progress''] s
      in if sv_enablePyEval s then add_tool ''py_eval'' s else s)"

definition registerTier2 :: "'db server \<Rightarrow> 'db server" where
  "registerTier2 s =
     fold add_tool [''annotate_function'', ''set_metadata'', ''set_type'', ''make_function'', ''import_metadata''] s"

definition RegisterTools :: "'db server \<Rightarrow> 'db server" where
  "RegisterTools s = registerTier0 s"

definition promoteToTier :: "int \<Rightarrow> 'db server \<Rightarrow> 'db server" where
  "promoteToTier target s =
     (if sv_tier s \<ge> target then s
      else
        let s1 = (if target \<ge> 1 \<and> sv_tier s < 1 then registerTier1 s else s);
            s2 = (if target \<ge> 2 \<and> sv_tier s < 2 then registerTier2 s1 else s1)
        in s2\<lparr>sv_tier := target\<rparr>)"

definition demoteToTier0 :: "'db server \<Rightarrow> 'db server" where
  "demoteToTier0 s =
     (if sv_tier s = 0 then s
      else
        let s1 = (if sv_tier s \<ge> 2 then RemoveTools tier2ToolNames s else s);
            s2 = (if sv_tier s \<ge> 1 then RemoveTools (tier1Tools s1) s1 else s1)
        in s2\<lparr>sv_tier := 0\<rparr>)"

definition PromoteIfSessions :: "string list \<Rightarrow> 'db server \<Rightarrow> 'db server" where
  "PromoteIfSessions order s =
     (if length (registry_List order (sv_registry s)) > 0 then promoteToTier 1 s else s)"

section \<open>cache.go: the cache of a session\<close>

text \<open>getSessionCache creates the cache on first use; a method then works on it in place.\<close>

definition session_cache :: "string \<Rightarrow> 'db server \<Rightarrow> sessionCache" where
  "session_cache sessionID s = (case sv_cache s sessionID of Some c \<Rightarrow> c | None \<Rightarrow> empty_cache)"

definition getSessionCache :: "string \<Rightarrow> 'db server \<Rightarrow> 'db server" where
  "getSessionCache sessionID s = s\<lparr>sv_cache := (sv_cache s)(sessionID \<mapsto> session_cache sessionID s)\<rparr>"

definition on_cache :: "string \<Rightarrow> (sessionCache \<Rightarrow> sessionCache) \<Rightarrow> 'db server \<Rightarrow> 'db server" where
  "on_cache sessionID f s = s\<lparr>sv_cache := (sv_cache s)(sessionID \<mapsto> f (session_cache sessionID s))\<rparr>"

definition deleteSessionCache :: "string \<Rightarrow> 'db server \<Rightarrow> 'db server" where
  "deleteSessionCache sessionID s = s\<lparr>sv_cache := (sv_cache s)(sessionID := None)\<rparr>"

section \<open>util.go: resolving a session\<close>

definition on_registry :: "(registry \<Rightarrow> registry) \<Rightarrow> 'db server \<Rightarrow> 'db server" where
  "on_registry f s = s\<lparr>sv_registry := f (sv_registry s)\<rparr>"

definition session_of :: "'db server \<Rightarrow> nat \<Rightarrow> session" where
  "session_of s ref = rg_heap (sv_registry s) ref"

text \<open>The UTF-8 bytes of the em dash in the messages.\<close>

definition emdash :: string where
  "emdash = [CHR 0xE2, CHR 0x80, CHR 0x94]"

fun join_with :: "string \<Rightarrow> string list \<Rightarrow> string" where
  "join_with sep [] = []"
| "join_with sep [x] = x"
| "join_with sep (x # xs) = x @ sep @ join_with sep xs"

definition resolveSession :: "string list \<Rightarrow> string \<Rightarrow> ('db server, nat) step" where
  "resolveSession order sessionID s =
     (if sessionID \<noteq> [] then
        (case registry_Get (sv_registry s) sessionID of
           None \<Rightarrow> (Err (Msg (''session not found: '' @ sessionID)), s)
         | Some sess \<Rightarrow> (Ret sess, s))
      else
        let sessions = registry_List order (sv_registry s)
        in case sessions of
             [sess] \<Rightarrow> (Ret sess, s)
           | [] \<Rightarrow> (Err (Msg (''no active sessions '' @ emdash @ '' call open_binary first'')), s)
           | _ \<Rightarrow> (Err (Msg (''multiple sessions active '' @ emdash @ '' specify session_id (active: '' @
                        join_with '', '' (map (\<lambda>ref. se_ID (session_of s ref)) sessions) @ '')'')), s))"

definition inProgressStages :: "string list" where
  "inProgressStages = [''starting'', ''opening'', ''analyzing'', ''warming'']"

definition round_half_even :: "rat \<Rightarrow> int" where
  "round_half_even r =
     (let f = \<lfloor>r\<rfloor>; d = r - of_int f
      in if d < 1 / 2 then f else if d > 1 / 2 then f + 1 else if even f then f else f + 1)"

definition percent :: "rat \<Rightarrow> rat \<Rightarrow> rat" where
  "percent progress tot = (if 0 < tot then progress / tot * 100 else 0)"

definition readinessError :: "string \<Rightarrow> 'db server \<Rightarrow> gerr option" where
  "readinessError sessionID s =
     (case getProgress sessionID s of
        None \<Rightarrow> None
      | Some p \<Rightarrow>
          if pg_Stage p = ''failed'' then
            Some (Msg (''binary failed to load: '' @ pg_Message p @ '' '' @ emdash @ '' re-open with open_binary or check the path''))
          else if pg_Stage p \<in> set inProgressStages then
            Some (Msg (''binary not ready (stage='' @ pg_Stage p @ '', '' @
                       show_dec (round_half_even (percent (pg_Progress p) (pg_Total p))) @
                       ''%) '' @ emdash @ '' poll get_session_progress until ready=true before analyzing''))
          else None)"

text \<open>The lease of the request is released by context.AfterFunc when the request ends; the
  request keeps the sessions it has to release.\<close>

definition resolveClientDuringLoad :: "'db env \<Rightarrow> string \<Rightarrow> string \<Rightarrow> ('db server, nat \<times> nat) step" where
  "resolveClientDuringLoad E sessionID tool =
     and_then (resolveSession (ev_order E) sessionID) (\<lambda>sess s.
       let s = on_registry (on_session sess (Touch (ev_now E))) s
       in case manager_GetClient (se_ID (session_of s sess)) (sv_workers s) of
            Err e \<Rightarrow> (Err (Ctx (tool @ '' worker client'') e), s)
          | Panic p \<Rightarrow> (Panic p, s)
          | Ret client \<Rightarrow>
              (Ret (sess, client),
               (on_registry (on_session sess AcquireInFlight) s)\<lparr>sv_leases := sess # sv_leases s\<rparr>))"

definition resolveClient :: "'db env \<Rightarrow> string \<Rightarrow> string \<Rightarrow> ('db server, nat \<times> nat) step" where
  "resolveClient E sessionID tool =
     and_then (resolveClientDuringLoad E sessionID tool) (\<lambda>(sess, client) s.
       case readinessError (se_ID (session_of s sess)) s of
         Some e \<Rightarrow> (Err e, s)
       | None \<Rightarrow> (Ret (sess, client), s))"

text \<open>One turn of the poll re-emits the snapshot with the percentage appended to its message.\<close>

fun waitForReady :: "int \<Rightarrow> string \<Rightarrow> ('db server \<Rightarrow> 'db server) list \<Rightarrow> progressReporter \<Rightarrow> ('db server, unit) step" where
  "waitForReady now sessionID ticks progress s =
     (case readinessError sessionID s of
        None \<Rightarrow> (Ret (), s)
      | Some _ \<Rightarrow>
          let (progress, s) =
            (case getProgress sessionID s of
               Some p \<Rightarrow>
                 snd (Emit now (pg_Stage p)
                   (pg_Message p @ '' ('' @ show_dec (round_half_even (percent (pg_Progress p) (pg_Total p))) @ ''%)'')
                   (pg_Progress p) (pg_Total p) (progress, s))
             | None \<Rightarrow> (progress, s))
          in case ticks of
               [] \<Rightarrow> (Err (Msg ''context canceled''), s)
             | t # ticks \<Rightarrow> waitForReady now sessionID ticks progress (t s))"

declare waitForReady.simps [simp del]

definition resolveClientWait :: "'db env \<Rightarrow> 'db wait_env \<Rightarrow> string \<Rightarrow> string \<Rightarrow> ('db server, nat \<times> nat) step" where
  "resolveClientWait E W sessionID tool =
     and_then (resolveClientDuringLoad E sessionID tool) (\<lambda>(sess, client) s.
       let sid = se_ID (session_of s sess)
       in case readinessError sid s of
            None \<Rightarrow> (Ret (sess, client), s)
          | Some readyErr \<Rightarrow>
              if \<not> we_token W then (Err readyErr, s)
              else
                let progress = newProgressReporter sid True ''loading''
                in case waitForReady (ev_now E) sid (we_ticks W) progress s of
                     (Ret _, s) \<Rightarrow> (Ret (sess, client), s)
                   | (Err waitErr, s) \<Rightarrow> (Err (Waited waitErr readyErr), s)
                   | (Panic p, s) \<Rightarrow> (Panic p, s))"

text \<open>The end of a request: every lease it acquired is released.\<close>

definition end_request :: "int \<Rightarrow> 'db server \<Rightarrow> 'db server" where
  "end_request now s =
     (fold (\<lambda>sess. on_registry (on_session sess (ReleaseInFlight now))) (sv_leases s) s)\<lparr>sv_leases := []\<rparr>"

section \<open>The tier invariant\<close>

definition tools_ok :: "'db server \<Rightarrow> bool" where
  "tools_ok s \<longleftrightarrow>
     0 \<le> sv_tier s \<and>
     set (sv_tools s) = set tier0ToolNames \<union> (if 1 \<le> sv_tier s then set (tier1Tools s) else {}) \<union>
                        (if 2 \<le> sv_tier s then set tier2ToolNames else {})"

lemma add_tools:
  "set (sv_tools (fold add_tool names s)) = set (sv_tools s) \<union> set names"
  "sv_enablePyEval (fold add_tool names s) = sv_enablePyEval s"
  "sv_tier (fold add_tool names s) = sv_tier s"
  by (induction names arbitrary: s) (auto simp: add_tool_def)

lemma registerTier_simps:
  "sv_enablePyEval (registerTier1 s) = sv_enablePyEval s" "sv_tier (registerTier1 s) = sv_tier s"
  "set (sv_tools (registerTier1 s)) = set (sv_tools s) \<union> set (tier1Tools s)"
  "sv_enablePyEval (registerTier2 s) = sv_enablePyEval s" "sv_tier (registerTier2 s) = sv_tier s"
  "set (sv_tools (registerTier2 s)) = set (sv_tools s) \<union> set tier2ToolNames"
proof -
  have 1: "registerTier1 s = fold add_tool (tier1Tools s) s"
    unfolding registerTier1_def tier1ToolNames_def [symmetric] Let_def tier1Tools_def add_tools
    by (cases "sv_enablePyEval s") (simp_all only: if_True if_False fold_append fold_Cons fold_Nil o_apply id_apply)
  have 2: "registerTier2 s = fold add_tool tier2ToolNames s"
    unfolding registerTier2_def tier2ToolNames_def ..
  show "sv_enablePyEval (registerTier1 s) = sv_enablePyEval s" "sv_tier (registerTier1 s) = sv_tier s"
    "set (sv_tools (registerTier1 s)) = set (sv_tools s) \<union> set (tier1Tools s)"
    unfolding 1 by (rule add_tools)+
  show "sv_enablePyEval (registerTier2 s) = sv_enablePyEval s" "sv_tier (registerTier2 s) = sv_tier s"
    "set (sv_tools (registerTier2 s)) = set (sv_tools s) \<union> set tier2ToolNames"
    unfolding 2 by (rule add_tools)+
qed

lemma tier_names_disjoint:
  "set tier0ToolNames \<inter> set (tier1Tools s) = {}" "set tier0ToolNames \<inter> set tier2ToolNames = {}"
  "set (tier1Tools s) \<inter> set tier2ToolNames = {}"
  by (auto simp: tier0ToolNames_def tier1Tools_def tier1ToolNames_def tier2ToolNames_def split: if_splits)

text \<open>The tiers change nothing but the tools.\<close>

lemma add_tool_same:
  "sv_registry (add_tool n s) = sv_registry s" "sv_workers (add_tool n s) = sv_workers s"
  "sv_progress (add_tool n s) = sv_progress s" "sv_cache (add_tool n s) = sv_cache s"
  "sv_outputs (add_tool n s) = sv_outputs s" "sv_dbs (add_tool n s) = sv_dbs s" "sv_store (add_tool n s) = sv_store s"
  by (simp_all add: add_tool_def)

lemma registerTier_same:
  "sv_registry (registerTier1 s) = sv_registry s" "sv_workers (registerTier1 s) = sv_workers s"
  "sv_progress (registerTier1 s) = sv_progress s" "sv_cache (registerTier1 s) = sv_cache s"
  "sv_outputs (registerTier1 s) = sv_outputs s" "sv_dbs (registerTier1 s) = sv_dbs s" "sv_store (registerTier1 s) = sv_store s"
  "sv_registry (registerTier2 s) = sv_registry s" "sv_workers (registerTier2 s) = sv_workers s"
  "sv_progress (registerTier2 s) = sv_progress s" "sv_cache (registerTier2 s) = sv_cache s"
  "sv_outputs (registerTier2 s) = sv_outputs s" "sv_dbs (registerTier2 s) = sv_dbs s" "sv_store (registerTier2 s) = sv_store s"
  by (simp_all add: registerTier1_def registerTier2_def Let_def add_tool_same)

lemma promote_same [simp]:
  "sv_registry (promoteToTier t s) = sv_registry s" "sv_workers (promoteToTier t s) = sv_workers s"
  "sv_progress (promoteToTier t s) = sv_progress s" "sv_cache (promoteToTier t s) = sv_cache s"
  "sv_outputs (promoteToTier t s) = sv_outputs s" "sv_dbs (promoteToTier t s) = sv_dbs s"
  "sv_store (promoteToTier t s) = sv_store s"
  by (simp_all add: promoteToTier_def registerTier_same Let_def)

lemma demote_same [simp]:
  "sv_registry (demoteToTier0 s) = sv_registry s" "sv_cache (demoteToTier0 s) = sv_cache s"
  "sv_outputs (demoteToTier0 s) = sv_outputs s"
  by (simp_all add: demoteToTier0_def RemoveTools_def Let_def)

lemma tools_ok_promote: "tools_ok s \<Longrightarrow> tools_ok (promoteToTier t s)"
  by (auto simp: tools_ok_def promoteToTier_def Let_def registerTier_simps tier1Tools_def)

lemma tools_ok_demote: "tools_ok s \<Longrightarrow> tools_ok (demoteToTier0 s)"
  using tier_names_disjoint(1,3) [of s] tier_names_disjoint(2)
  by (auto simp: tools_ok_def demoteToTier0_def Let_def RemoveTools_def tier1Tools_def)

section \<open>What resolving gives a handler\<close>

lemma readinessError_None:
  "readinessError sid s = None \<longleftrightarrow>
   (\<forall>p. getProgress sid s = Some p \<longrightarrow> pg_Stage p \<noteq> ''failed'' \<and> pg_Stage p \<notin> set inProgressStages)"
  by (cases "getProgress sid s") (auto simp: readinessError_def)

lemma resolveSession_Ret:
  assumes "resolveSession order sid s = (Ret ref, s')"
  shows "s' = s" and "\<exists>k. rg_sessions (sv_registry s) k = Some ref"
    and "sid \<noteq> [] \<Longrightarrow> rg_sessions (sv_registry s) sid = Some ref"
proof -
  show "s' = s" using assms
    by (auto simp: resolveSession_def Let_def split: if_splits option.splits list.splits)
  show "\<exists>k. rg_sessions (sv_registry s) k = Some ref"
  proof (cases "sid = []")
    case True
    then have "ref \<in> set (registry_List order (sv_registry s))"
      using assms by (auto simp: resolveSession_def Let_def split: if_splits option.splits list.splits)
    then show ?thesis by (auto simp: set_registry_List)
  next
    case False
    then show ?thesis using assms
      by (auto simp: resolveSession_def registry_Get_def split: option.splits)
  qed
  show "rg_sessions (sv_registry s) sid = Some ref" if "sid \<noteq> []"
    using that assms by (auto simp: resolveSession_def registry_Get_def split: option.splits)
qed

lemma session_of_on_registry:
  "session_of (on_registry (on_session ref f) s) ref' =
     (if ref' = ref then f (session_of s ref') else session_of s ref')"
  by (simp add: session_of_def on_registry_def on_session_def)

lemma session_of_leases [simp]: "session_of (s\<lparr>sv_leases := l\<rparr>) ref = session_of s ref"
  by (simp add: session_of_def)

lemma on_registry_simps [simp]:
  "sv_workers (on_registry f s) = sv_workers s" "sv_progress (on_registry f s) = sv_progress s"
  "sv_leases (on_registry f s) = sv_leases s" "sv_cache (on_registry f s) = sv_cache s"
  "sv_dbs (on_registry f s) = sv_dbs s" "sv_outputs (on_registry f s) = sv_outputs s"
  "sv_tools (on_registry f s) = sv_tools s" "sv_tier (on_registry f s) = sv_tier s"
  "sv_enablePyEval (on_registry f s) = sv_enablePyEval s" "sv_store (on_registry f s) = sv_store s"
  "sv_registry (on_registry f s) = f (sv_registry s)"
  by (simp_all add: on_registry_def)

text \<open>The state a handler starts from once its session is resolved.\<close>

definition leased :: "int \<Rightarrow> nat \<Rightarrow> 'db server \<Rightarrow> 'db server" where
  "leased now sess s =
     (on_registry (on_session sess AcquireInFlight) (on_registry (on_session sess (Touch now)) s))
       \<lparr>sv_leases := sess # sv_leases s\<rparr>"

lemma resolveClientDuringLoad_Ret:
  assumes "resolveClientDuringLoad E sid tool s = (Ret (sess, client), s')"
  shows "s' = leased (ev_now E) sess s" and "resolveSession (ev_order E) sid s = (Ret sess, s)"
    and "manager_GetClient (se_ID (session_of s sess)) (sv_workers s) = Ret client"
proof -
  obtain r s1 where r: "resolveSession (ev_order E) sid s = (Ret r, s1)"
    and k: "(let s = on_registry (on_session r (Touch (ev_now E))) s1
       in case manager_GetClient (se_ID (session_of s r)) (sv_workers s) of
            Err e \<Rightarrow> (Err (Ctx (tool @ '' worker client'') e), s)
          | Panic p \<Rightarrow> (Panic p, s)
          | Ret client \<Rightarrow>
              (Ret (r, client),
               (on_registry (on_session r AcquireInFlight) s)\<lparr>sv_leases := r # sv_leases s\<rparr>)) = (Ret (sess, client), s')"
    using assms unfolding resolveClientDuringLoad_def by (rule and_then_RetE)
  have s1: "s1 = s" using resolveSession_Ret(1) [OF r] .
  have "sess = r" "s' = leased (ev_now E) sess s"
    "manager_GetClient (se_ID (session_of s r)) (sv_workers s) = Ret client"
    using k by (auto simp: Let_def s1 leased_def session_of_on_registry session_ops_keep_key split: go.splits)
  with r s1 show "s' = leased (ev_now E) sess s" "resolveSession (ev_order E) sid s = (Ret sess, s)"
    "manager_GetClient (se_ID (session_of s sess)) (sv_workers s) = Ret client" by simp_all
qed

lemma leased_simps [simp]:
  "sv_workers (leased now sess s) = sv_workers s" "sv_progress (leased now sess s) = sv_progress s"
  "sv_cache (leased now sess s) = sv_cache s" "sv_dbs (leased now sess s) = sv_dbs s"
  "sv_leases (leased now sess s) = sess # sv_leases s"
  by (simp_all add: leased_def)

lemma session_of_leased:
  "session_of (leased now sess s) ref =
     (if ref = sess then AcquireInFlight (Touch now (session_of s ref)) else session_of s ref)"
  by (simp add: leased_def session_of_on_registry)

lemma se_ID_leased [simp]: "se_ID (session_of (leased now sess s) ref) = se_ID (session_of s ref)"
  by (simp add: session_of_leased session_ops_keep_key)

text \<open>A server with one session \<open>''a''\<close> at a given stage and one worker, for concrete instances.\<close>

definition one_session :: "(nat \<Rightarrow> 'db) \<Rightarrow> string \<Rightarrow> 'db server" where
  "one_session dbs stage =
     recordProgress 1 ''a'' stage ''working'' 1 4
       (New (\<lparr>rg_sessions = [''a'' \<mapsto> 0], rg_binaryIndex = [''/x'' \<mapsto> 0], rg_maxSessions = 0,
              rg_heap = (\<lambda>_. no_session\<lparr>se_ID := ''a'', se_BinaryPath := ''/x''\<rparr>), rg_next = 1\<rparr>)
            (NewManager\<lparr>mg_sessions := [''a'' \<mapsto> 0]\<rparr>) dbs 9 None)"

lemma one_session_simps:
  "rg_sessions (sv_registry (one_session dbs stage)) = [''a'' \<mapsto> 0]"
  "rg_binaryIndex (sv_registry (one_session dbs stage)) = [''/x'' \<mapsto> 0]"
  "session_of (one_session dbs stage) ref = no_session\<lparr>se_ID := ''a'', se_BinaryPath := ''/x''\<rparr>"
  "getProgress ''a'' (one_session dbs stage) =
     Some \<lparr>pg_Stage = stage, pg_Message = ''working'', pg_Progress = 1, pg_Total = 4, pg_UpdatedAt = 1\<rparr>"
  "mg_sessions (sv_workers (one_session dbs stage)) = [''a'' \<mapsto> 0]"
  "sv_leases (one_session dbs stage) = []" "sv_cache (one_session dbs stage) = Map.empty"
  "sv_dbs (one_session dbs stage) = dbs" "sv_tier (one_session dbs stage) = 0"
  by (simp_all add: one_session_def recordProgress_def New_def session_of_def getProgress_def)

lemma one_session_resolve:
  "resolveSession order ''a'' (one_session dbs stage) = (Ret 0, one_session dbs stage)"
  by (simp add: resolveSession_def registry_Get_def one_session_simps)

lemma one_session_load:
  "resolveClientDuringLoad E ''a'' tool (one_session dbs stage) = (Ret (0, 0), leased (ev_now E) 0 (one_session dbs stage))"
  by (simp add: resolveClientDuringLoad_def and_then_def one_session_resolve Let_def session_of_on_registry
      session_ops_keep_key manager_GetClient_def one_session_simps leased_def)

section \<open>Properties\<close>

text \<open>The calls that move the tiers.\<close>

datatype tier_op = Promote int | Demote

definition tier_apply :: "'db server \<Rightarrow> tier_op \<Rightarrow> 'db server" where
  "tier_apply s op = (case op of Promote t \<Rightarrow> promoteToTier t s | Demote \<Rightarrow> demoteToTier0 s)"

lemma tier_apply_run:
  "tools_ok s \<Longrightarrow> tools_ok (foldl tier_apply s ops) \<and>
   sv_enablePyEval (foldl tier_apply s ops) = sv_enablePyEval s"
proof (induction ops arbitrary: s)
  case (Cons op ops)
  have "sv_enablePyEval (tier_apply s op) = sv_enablePyEval s"
    by (auto simp: tier_apply_def promoteToTier_def demoteToTier0_def Let_def registerTier_simps RemoveTools_def
      split: tier_op.splits)
  moreover have "tools_ok (tier_apply s op)"
    using Cons.prems by (auto simp: tier_apply_def tools_ok_promote tools_ok_demote split: tier_op.splits)
  ultimately show ?case using Cons.IH by simp
qed simp

text \<open>Whatever the order of promotions and demotions, the tools a client can see are those of
  the current tier and of no other: three boot tools at tier 0, the read tools from tier 1, the
  write tools only at tier 2, and py_eval only when the operator enabled it.\<close>

theorem visible_tools_match_tier:
  "let s = foldl tier_apply (RegisterTools (SetSecurity h bind py roots (New registry workers dbs timeout store))) ops
   in set (sv_tools s) = set tier0ToolNames \<union> (if 1 \<le> sv_tier s then set (tier1Tools s) else {}) \<union>
        (if 2 \<le> sv_tier s then set tier2ToolNames else {}) \<and>
      (''py_eval'' \<in> set (sv_tools s) \<longleftrightarrow> py \<and> 1 \<le> sv_tier s) \<and>
      (''annotate_function'' \<in> set (sv_tools s) \<longleftrightarrow> 2 \<le> sv_tier s)"
proof -
  let ?s0 = "RegisterTools (SetSecurity h bind py roots (New registry workers dbs timeout store))"
  define t where "t = foldl tier_apply ?s0 ops"
  have ok0: "tools_ok ?s0" and py0: "sv_enablePyEval ?s0 = py"
    unfolding RegisterTools_def registerTier0_def tier0ToolNames_def [symmetric]
    by (simp_all add: tools_ok_def add_tools) (simp_all add: SetSecurity_def New_def)
  have ok: "tools_ok t" and py: "sv_enablePyEval t = py"
    using tier_apply_run [OF ok0, of ops] py0 by (simp_all add: t_def)
  have names: "''py_eval'' \<notin> set tier0ToolNames" "''py_eval'' \<notin> set tier1ToolNames" "''py_eval'' \<notin> set tier2ToolNames"
    "''annotate_function'' \<notin> set tier0ToolNames" "''annotate_function'' \<notin> set (tier1Tools t)"
    "''annotate_function'' \<in> set tier2ToolNames"
    by (auto simp: tier0ToolNames_def tier1Tools_def tier1ToolNames_def tier2ToolNames_def)
  then have "''py_eval'' \<in> set (tier1Tools t) \<longleftrightarrow> py" by (simp add: tier1Tools_def py)
  with ok names show ?thesis
    unfolding Let_def t_def [symmetric] tools_ok_def by (cases "1 \<le> sv_tier t"; cases "2 \<le> sv_tier t") auto
qed

text \<open>C9: the readiness gate. A tool behind resolveClient gets a session only when the session is
  registered, has a worker client, and is neither failed nor in a loading or analysis stage; in
  such a stage the caller gets the readiness error and nothing but the activity time and the
  lease of the session has changed.\<close>

theorem resolveClient_gates:
  "(case resolveClient E sid tool s of
      (Ret (sess, client), s') \<Rightarrow>
        (\<exists>k. registry_Get (sv_registry s) k = Some sess) \<and>
        manager_GetClient (se_ID (session_of s sess)) (sv_workers s) = Ret client \<and>
        (\<forall>p. getProgress (se_ID (session_of s sess)) s = Some p \<longrightarrow>
           pg_Stage p \<noteq> ''failed'' \<and> pg_Stage p \<notin> set inProgressStages) \<and>
        s' = leased (ev_now E) sess s
    | (Err e, s') \<Rightarrow>
        sv_cache s' = sv_cache s \<and> sv_dbs s' = sv_dbs s \<and> sv_progress s' = sv_progress s
    | (Panic p, s') \<Rightarrow> False)"
proof -
  have res: "snd (resolveSession (ev_order E) sid s) = s \<and> (\<forall>p. fst (resolveSession (ev_order E) sid s) \<noteq> Panic p)"
    by (auto simp: resolveSession_def Let_def split: option.splits list.splits)
  have load: "(case resolveClientDuringLoad E sid tool s of
      (Ret _, s') \<Rightarrow> True | (Err e, s') \<Rightarrow> sv_cache s' = sv_cache s \<and> sv_dbs s' = sv_dbs s \<and> sv_progress s' = sv_progress s
    | (Panic p, s') \<Rightarrow> False)"
    using res
    by (auto simp: resolveClientDuringLoad_def and_then_def Let_def manager_GetClient_def
      split: go.splits prod.splits option.splits)
  obtain r s1 where r: "resolveClientDuringLoad E sid tool s = (r, s1)" by force
  show ?thesis
  proof (cases r)
    case (Ret p)
    obtain sess client where p: "p = (sess, client)" by (cases p)
    note ok = resolveClientDuringLoad_Ret [OF r [unfolded Ret p]]
    have gate: "readinessError (se_ID (session_of s sess)) s1 = readinessError (se_ID (session_of s sess)) s"
      using ok(1) by (simp add: readinessError_def getProgress_def)
    have id: "se_ID (session_of s1 sess) = se_ID (session_of s sess)" using ok(1) by simp
    have reg: "\<exists>k. registry_Get (sv_registry s) k = Some sess"
      using resolveSession_Ret(2) [OF ok(2)] by (simp add: registry_Get_def)
    show ?thesis
    proof (cases "readinessError (se_ID (session_of s sess)) s")
      case None
      then have "\<forall>p. getProgress (se_ID (session_of s sess)) s = Some p \<longrightarrow>
           pg_Stage p \<noteq> ''failed'' \<and> pg_Stage p \<notin> set inProgressStages"
        by (simp add: readinessError_None)
      then show ?thesis using None gate id reg ok r Ret p
        by (simp add: resolveClient_def and_then_def)
    next
      case (Some e)
      then show ?thesis using gate id ok(1) r Ret p by (simp add: resolveClient_def and_then_def)
    qed
  next
    case (Err e)
    then show ?thesis using load r by (simp add: resolveClient_def and_then_def)
  next
    case (Panic p)
    then show ?thesis using load r by simp
  qed
qed

theorem resolveClient_gates_witness:
  "\<forall>E. \<exists>e. fst (resolveClient E ''a'' ''t'' (one_session (\<lambda>_. ()) ''warming'')) = Err e"
proof
  fix E :: "unit env"
  let ?s = "one_session (\<lambda>_. ()) ''warming''"
  obtain r s' where r: "resolveClient E ''a'' ''t'' ?s = (r, s')" by force
  have "r \<noteq> Ret p" for p
  proof
    assume p: "r = Ret p"
    obtain sess client where p': "p = (sess, client)" by (cases p)
    from resolveClient_gates [where E = E and sid = "''a''" and tool = "''t''" and s = ?s, unfolded r p p']
    obtain k where k: "registry_Get (sv_registry ?s) k = Some sess" and
      g: "\<forall>p. getProgress (se_ID (session_of ?s sess)) ?s = Some p \<longrightarrow> pg_Stage p \<notin> set inProgressStages" by auto
    from k have "sess = 0" by (simp add: one_session_simps registry_Get_def split: if_splits)
    with g show False by (simp add: one_session_simps inProgressStages_def)
  qed
  moreover have "r \<noteq> Panic p" for p using resolveClient_gates [where E = E and sid = "''a''" and tool = "''t''" and s = ?s] r by auto
  ultimately have "\<exists>e. r = Err e" by (cases r) auto
  then show "\<exists>e. fst (resolveClient E ''a'' ''t'' ?s) = Err e" using r by simp
qed



text \<open>One turn of the poll while the session is not ready.\<close>

definition poll_suffix :: "sessionProgress \<Rightarrow> string" where
  "poll_suffix p = '' ('' @ show_dec (round_half_even (percent (pg_Progress p) (pg_Total p))) @ ''%)''"

definition poll_once :: "int \<Rightarrow> string \<Rightarrow> sessionProgress \<Rightarrow> 'db server \<Rightarrow> 'db server" where
  "poll_once now sid p s =
     s\<lparr>sv_progress := (sv_progress s)(sid \<mapsto> p\<lparr>pg_Message := pg_Message p @ poll_suffix p, pg_UpdatedAt := now\<rparr>)\<rparr>"

lemma waitForReady_poll:
  assumes "getProgress sid s = Some p" and "pg_Stage p = ''failed'' \<or> pg_Stage p \<in> set inProgressStages"
    and "sid \<noteq> []" and "pr_session pr = sid"
  shows "\<exists>pr'. pr_session pr' = sid \<and>
     waitForReady now sid ticks pr s =
       (case ticks of [] \<Rightarrow> (Err (Msg ''context canceled''), poll_once now sid p s)
        | t # ticks \<Rightarrow> waitForReady now sid ticks pr' (t (poll_once now sid p s)))"
proof -
  have ne: "pg_Stage p \<noteq> []" using assms(2) by (auto simp: inProgressStages_def)
  have "readinessError sid s \<noteq> None"
    using assms(1,2) by (auto simp: readinessError_None)
  then obtain e where e: "readinessError sid s = Some e" by blast
  obtain n pr' s' where em: "Emit now (pg_Stage p) (pg_Message p @ poll_suffix p) (pg_Progress p) (pg_Total p) (pr, s) = (n, pr', s')"
    by (metis prod_cases3)
  have "pr_session pr' = sid \<and> s' = poll_once now sid p s"
    using em ne assms(3,4)
    by (cases p) (auto simp: Emit_def Let_def recordProgress_def poll_once_def split: if_splits)
  then show ?thesis
    using e assms(1) em
    by (intro exI [of _ pr']) (subst waitForReady.simps, simp add: poll_suffix_def Let_def split: list.split)
qed



text \<open>Polling spoils the message it reports. Each turn stores the message with the
  percentage appended and reads it back at the next turn, so after n turns without other
  progress it carries the percentage n times (and a fresh time stamp, although nothing moved).\<close>

theorem waitForReady_message_grows:
  assumes "getProgress sid s = Some p" and "pg_Stage p \<in> set inProgressStages" and "sid \<noteq> []" and "pr_session pr = sid"
  shows "getProgress sid (snd (waitForReady now sid (replicate n (\<lambda>u. u)) pr s)) =
     Some (p\<lparr>pg_Message := pg_Message p @ concat (replicate (Suc n) (poll_suffix p)), pg_UpdatedAt := now\<rparr>)"
  using assms
proof (induction n arbitrary: s p pr)
  case 0
  then show ?case using waitForReady_poll [of sid s p pr now "[]"]
    by (auto simp: getProgress_def poll_once_def)
next
  case (Suc n)
  let ?p = "p\<lparr>pg_Message := pg_Message p @ poll_suffix p, pg_UpdatedAt := now\<rparr>"
  obtain pr' where pr': "pr_session pr' = sid"
    "waitForReady now sid (replicate (Suc n) (\<lambda>u. u)) pr s = waitForReady now sid (replicate n (\<lambda>u. u)) pr' (poll_once now sid p s)"
    using waitForReady_poll [of sid s p pr now "replicate (Suc n) (\<lambda>u. u)"] Suc.prems by auto
  have "getProgress sid (poll_once now sid p s) = Some ?p" by (simp add: getProgress_def poll_once_def)
  then show ?case
    using Suc.IH [of "poll_once now sid p s" ?p pr'] pr' Suc.prems by (simp add: poll_suffix_def)
qed

theorem waitForReady_message_grows_witness:
  "map_option pg_Message (getProgress ''a'' (snd (waitForReady 9 ''a'' (replicate 1 (\<lambda>u. u))
     (newProgressReporter ''a'' True ''loading'')
     (recordProgress 1 ''a'' ''opening'' ''Loading'' 1 4 (New (NewRegistry 0) NewManager (\<lambda>_. ()) 9 None))))) =
   Some ''Loading (25%) (25%)''"
proof -
  let ?p = "\<lparr>pg_Stage = ''opening'', pg_Message = ''Loading'', pg_Progress = 1, pg_Total = 4, pg_UpdatedAt = 1\<rparr>"
  have "poll_suffix ?p = '' (25%)''"
    by (simp add: poll_suffix_def percent_def round_half_even_def Let_def show_dec_def show_base.simps digit_char_def)
       (simp add: char_of_def bit_0)
  then show ?thesis
    using waitForReady_message_grows [of "''a''" "recordProgress 1 ''a'' ''opening'' ''Loading'' 1 4
        (New (NewRegistry 0) NewManager (\<lambda>_. ()) 9 None)" ?p "newProgressReporter ''a'' True ''loading''" 9 1]
    by (simp add: getProgress_def recordProgress_def newProgressReporter_def inProgressStages_def numeral_2_eq_2)
qed

end
