(* ===== verification/Calls.thy ===== *)
theory Calls
  imports ServerState
begin

text \<open>
  How a handler talks to a worker: one RPC on the database of its client, the error ladders
  around it (transport error, error field, false \<open>success\<close>), and what a call and a cache
  operation leave unchanged. Shared by every tool handler.
\<close>

section \<open>Calling a worker\<close>

text \<open>One RPC on the database of the client. A transport error is an error value.\<close>

definition call :: "('q, 'a, 'db) rpc \<Rightarrow> 'q \<Rightarrow> nat \<Rightarrow> ('db server, 'a reply) step" where
  "call f q client s =
     (case f q (sv_dbs s client) of
        (Inl e, db) \<Rightarrow> (Err e, s\<lparr>sv_dbs := (sv_dbs s)(client := db)\<rparr>)
      | (Inr r, db) \<Rightarrow> (Ret r, s\<lparr>sv_dbs := (sv_dbs s)(client := db)\<rparr>))"

text \<open>The error field of a response, as a loader reports it.\<close>

definition reply_go :: "'a reply \<Rightarrow> 'a go" where
  "reply_go r = (if rp_Error r \<noteq> [] then Err (Msg (rp_Error r)) else Ret (rp_Msg r))"

definition call_checked :: "('q, 'a, 'db) rpc \<Rightarrow> 'q \<Rightarrow> nat \<Rightarrow> ('db server, 'a) step" where
  "call_checked f q client = and_then (call f q client) (\<lambda>r. lift (reply_go r))"

text \<open>The ladder of the handlers: both errors are logged under the name of the tool.\<close>

definition call_logged :: "string \<Rightarrow> ('q, 'a, 'db) rpc \<Rightarrow> 'q \<Rightarrow> nat \<Rightarrow> ('db server, 'a) step" where
  "call_logged tool f q client =
     catching (call f q client) (\<lambda>r.
       case r of
         Inl e \<Rightarrow> fail (Ctx (tool @ '' RPC'') e)
       | Inr r \<Rightarrow>
           if rp_Error r \<noteq> [] then fail (Ctx tool (Msg (rp_Error r))) else ret (rp_Msg r))"

definition call_success :: "string \<Rightarrow> ('q, bool, 'db) rpc \<Rightarrow> 'q \<Rightarrow> nat \<Rightarrow> ('db server, unit) step" where
  "call_success tool f q client =
     and_then (call_logged tool f q client) (\<lambda>success.
       if \<not> success then fail (Msg ''operation failed'') else ret ())"

section \<open>What a call and a cache operation may change\<close>

lemma on_cache_simps [simp]:
  "session_cache sid (on_cache sid f s) = f (session_cache sid s)"
  "sid' \<noteq> sid \<Longrightarrow> session_cache sid' (on_cache sid f s) = session_cache sid' s"
  "sv_dbs (on_cache sid f s) = sv_dbs s" "sv_progress (on_cache sid f s) = sv_progress s"
  "sv_registry (on_cache sid f s) = sv_registry s" "sv_workers (on_cache sid f s) = sv_workers s"
  "sv_leases (on_cache sid f s) = sv_leases s" "sv_outputs (on_cache sid f s) = sv_outputs s"
  "sv_tier (on_cache sid f s) = sv_tier s" "sv_tools (on_cache sid f s) = sv_tools s"
  "sv_store (on_cache sid f s) = sv_store s"
  by (simp_all add: on_cache_def session_cache_def)

lemma session_of_on_cache [simp]: "session_of (on_cache sid f s) ref = session_of s ref"
  by (simp add: session_of_def)

lemma session_cache_leased [simp]: "session_cache sid (leased now sess s) = session_cache sid s"
  by (simp add: session_cache_def)

text \<open>A call changes the database of its client and nothing else.\<close>

definition db_step :: "nat \<Rightarrow> 'db \<Rightarrow> 'db server \<Rightarrow> 'db server" where
  "db_step client db s = s\<lparr>sv_dbs := (sv_dbs s)(client := db)\<rparr>"

lemma db_step_simps [simp]:
  "sv_cache (db_step client db s) = sv_cache s" "session_cache sid (db_step client db s) = session_cache sid s"
  "sv_dbs (db_step client db s) = (sv_dbs s)(client := db)" "session_of (db_step client db s) ref = session_of s ref"
  "sv_progress (db_step client db s) = sv_progress s" "sv_registry (db_step client db s) = sv_registry s"
  "sv_leases (db_step client db s) = sv_leases s" "sv_workers (db_step client db s) = sv_workers s"
  "sv_tier (db_step client db s) = sv_tier s" "sv_tools (db_step client db s) = sv_tools s"
  "sv_outputs (db_step client db s) = sv_outputs s" "sv_store (db_step client db s) = sv_store s"
  by (simp_all add: db_step_def session_cache_def session_of_def)

lemma call_cases:
  "call f q client s =
     (case f q (sv_dbs s client) of (r, db) \<Rightarrow>
        ((case r of Inl e \<Rightarrow> Err e | Inr r \<Rightarrow> Ret r), db_step client db s))"
  by (simp add: call_def db_step_def split: prod.splits sum.splits)

lemma call_success_cases:
  "call_success tool f q client s =
     (case f q (sv_dbs s client) of (r, db) \<Rightarrow>
        ((case r of
            Inl e \<Rightarrow> Err (Ctx (tool @ '' RPC'') e)
          | Inr r \<Rightarrow>
              if rp_Error r \<noteq> [] then Err (Ctx tool (Msg (rp_Error r)))
              else if rp_Msg r then Ret () else Err (Msg ''operation failed'')),
         db_step client db s))"
  by (simp add: call_success_def call_logged_def catching_def and_then_def call_cases split: prod.splits sum.splits)

text \<open>A session that is ready is resolved at once, whoever asks.\<close>

lemma resolveClientWait_ready:
  assumes "resolveSession (ev_order E) sid s = (Ret sess, s)"
    and "manager_GetClient (se_ID (session_of s sess)) (sv_workers s) = Ret client"
    and "readinessError (se_ID (session_of s sess)) s = None"
  shows "resolveClientWait E W sid tool s = (Ret (sess, client), leased (ev_now E) sess s)"
proof -
  have load: "resolveClientDuringLoad E sid tool s = (Ret (sess, client), leased (ev_now E) sess s)"
    using assms(1,2)
    by (simp add: resolveClientDuringLoad_def and_then_def Let_def session_of_on_registry session_ops_keep_key leased_def)
  have "readinessError (se_ID (session_of s sess)) (leased (ev_now E) sess s) = None"
    using assms(3) by (simp add: readinessError_def getProgress_def)
  then show ?thesis by (simp add: resolveClientWait_def and_then_def load Let_def)
qed

section \<open>Steps that leave the caches alone\<close>

definition keeps_cache :: "('db server, 'a) step \<Rightarrow> bool" where
  "keeps_cache m \<longleftrightarrow> (\<forall>s. sv_cache (snd (m s)) = sv_cache s)"

lemma keeps_cache_and_then:
  assumes "keeps_cache m" and "\<And>a. keeps_cache (k a)"
  shows "keeps_cache (and_then m k)"
  unfolding keeps_cache_def
proof
  fix s
  have m: "sv_cache (snd (m s)) = sv_cache s" using assms(1) by (simp add: keeps_cache_def)
  obtain r s1 where "m s = (r, s1)" by force
  then show "sv_cache (snd (and_then m k s)) = sv_cache s"
    using m assms(2) by (cases r) (auto simp: and_then_def keeps_cache_def)
qed

lemma keeps_cache_simps: "keeps_cache (ret a)" "keeps_cache (fail e)" "keeps_cache (lift g)"
  by (simp_all add: keeps_cache_def)

lemma keeps_cache_calls:
  "keeps_cache (call f q client)" "keeps_cache (call_logged tool f q client)"
  "keeps_cache (call_success tool f q client)" "keeps_cache (call_checked f q client)"
  by (simp_all add: keeps_cache_def call_success_cases call_logged_def call_checked_def catching_def
      and_then_def call_cases reply_go_def split: prod.splits sum.splits go.splits)

lemma resolveSession_state [simp]: "snd (resolveSession order sid s) = s"
  by (auto simp: resolveSession_def Let_def split: option.splits list.splits)

lemma resolveClientDuringLoad_cache:
  fixes E :: "'db env"
  shows "keeps_cache (resolveClientDuringLoad E sid tool)"
  unfolding keeps_cache_def
proof
  fix s :: "'db server"
  obtain r where "resolveSession (ev_order E) sid s = (r, s)"
    using resolveSession_state [of "ev_order E" sid s] by (metis prod.collapse)
  then show "sv_cache (snd (resolveClientDuringLoad E sid tool s)) = sv_cache s"
    by (auto simp: resolveClientDuringLoad_def and_then_def Let_def manager_GetClient_def split: go.splits option.splits)
qed

lemma resolveClientWait_cache: "\<not> we_token W \<Longrightarrow> keeps_cache (resolveClientWait E W sid tool)"
  unfolding keeps_cache_def
proof
  fix s assume W: "\<not> we_token W"
  obtain r s1 where r: "resolveClientDuringLoad E sid tool s = (r, s1)" by force
  moreover have "sv_cache s1 = sv_cache s"
    using resolveClientDuringLoad_cache [of E sid tool] r by (metis keeps_cache_def snd_conv)
  ultimately show "sv_cache (snd (resolveClientWait E W sid tool s)) = sv_cache s"
    using W by (cases r) (auto simp: resolveClientWait_def and_then_def Let_def split: option.splits)
qed

lemma recordProgress_simps [simp]:
  "sv_registry (recordProgress now sid st m p t s) = sv_registry s" "sv_workers (recordProgress now sid st m p t s) = sv_workers s"
  "sv_dbs (recordProgress now sid st m p t s) = sv_dbs s" "sv_cache (recordProgress now sid st m p t s) = sv_cache s"
  "sv_leases (recordProgress now sid st m p t s) = sv_leases s" "sv_tier (recordProgress now sid st m p t s) = sv_tier s"
  "sv_tools (recordProgress now sid st m p t s) = sv_tools s" "sv_outputs (recordProgress now sid st m p t s) = sv_outputs s"
  "sv_store (recordProgress now sid st m p t s) = sv_store s" "sv_enablePyEval (recordProgress now sid st m p t s) = sv_enablePyEval s"
  "session_of (recordProgress now sid st m p t s) ref = session_of s ref"
  by (simp_all add: recordProgress_def session_of_def)

section \<open>What every handler keeps\<close>

text \<open>The contract of an invariant with the operations handlers are built from. A client of the
  contract is a handler: it keeps every such invariant. The provider is an invariant of the
  server state: it shows the laws once per primitive.\<close>

definition cache_op :: "(sessionCache \<Rightarrow> sessionCache) \<Rightarrow> bool" where
  "cache_op f \<longleftrightarrow> (\<forall>c. cache_inv c \<longrightarrow> cache_inv (f c))"

lemma cache_ops [intro!, simp]:
  "cache_op invalidateFunctions" "cache_op (invalidateDecomp a)" "cache_op invalidateAllDecomp"
  "cache_op invalidateAllXRefs" "cache_op (setXRefs a x)" "cache_op (markVisited a t n)" "cache_op (setNote a t n)"
  "cache_op (setDecomp a code)" "cache_op (\<lambda>c. snd (getDecomp a c))"
  "cache_op (\<lambda>c. snd (invalidateDecompByOldName name c))"
  by (simp_all add: cache_op_def invalidateDecomp_spec invalidateAllDecomp_spec setDecomp_spec getDecomp_spec
      invalidateDecompByOldName_spec)

locale stable_state =
  fixes I :: "'db server \<Rightarrow> bool"
  assumes db: "I s \<Longrightarrow> I (db_step client db s)"
    and progress: "I s \<Longrightarrow> I (recordProgress now sid stage msg cur tot s)"
    and cache: "I s \<Longrightarrow> cache_op f \<Longrightarrow> I (on_cache sid f s)"
begin

lemma and_then_keeps:
  "keeps I m \<Longrightarrow> I s \<Longrightarrow> (\<And>a s1. I s1 \<Longrightarrow> I (snd (k a s1))) \<Longrightarrow> I (snd (and_then m k s))"
  by (fastforce simp: keeps_def and_then_def split: prod.splits go.splits)

lemma catching_keeps:
  "keeps I m \<Longrightarrow> I s \<Longrightarrow> (\<And>a s1. I s1 \<Longrightarrow> I (snd (k a s1))) \<Longrightarrow> I (snd (catching m k s))"
  by (fastforce simp: keeps_def catching_def split: prod.splits go.splits)

lemma keeps_call: "keeps I (call f q client)"
  by (auto simp: keeps_def call_cases intro: db split: prod.splits)

lemma keeps_call_checked: "keeps I (call_checked f q client)"
  unfolding call_checked_def by (auto intro!: keeps_intros keeps_call)

lemma keeps_call_logged: "keeps I (call_logged tool f q client)"
  unfolding call_logged_def by (auto intro!: keeps_intros keeps_call split: sum.splits)

lemma keeps_call_success: "keeps I (call_success tool f q client)"
  unfolding call_success_def by (auto intro!: keeps_intros keeps_call_logged)

lemmas keeps_call_ladders = keeps_call_checked keeps_call_logged keeps_call_success

lemma keeps_Emit: "I s \<Longrightarrow> I (snd (snd (Emit now stage msg cur tot (p, s))))"
  by (auto simp: Emit_def Let_def intro: progress)

lemma keeps_Emit_eq: "snd (Emit now stage msg cur tot (p, s)) = (p', s') \<Longrightarrow> I s \<Longrightarrow> I s'"
  using keeps_Emit [of s now stage msg cur tot p] by simp

lemma keeps_emitProgress: "I s \<Longrightarrow> I (emitProgress now p sid stage msg cur tot s)"
  by (auto simp: emitProgress_def intro: progress keeps_Emit split: option.splits)

lemma keeps_getSessionCache: "I s \<Longrightarrow> I (getSessionCache sid s)"
  using cache [of s "\<lambda>c. c" sid] by (simp add: getSessionCache_def on_cache_def cache_op_def)

text \<open>While a request waits, the other goroutines run.\<close>

lemma keeps_waitForReady:
  "(\<And>t s. t \<in> set ticks \<Longrightarrow> I s \<Longrightarrow> I (t s)) \<Longrightarrow> I s \<Longrightarrow> I (snd (waitForReady now sid ticks p s))"
proof (induction ticks arbitrary: p s)
  case Nil
  then show ?case
    by (subst waitForReady.simps) (auto simp: Let_def split: option.splits prod.splits intro: keeps_Emit_eq)
next
  case (Cons t ticks)
  have t: "I s' \<Longrightarrow> I (t s')" for s' using Cons.prems(1) by simp
  have IH: "I s' \<Longrightarrow> I (snd (waitForReady now sid ticks p' s'))" for p' s'
    using Cons.prems(1) by (intro Cons.IH) auto
  show ?case
    using Cons.prems(2)
    by (subst waitForReady.simps) (auto simp: Let_def intro: IH t keeps_Emit_eq split: option.splits prod.splits)
qed

end

locale stable_session = stable_state +
  assumes touch: "I s \<Longrightarrow> I (on_registry (on_session sess (Touch now)) s)"
    and lease: "I s \<Longrightarrow> I ((on_registry (on_session sess AcquireInFlight) s)\<lparr>sv_leases := l\<rparr>)"
begin

lemma keeps_resolveSession: "keeps I (resolveSession order sid)"
  by (simp add: keeps_def)

lemma keeps_resolveClientDuringLoad: "keeps I (resolveClientDuringLoad E sid tool)"
  unfolding resolveClientDuringLoad_def
  by (rule keeps_and_then [OF keeps_resolveSession])
    (auto simp: keeps_def Let_def intro: touch lease split: go.splits)

lemma keeps_resolveClient: "keeps I (resolveClient E sid tool)"
  unfolding resolveClient_def
  by (rule keeps_and_then [OF keeps_resolveClientDuringLoad]) (auto simp: keeps_def split: option.splits)

lemma keeps_resolveClientWait:
  assumes "\<And>t s. t \<in> set (we_ticks W) \<Longrightarrow> I s \<Longrightarrow> I (t s)"
  shows "keeps I (resolveClientWait E W sid tool)"
proof -
  have wait: "waitForReady now sid' (we_ticks W) p s = (r, s') \<Longrightarrow> I s \<Longrightarrow> I s'" for now sid' p s r s'
    using keeps_waitForReady [where ticks = "we_ticks W" and s = s and now = now and sid = sid' and p = p] assms
    by (metis snd_conv)
  show ?thesis
    unfolding resolveClientWait_def
    by (rule keeps_and_then [OF keeps_resolveClientDuringLoad])
      (auto simp: keeps_def Let_def intro: wait split: option.splits prod.splits go.splits)
qed

end

text \<open>No call, progress report or cache operation touches the registry or the workers.\<close>

interpretation registry_same: stable_state "\<lambda>s. sv_registry s = R \<and> sv_workers s = M" for R M
  by unfold_locales simp_all

text \<open>The guards of the analysis passes, which resolving a session does not touch either.\<close>

definition analysis_flags :: "'db server \<Rightarrow> nat \<Rightarrow> bool" where
  "analysis_flags s ref = se_analysisActive (session_of s ref)"

interpretation flags_same: stable_session "\<lambda>s. analysis_flags s = F" for F
  by unfold_locales
    (auto simp: analysis_flags_def fun_eq_iff session_of_on_registry session_of_def [of "on_cache _ _ _"] session_of_def [symmetric]
      Touch_def AcquireInFlight_def)

end
