(* ===== verification/Parallel.thy ===== *)
theory Parallel
  imports Prelude "HOL-Library.Multiset"
begin

text \<open>
  The helpers that run tasks concurrently (internal/server/parallel.go). A task is one step: the
  tasks of the program block on a worker call or on the lock of a cache. The scheduler is an
  argument, the order in which the tasks run; the theorem shows what does not depend on it.
\<close>

section \<open>Schedules\<close>

text \<open>The tasks in the order the scheduler names them, those it does not name last.\<close>

definition in_schedule :: "'k list \<Rightarrow> ('k \<times> 't) list \<Rightarrow> ('k \<times> 't) list" where
  "in_schedule order tasks =
     concat (map (\<lambda>k. filter (\<lambda>t. fst t = k) tasks) (remdups order)) @ filter (\<lambda>t. fst t \<notin> set order) tasks"

lemma mset_in_schedule: "mset (in_schedule order tasks) = mset tasks"
proof -
  have "mset (concat (map (\<lambda>k. filter (\<lambda>t. fst t = k) tasks) ks)) = filter_mset (\<lambda>t. fst t \<in> set ks) (mset tasks)"
    if "distinct ks" for ks
    using that
  proof (induction ks)
    case (Cons k ks)
    then have "k \<notin> set ks" by simp
    then have "filter_mset (\<lambda>t. fst t = k \<or> fst t \<in> set ks) (mset tasks) =
        filter_mset (\<lambda>t. fst t = k) (mset tasks) + filter_mset (\<lambda>t. fst t \<in> set ks) (mset tasks)"
      by (induction tasks) auto
    then show ?case using Cons by simp
  qed simp
  from this [of "remdups order"] show ?thesis
    by (simp add: in_schedule_def)
qed

lemma in_schedule_perm:
  "set (in_schedule order tasks) = set tasks" "length (in_schedule order tasks) = length tasks"
  "distinct (map fst (in_schedule order tasks)) \<longleftrightarrow> distinct (map fst tasks)"
proof -
  have m: "mset (in_schedule order tasks) = mset tasks" by (rule mset_in_schedule)
  show "set (in_schedule order tasks) = set tasks" "length (in_schedule order tasks) = length tasks"
    using m by (metis set_mset_mset, metis size_mset)
  have "mset (map fst (in_schedule order tasks)) = mset (map fst tasks)" using m by simp
  then show "distinct (map fst (in_schedule order tasks)) \<longleftrightarrow> distinct (map fst tasks)"
    by (metis mset_eq_imp_distinct_iff)
qed

definition in_index_order :: "nat list \<Rightarrow> nat \<Rightarrow> nat list" where
  "in_index_order order n =
     filter (\<lambda>i. i < n) (remdups order) @ filter (\<lambda>i. i \<notin> set order) [0..<n]"

lemma in_index_order_perm: "distinct (in_index_order order n)" "set (in_index_order order n) = {..<n}"
  by (auto simp: in_index_order_def)

section \<open>runLabeled\<close>

text \<open>The collector puts each outcome into the map of results or into the map of errors.\<close>

definition collect_labeled ::
  "'k \<Rightarrow> gerr + 'v \<Rightarrow> ('k \<rightharpoonup> 'v) \<times> ('k \<rightharpoonup> gerr) \<Rightarrow> ('k \<rightharpoonup> 'v) \<times> ('k \<rightharpoonup> gerr)" where
  "collect_labeled key r = (\<lambda>(results, errs).
     case r of Inl e \<Rightarrow> (results, errs(key \<mapsto> e)) | Inr v \<Rightarrow> (results(key \<mapsto> v), errs))"

fun run_tasks ::
  "('k \<times> ('s, 'v) step) list \<Rightarrow> ('k \<rightharpoonup> 'v) \<times> ('k \<rightharpoonup> gerr) \<Rightarrow> ('s, ('k \<rightharpoonup> 'v) \<times> ('k \<rightharpoonup> gerr)) step" where
  "run_tasks [] acc = ret acc"
| "run_tasks ((key, fn) # tasks) acc = catching fn (\<lambda>r. run_tasks tasks (collect_labeled key r acc))"

definition runLabeled ::
  "'k list \<Rightarrow> ('k \<times> ('s, 'v) step) list \<Rightarrow> ('s, ('k \<rightharpoonup> 'v) \<times> ('k \<rightharpoonup> gerr)) step" where
  "runLabeled order tasks = run_tasks (in_schedule order tasks) (Map.empty, Map.empty)"

section \<open>parallelMap\<close>

text \<open>Each goroutine writes its own index of the result slice; \<open>zero\<close> is the zero value of an
  element.\<close>

fun run_indices :: "('a \<Rightarrow> 's \<Rightarrow> 'b \<times> 's) \<Rightarrow> 'a list \<Rightarrow> nat list \<Rightarrow> 'b list \<Rightarrow> 's \<Rightarrow> 'b list \<times> 's" where
  "run_indices fn items [] results s = (results, s)"
| "run_indices fn items (i # order) results s =
     (let (r, s) = fn (items ! i) s in run_indices fn items order (results[i := r]) s)"

definition parallelMap :: "nat list \<Rightarrow> 'b \<Rightarrow> ('a \<Rightarrow> 's \<Rightarrow> 'b \<times> 's) \<Rightarrow> 'a list \<Rightarrow> 's \<Rightarrow> 'b list \<times> 's" where
  "parallelMap order zero fn items s =
     run_indices fn items (in_index_order order (length items)) (replicate (length items) zero) s"

lemma keeps_run_tasks: "(\<And>k f. (k, f) \<in> set ts \<Longrightarrow> keeps I f) \<Longrightarrow> keeps I (run_tasks ts acc)"
proof (induction ts arbitrary: acc)
  case (Cons t ts)
  obtain k f where t: "t = (k, f)" by (cases t)
  show ?case unfolding t run_tasks.simps using Cons t by (intro keeps_catching Cons.IH) auto
qed (simp add: keeps_ret)

lemma keeps_runLabeled [keeps_intros]:
  "(\<And>k f. (k, f) \<in> set tasks \<Longrightarrow> keeps I f) \<Longrightarrow> keeps I (runLabeled order tasks)"
  unfolding runLabeled_def by (rule keeps_run_tasks) (simp add: in_schedule_perm)

lemma run_indices_keeps:
  "(\<And>x s. I s \<Longrightarrow> I (snd (fn x s))) \<Longrightarrow> I s \<Longrightarrow> I (snd (run_indices fn items order results s))"
  by (induction fn items order results s rule: run_indices.induct) (auto split: prod.splits, metis snd_conv)

lemma parallelMap_keeps:
  "(\<And>x s. I s \<Longrightarrow> I (snd (fn x s))) \<Longrightarrow> I s \<Longrightarrow> I (snd (parallelMap order zero fn items s))"
  unfolding parallelMap_def by (rule run_indices_keeps)

section \<open>What does not depend on the schedule\<close>

text \<open>Two tasks are independent when either order gives both the same outcomes and the same state.\<close>

definition independent :: "('s, 'v) step \<Rightarrow> ('s, 'v) step \<Rightarrow> bool" where
  "independent f g \<longleftrightarrow>
     (\<forall>s. fst (g (snd (f s))) = fst (g s) \<and> fst (f (snd (g s))) = fst (f s) \<and> snd (g (snd (f s))) = snd (f (snd (g s))))"

definition no_panic :: "('s, 'v) step \<Rightarrow> bool" where
  "no_panic f \<longleftrightarrow> (\<forall>s p. fst (f s) \<noteq> Panic p)"

definition outcome :: "('s, 'v) step \<Rightarrow> 's \<Rightarrow> gerr + 'v" where
  "outcome f s = (case fst (f s) of Err e \<Rightarrow> Inl e | Ret v \<Rightarrow> Inr v | Panic p \<Rightarrow> Inl (Msg ''panic''))"

lemma run_tasks_Cons:
  "no_panic f \<Longrightarrow> run_tasks ((k, f) # ts) acc s = run_tasks ts (collect_labeled k (outcome f s) acc) (snd (f s))"
proof -
  assume f: "no_panic f"
  obtain r s' where "f s = (r, s')" by force
  then show ?thesis using f
    by (cases r) (auto simp: catching_def outcome_def no_panic_def, metis fst_conv)
qed

lemma run_tasks_sequential:
  "\<forall>(k, f) \<in> set ts. no_panic f \<Longrightarrow> pairwise (\<lambda>p q. independent (snd p) (snd q)) (set ts) \<Longrightarrow> distinct (map fst ts) \<Longrightarrow>
   run_tasks ts (results, errs) s =
     (Ret (\<lambda>k. case map_of ts k of Some f \<Rightarrow> (case outcome f s of Inr v \<Rightarrow> Some v | Inl _ \<Rightarrow> results k) | None \<Rightarrow> results k,
           \<lambda>k. case map_of ts k of Some f \<Rightarrow> (case outcome f s of Inl e \<Rightarrow> Some e | Inr _ \<Rightarrow> errs k) | None \<Rightarrow> errs k),
      fold (\<lambda>p s. snd (snd p s)) ts s)"
proof (induction ts arbitrary: results errs s)
  case Nil
  then show ?case by simp
next
  case (Cons t ts)
  obtain k f where t: "t = (k, f)" by (cases t)
  define results' where "results' = (case outcome f s of Inr v \<Rightarrow> results(k \<mapsto> v) | Inl _ \<Rightarrow> results)"
  define errs' where "errs' = (case outcome f s of Inl e \<Rightarrow> errs(k \<mapsto> e) | Inr _ \<Rightarrow> errs)"
  have acc: "collect_labeled k (outcome f s) (results, errs) = (results', errs')"
    by (simp add: collect_labeled_def results'_def errs'_def split: sum.splits)
  have f: "no_panic f" using Cons.prems(1) t by simp
  have k: "map_of ts k = None" using Cons.prems(3) t by (simp add: map_of_eq_None_iff)
  have out: "outcome g (snd (f s)) = outcome g s" if "map_of ts k' = Some g" for k' g
  proof -
    have "(k', g) \<in> set ts" using that by (rule map_of_SomeD)
    then have "independent f g" using Cons.prems(2,3) t by (force simp: pairwise_def)
    then show ?thesis by (simp add: independent_def outcome_def)
  qed
  have IH: "run_tasks ts (results', errs') (snd (f s)) =
     (Ret (\<lambda>k. case map_of ts k of Some f' \<Rightarrow> (case outcome f' (snd (f s)) of Inr v \<Rightarrow> Some v | Inl _ \<Rightarrow> results' k) | None \<Rightarrow> results' k,
           \<lambda>k. case map_of ts k of Some f' \<Rightarrow> (case outcome f' (snd (f s)) of Inl e \<Rightarrow> Some e | Inr _ \<Rightarrow> errs' k) | None \<Rightarrow> errs' k),
      fold (\<lambda>p s. snd (snd p s)) ts (snd (f s)))"
    using Cons.prems by (intro Cons.IH) (auto simp: pairwise_insert)
  show ?case
    unfolding t run_tasks_Cons [OF f] acc IH
    using k by (auto simp: fun_eq_iff results'_def errs'_def out split: option.splits sum.splits)
qed

lemma fold_independent:
  assumes "mset ts = mset us" and "pairwise (\<lambda>p q. independent (snd p) (snd q)) (set ts)" and "distinct ts"
  shows "fold (\<lambda>p s. snd (snd p s)) ts s = fold (\<lambda>p s. snd (snd p s)) us s"
proof -
  have "fold (\<lambda>p s. snd (snd p s)) ts = fold (\<lambda>p s. snd (snd p s)) us"
  proof (rule fold_multiset_equiv [OF _ assms(1) [symmetric], symmetric])
    fix p q assume pq: "p \<in> set us" "q \<in> set us"
    have "set us = set ts" using assms(1) by (metis set_mset_mset)
    then show "(\<lambda>s. snd (snd p s)) \<circ> (\<lambda>s. snd (snd q s)) = (\<lambda>s. snd (snd q s)) \<circ> (\<lambda>s. snd (snd p s))"
      using pq assms(2) by (cases "p = q") (auto simp: fun_eq_iff pairwise_def independent_def)
  qed
  then show ?thesis by simp
qed

lemma run_tasks_partition:
  assumes "run_tasks ts (results, errs) s = (Ret (results', errs'), s')" and "distinct (map fst ts)"
    and "dom results \<inter> dom errs = {}" and "(dom results \<union> dom errs) \<inter> fst ` set ts = {}"
  shows "dom results' \<inter> dom errs' = {} \<and> dom results' \<union> dom errs' = dom results \<union> dom errs \<union> fst ` set ts"
  using assms
proof (induction ts arbitrary: results errs s)
  case Nil
  then show ?case by simp
next
  case (Cons t ts)
  obtain k f where t: "t = (k, f)" by (cases t)
  obtain r s1 where r: "f s = (r, s1)" by force
  obtain x where x: "run_tasks ts (collect_labeled k x (results, errs)) s1 = (Ret (results', errs'), s')"
    using Cons.prems(1) r t by (cases r) (auto simp: catching_def)
  obtain results1 errs1 where c: "collect_labeled k x (results, errs) = (results1, errs1)" by force
  have new: "k \<notin> fst ` set ts" "k \<notin> dom results" "k \<notin> dom errs"
    using Cons.prems(2,4) unfolding t by simp_all
  have add: "k \<notin> A \<Longrightarrow> k \<notin> B \<Longrightarrow> A \<inter> B = {} \<Longrightarrow> A \<inter> insert k B = {} \<and> A \<union> insert k B = insert k (A \<union> B)"
    "k \<notin> A \<Longrightarrow> k \<notin> B \<Longrightarrow> A \<inter> B = {} \<Longrightarrow> insert k A \<inter> B = {} \<and> insert k A \<union> B = insert k (A \<union> B)" for A B
    by auto
  have both: "dom results1 \<inter> dom errs1 = {} \<and> dom results1 \<union> dom errs1 = insert k (dom results \<union> dom errs)"
  proof (cases x)
    case (Inl e)
    with c have "results1 = results" "dom errs1 = insert k (dom errs)" by (auto simp: collect_labeled_def)
    then show ?thesis using add(1) [OF new(2,3) Cons.prems(3)] by simp
  next
    case (Inr v)
    with c have "errs1 = errs" "dom results1 = insert k (dom results)" by (auto simp: collect_labeled_def)
    then show ?thesis using add(2) [OF new(2,3) Cons.prems(3)] by simp
  qed
  note disj = both [THEN conjunct1] and all = both [THEN conjunct2]
  have "(dom results1 \<union> dom errs1) \<inter> fst ` set ts = {}"
    using all new(1) Cons.prems(4) unfolding t by auto
  then have "dom results' \<inter> dom errs' = {} \<and> dom results' \<union> dom errs' = dom results1 \<union> dom errs1 \<union> fst ` set ts"
    using Cons.prems(2) unfolding t by (intro Cons.IH [OF x [unfolded c] _ disj]) simp_all
  then show ?case unfolding all t by simp
qed



section \<open>parallelMap is map\<close>

lemma run_indices_other:
  "i \<notin> set order \<Longrightarrow> fst (run_indices fn items order results s) ! i = results ! i"
  by (induction fn items order results s rule: run_indices.induct) (auto split: prod.splits)

lemma run_indices_length: "length (fst (run_indices fn items order results s)) = length results"
  by (induction fn items order results s rule: run_indices.induct) (auto split: prod.splits)

lemma run_indices_nth:
  "distinct order \<Longrightarrow> i \<in> set order \<Longrightarrow> i < length results \<Longrightarrow>
   \<exists>t. fst (run_indices fn items order results s) ! i = fst (fn (items ! i) t)"
proof (induction order arbitrary: results s)
  case (Cons j order)
  then show ?case
    by (cases "i = j") (auto simp: run_indices_other split: prod.splits, metis fst_conv)
qed simp

lemma parallelMap_nth:
  "i < length items \<Longrightarrow> \<exists>t. fst (parallelMap order zero fn items s) ! i = fst (fn (items ! i) t)"
  "length (fst (parallelMap order zero fn items s)) = length items"
  unfolding parallelMap_def
  using run_indices_nth [of "in_index_order order (length items)" i "replicate (length items) zero"]
  by (auto simp: in_index_order_perm run_indices_length)

lemma parallelMap_map:
  assumes "\<And>x t. fst (fn x t) = g x"
  shows "fst (parallelMap order zero fn items s) = map g items"
proof (rule nth_equalityI)
  show "length (fst (parallelMap order zero fn items s)) = length (map g items)"
    by (simp add: parallelMap_nth)
  show "fst (parallelMap order zero fn items s) ! i = map g items ! i"
    if "i < length (fst (parallelMap order zero fn items s))" for i
    using that parallelMap_nth [where items = items and order = order and zero = zero and fn = fn and s = s] assms
    by (metis nth_map)
qed

end
