(* ===== verification/Fetch.thy ===== *)
theory Fetch
  imports Calls Parallel Paging
begin

text \<open>
  The enumerations of a worker and their caching (internal/server/cache.go: fetchAllStrings,
  fetchWithProgress, fetchAllFunctions, fetchAllImports, fetchAllExports, the loadX methods and
  warmSessionCache). A loader runs while the mutex of the cache is held, so a load is one step.
  The string enumeration goes page by page; the context of the call bounds the number of pages
  (\<open>sch_pages\<close>), and the page after the last fails with the error of the context.
\<close>

section \<open>Progress of an enumeration\<close>

text \<open>\<open>if progress != nil\<close>: the reporter records, and nothing happens without one.\<close>

definition emit_if :: "int \<Rightarrow> progressReporter option \<Rightarrow> string \<Rightarrow> string \<Rightarrow> rat \<Rightarrow> rat \<Rightarrow> 'db server \<Rightarrow> 'db server" where
  "emit_if now progress stage message cur tot s =
     (case progress of None \<Rightarrow> s | Some p \<Rightarrow> snd (snd (Emit now stage message cur tot (p, s))))"

section \<open>Enumerations\<close>

fun fetch_strings_loop ::
  "'db env \<Rightarrow> nat \<Rightarrow> progressReporter option \<Rightarrow> nat \<Rightarrow> StringItem list \<Rightarrow> int \<Rightarrow> rat \<Rightarrow> ('db server, StringItem list) step" where
  "fetch_strings_loop E client progress pages all offset tot s =
     (let emit = (\<lambda>msg n. emit_if (ev_now E) progress ''get_strings'' msg (of_nat n)) in
      case pages of
        0 \<Rightarrow>
          let err = sch_ctxErr (ev_sched E)
          in (Err err, emit (''Failed to enumerate strings: '' @ err_text (ev_quote E) err) (length all) tot s)
      | Suc pages \<Rightarrow>
          (case call (w_GetStrings (wa_list (ev_worker E))) (int32 offset, int32 defaultPageLimit) client s of
             (Panic p, s) \<Rightarrow> (Panic p, s)
           | (Err err, s) \<Rightarrow>
               (Err err, emit (''Failed to enumerate strings: '' @ err_text (ev_quote E) err) (length all) tot s)
           | (Ret resp, s) \<Rightarrow>
               if rp_Error resp \<noteq> [] then
                 (Err (Msg (rp_Error resp)), emit (''IDA error enumerating strings: '' @ rp_Error resp) (length all) tot s)
               else
                 let (respTotal, chunk) = rp_Msg resp;
                     all = all @ chunk;
                     tot = (if tot = 0 \<and> 0 < respTotal then of_int respTotal else tot);
                     s = emit (''Enumerated '' @ show_dec (int (length all)) @ '' strings'') (length all) tot s
                 in if int (length chunk) < defaultPageLimit then
                      (Ret all, emit ''String enumeration complete'' (length all) tot s)
                    else fetch_strings_loop E client progress pages all (offset + int (length chunk)) tot s))"

declare fetch_strings_loop.simps [simp del]

definition fetchAllStrings :: "'db env \<Rightarrow> nat \<Rightarrow> progressReporter option \<Rightarrow> ('db server, StringItem list) step" where
  "fetchAllStrings E client progress = fetch_strings_loop E client progress (sch_pages (ev_sched E)) [] 0 0"

definition fetchWithProgress ::
  "'db env \<Rightarrow> progressReporter option \<Rightarrow> string \<Rightarrow> string \<Rightarrow> ('db server, 'a list) step \<Rightarrow> ('db server, 'a list) step" where
  "fetchWithProgress E progress eventName noun fetch s =
     (let emit = emit_if (ev_now E) progress eventName;
          s = emit (''Fetching '' @ noun @ '' from IDA'') 0 0 s
      in case fetch s of
           (Panic p, s) \<Rightarrow> (Panic p, s)
         | (Err err, s) \<Rightarrow> (Err err, emit (''Failed to fetch '' @ noun @ '': '' @ err_text (ev_quote E) err) 0 0 s)
         | (Ret items, s) \<Rightarrow>
             (Ret items,
              emit (''Fetched '' @ show_dec (int (length items)) @ '' '' @ noun)
                (of_nat (length items)) (of_nat (length items)) s))"

definition fetchAllFunctions :: "'db env \<Rightarrow> nat \<Rightarrow> progressReporter option \<Rightarrow> ('db server, Function list) step" where
  "fetchAllFunctions E client progress =
     fetchWithProgress E progress ''get_functions'' ''functions''
       (call_checked (w_GetFunctions (wa_list (ev_worker E))) () client)"

definition fetchAllImports :: "'db env \<Rightarrow> nat \<Rightarrow> progressReporter option \<Rightarrow> ('db server, Import list) step" where
  "fetchAllImports E client progress =
     fetchWithProgress E progress ''get_imports'' ''imports''
       (call_checked (w_GetImports (wa_list (ev_worker E))) () client)"

definition fetchAllExports :: "'db env \<Rightarrow> nat \<Rightarrow> progressReporter option \<Rightarrow> ('db server, Export list) step" where
  "fetchAllExports E client progress =
     fetchWithProgress E progress ''get_exports'' ''exports''
       (call_checked (w_GetExports (wa_list (ev_worker E))) () client)"

section \<open>The loadX methods\<close>

text \<open>loadCached on one slot of the cache of a session.\<close>

definition load_slot ::
  "(sessionCache \<Rightarrow> 'a list option) \<Rightarrow> ('a list option \<Rightarrow> sessionCache \<Rightarrow> sessionCache) \<Rightarrow> string \<Rightarrow>
   ('db server, 'a list) step \<Rightarrow> ('db server, 'a list \<times> bool) step" where
  "load_slot get put sid loader s =
     (case loadCached loader (get (session_cache sid s)) s of
        (r, slot, s) \<Rightarrow> (r, on_cache sid (put slot) s))"

definition loadStrings :: "string \<Rightarrow> ('db server, StringItem list) step \<Rightarrow> ('db server, StringItem list \<times> bool) step" where
  "loadStrings = load_slot sc_strings (\<lambda>v c. c\<lparr>sc_strings := v\<rparr>)"

definition loadFunctions :: "string \<Rightarrow> ('db server, Function list) step \<Rightarrow> ('db server, Function list \<times> bool) step" where
  "loadFunctions = load_slot sc_functions (\<lambda>v c. c\<lparr>sc_functions := v\<rparr>)"

definition loadImports :: "string \<Rightarrow> ('db server, Import list) step \<Rightarrow> ('db server, Import list \<times> bool) step" where
  "loadImports = load_slot sc_imports (\<lambda>v c. c\<lparr>sc_imports := v\<rparr>)"

definition loadExports :: "string \<Rightarrow> ('db server, Export list) step \<Rightarrow> ('db server, Export list \<times> bool) step" where
  "loadExports = load_slot sc_exports (\<lambda>v c. c\<lparr>sc_exports := v\<rparr>)"

definition loadSegments :: "string \<Rightarrow> ('db server, Segment list) step \<Rightarrow> ('db server, Segment list \<times> bool) step" where
  "loadSegments = load_slot sc_segments (\<lambda>v c. c\<lparr>sc_segments := v\<rparr>)"

section \<open>warmSessionCache\<close>

text \<open>The state of the warming is the server and the counter of completed tasks. An error of a
  load is ignored; the task completes either way.\<close>

definition emitWarmProgress :: "'db env \<Rightarrow> progressReporter option \<Rightarrow> string \<Rightarrow> 'db server \<times> nat \<Rightarrow> 'db server \<times> nat" where
  "emitWarmProgress E progress name p =
     (case progress of
        None \<Rightarrow> p
      | Some _ \<Rightarrow>
          let (s, completed) = p; c = Suc completed
          in (emit_if (ev_now E) progress ''warming''
                (''Cache warming: '' @ name @ '' ('' @ show_dec (int c) @ ''/4)'') (3 + of_nat c / 4) 4 s, c))"

definition warm :: "'db env \<Rightarrow> progressReporter option \<Rightarrow> string \<Rightarrow> ('db server, 'a) step \<Rightarrow> ('db server \<times> nat, unit) step" where
  "warm E progress name load p =
     (let (s, completed) = p in
      case load s of
        (Panic e, s) \<Rightarrow> (Panic e, (s, completed))
      | (_, s) \<Rightarrow> (Ret (), emitWarmProgress E progress name (s, completed)))"

definition warmSessionCache :: "'db env \<Rightarrow> progressReporter option \<Rightarrow> string \<Rightarrow> ('db server, unit) step" where
  "warmSessionCache E progress sid s =
     (case manager_GetClient sid (sv_workers s) of
        Ret client \<Rightarrow>
          let s = getSessionCache sid s;
              s = emitProgress (ev_now E) progress sid ''warming'' ''Warming caches (functions, imports, exports, strings)'' 3 4 s
          in (case runLabeled (sch_tasks (ev_sched E))
                 [(''functions'', warm E progress ''functions'' (loadFunctions sid (fetchAllFunctions E client None))),
                  (''imports'', warm E progress ''imports'' (loadImports sid (fetchAllImports E client None))),
                  (''exports'', warm E progress ''exports'' (loadExports sid (fetchAllExports E client None))),
                  (''strings'', warm E progress ''strings'' (loadStrings sid (fetchAllStrings E client None)))]
                 (s, 0) of
                (Panic p, (s, _)) \<Rightarrow> (Panic p, s)
              | (_, (s, _)) \<Rightarrow> (Ret (), s))
      | _ \<Rightarrow> (Ret (), s))"

section \<open>What enumerations and loads keep\<close>

context stable_state
begin

lemma keeps_emit_if: "I s \<Longrightarrow> I (emit_if now p stage msg cur tot s)"
  by (auto simp: emit_if_def intro: keeps_Emit split: option.splits)

lemma keeps_call_eq: "call f q client s = (r, s') \<Longrightarrow> I s \<Longrightarrow> I s'"
  using keeps_call [of f q client] by (metis keeps_def snd_conv)

lemma keeps_fetch_strings: "I s \<Longrightarrow> I (snd (fetch_strings_loop E client p pages all off tot s))"
proof (induction pages arbitrary: all off tot s)
  case 0
  then show ?case by (subst fetch_strings_loop.simps) (auto simp: Let_def intro: keeps_emit_if)
next
  case (Suc pages)
  obtain r s1 where r: "call (w_GetStrings (wa_list (ev_worker E))) (int32 off, int32 defaultPageLimit) client s = (r, s1)"
    by force
  have s1: "I s1" using keeps_call_eq [OF r Suc.prems] .
  show ?case
  proof (cases r)
    case (Ret resp)
    obtain m chunk where "rp_Msg resp = (m, chunk)" by force
    then show ?thesis
      using s1 Ret r by (subst fetch_strings_loop.simps) (simp add: Let_def keeps_emit_if Suc.IH)
  qed (use s1 r in \<open>subst fetch_strings_loop.simps, simp add: Let_def keeps_emit_if\<close>)+
qed

lemma keeps_fetchAllStrings: "keeps I (fetchAllStrings E client p)"
  by (simp add: keeps_def fetchAllStrings_def keeps_fetch_strings)

lemma keeps_fetchWithProgress: "keeps I fetch \<Longrightarrow> keeps I (fetchWithProgress E p ev noun fetch)"
  unfolding keeps_def fetchWithProgress_def
proof (intro allI impI)
  fix s assume fetch: "\<forall>s. I s \<longrightarrow> I (snd (fetch s))" and s: "I s"
  obtain r s1 where r: "fetch (emit_if (ev_now E) p ev (''Fetching '' @ noun @ '' from IDA'') 0 0 s) = (r, s1)" by force
  then have "I s1" using fetch keeps_emit_if [OF s] by (metis snd_conv)
  then show "I (snd (let emit = emit_if (ev_now E) p ev; s = emit (''Fetching '' @ noun @ '' from IDA'') 0 0 s
      in case fetch s of
           (Panic p, s) \<Rightarrow> (Panic p, s)
         | (Err err, s) \<Rightarrow> (Err err, emit (''Failed to fetch '' @ noun @ '': '' @ err_text (ev_quote E) err) 0 0 s)
         | (Ret items, s) \<Rightarrow>
             (Ret items, emit (''Fetched '' @ show_dec (int (length items)) @ '' '' @ noun)
                (of_nat (length items)) (of_nat (length items)) s)))"
    using r by (cases r) (simp_all add: keeps_emit_if)
qed

lemma keeps_fetchAll:
  "keeps I (fetchAllFunctions E client p)" "keeps I (fetchAllImports E client p)" "keeps I (fetchAllExports E client p)"
  unfolding fetchAllFunctions_def fetchAllImports_def fetchAllExports_def
  by (simp_all add: keeps_fetchWithProgress keeps_call_checked)

lemma keeps_load_slot:
  assumes "keeps I loader" and "\<And>v. cache_op (put v)"
  shows "keeps I (load_slot get put sid loader)"
proof (rule keepsI)
  fix s assume s: "I s"
  obtain r slot s1 where r: "loadCached loader (get (session_cache sid s)) s = (r, slot, s1)" by (metis prod.collapse)
  obtain l s2 where l: "loader s = (l, s2)" by force
  have "I s2" using assms(1) s l by (metis keeps_def snd_conv)
  then have "I s1" using r s l
    by (cases l) (auto simp: loadCached_def loadCached_read_def loadCached_locked_def Let_def split: option.splits)
  then show "I (snd (load_slot get put sid loader s))" using r assms(2) by (simp add: load_slot_def cache)
qed

lemma keeps_loads:
  "keeps I l1 \<Longrightarrow> keeps I (loadStrings sid l1)" "keeps I l2 \<Longrightarrow> keeps I (loadFunctions sid l2)"
  "keeps I l3 \<Longrightarrow> keeps I (loadImports sid l3)" "keeps I l4 \<Longrightarrow> keeps I (loadExports sid l4)"
  "keeps I l5 \<Longrightarrow> keeps I (loadSegments sid l5)"
  unfolding loadStrings_def loadFunctions_def loadImports_def loadExports_def loadSegments_def
  by (auto intro!: keeps_load_slot simp: cache_op_def cache_inv_def)

lemma keeps_warm: "keeps I load \<Longrightarrow> keeps (\<lambda>p. I (fst p)) (warm E p name load)"
  unfolding keeps_def
proof (intro allI impI)
  fix c :: "'db server \<times> nat" assume load: "\<forall>s. I s \<longrightarrow> I (snd (load s))" and c: "I (fst c)"
  obtain r s1 where r: "load (fst c) = (r, s1)" by force
  then have "I s1" using load c by (metis snd_conv)
  then show "I (fst (snd (warm E p name load c)))"
    using r by (cases r) (auto simp: warm_def emitWarmProgress_def case_prod_unfold Let_def intro: keeps_emit_if split: option.splits)
qed

lemma keeps_warmSessionCache: "I s \<Longrightarrow> I (snd (warmSessionCache E p sid s))"
proof -
  assume s: "I s"
  show ?thesis
  proof (cases "manager_GetClient sid (sv_workers s)")
    case (Ret client)
    let ?tasks = "[(''functions'', warm E p ''functions'' (loadFunctions sid (fetchAllFunctions E client None))),
                  (''imports'', warm E p ''imports'' (loadImports sid (fetchAllImports E client None))),
                  (''exports'', warm E p ''exports'' (loadExports sid (fetchAllExports E client None))),
                  (''strings'', warm E p ''strings'' (loadStrings sid (fetchAllStrings E client None)))]"
    define s1 where "s1 = emitProgress (ev_now E) p sid ''warming'' ''Warming caches (functions, imports, exports, strings)'' 3 4 (getSessionCache sid s)"
    have "I s1" using s by (simp add: s1_def keeps_emitProgress keeps_getSessionCache)
    moreover have "keeps (\<lambda>p. I (fst p)) (runLabeled (sch_tasks (ev_sched E)) ?tasks)"
      by (rule keeps_runLabeled) (auto intro!: keeps_warm keeps_loads keeps_fetchAll keeps_fetchAllStrings)
    ultimately have "I (fst (snd (runLabeled (sch_tasks (ev_sched E)) ?tasks (s1, 0))))"
      by (simp add: keeps_def)
    then show ?thesis
      by (auto simp: warmSessionCache_def Ret Let_def s1_def split: prod.splits go.splits)
  qed (use s in \<open>simp_all add: warmSessionCache_def\<close>)
qed

end

section \<open>What the enumerations return\<close>

text \<open>A worker that answers a page request for its string list \<open>xs\<close>, and keeps its database.\<close>

definition serves_strings :: "'db env \<Rightarrow> 'db \<Rightarrow> StringItem list \<Rightarrow> bool" where
  "serves_strings E db xs \<longleftrightarrow>
     (\<forall>off. 0 \<le> off \<longrightarrow> off \<le> int (length xs) \<longrightarrow>
        w_GetStrings (wa_list (ev_worker E)) (off, defaultPageLimit) db =
          (Inr \<lparr>rp_Error = [], rp_Msg = (int (length xs), take 1000 (drop (nat off) xs))\<rparr>, db))"

lemma emit_if_simps [simp]:
  "sv_dbs (emit_if now progress stage msg cur tot s) = sv_dbs s"
  "sv_cache (emit_if now progress stage msg cur tot s) = sv_cache s"
  "sv_registry (emit_if now progress stage msg cur tot s) = sv_registry s"
  "sv_workers (emit_if now progress stage msg cur tot s) = sv_workers s"
  "sv_leases (emit_if now progress stage msg cur tot s) = sv_leases s"
  "sv_outputs (emit_if now progress stage msg cur tot s) = sv_outputs s"
  "sv_tools (emit_if now progress stage msg cur tot s) = sv_tools s"
  "sv_tier (emit_if now progress stage msg cur tot s) = sv_tier s"
  "sv_enablePyEval (emit_if now progress stage msg cur tot s) = sv_enablePyEval s"
  by (auto simp: emit_if_def Emit_def recordProgress_def Let_def split: option.splits)

lemma int32_id: "0 \<le> n \<Longrightarrow> n < 2 ^ 31 \<Longrightarrow> int32 n = n"
  by (rule wrap_int_id) (simp_all add: is_int_def)

lemma fetch_strings_from:
  assumes "serves_strings E (sv_dbs s client) xs" and "int (length xs) < 2 ^ 31"
    and "off \<le> length xs" and "length xs - off < 1000 * pages"
  shows "\<exists>s'. fetch_strings_loop E client progress pages (take off xs) (int off) tot s = (Ret xs, s') \<and>
      sv_dbs s' = sv_dbs s \<and> sv_cache s' = sv_cache s"
  using assms
proof (induction pages arbitrary: off tot s)
  case 0
  then show ?case by simp
next
  case (Suc pages)
  define chunk where "chunk = take 1000 (drop off xs)"
  define tot' :: rat where "tot' = (if tot = 0 \<and> 0 < length xs then of_int (int (length xs)) else tot)"
  have call: "call (w_GetStrings (wa_list (ev_worker E))) (int32 (int off), int32 defaultPageLimit) client s =
      (Ret \<lparr>rp_Error = [], rp_Msg = (int (length xs), chunk)\<rparr>, db_step client (sv_dbs s client) s)"
    using Suc.prems(1-3)
    by (simp add: call_cases serves_strings_def chunk_def int32_id defaultPageLimit_def)
  have all: "take off xs @ chunk = take (off + length chunk) xs"
    by (simp add: chunk_def take_add min_def)
  have db: "(sv_dbs s)(client := sv_dbs s client) = sv_dbs s" by simp
  show ?case
  proof (cases "length chunk < 1000")
    case True
    then have "take (off + length chunk) xs = xs" using Suc.prems(3) by (simp add: chunk_def)
    then show ?thesis
      using True by (simp add: fetch_strings_loop.simps [of _ _ _ "Suc pages"] call [unfolded defaultPageLimit_def] Let_def all defaultPageLimit_def)
  next
    case False
    then have len: "length chunk = 1000" by (simp add: chunk_def)
    then have le: "off + 1000 \<le> length xs" using Suc.prems(3) by (simp add: chunk_def)
    define s1 where "s1 = emit_if (ev_now E) progress ''get_strings'' (''Enumerated '' @ show_dec (int (length (take off xs @ chunk))) @ '' strings'')
        (of_nat (length (take off xs @ chunk))) tot' (db_step client (sv_dbs s client) s)"
    have s1: "sv_dbs s1 = sv_dbs s" "sv_cache s1 = sv_cache s" by (simp_all add: s1_def)
    have "\<exists>s'. fetch_strings_loop E client progress pages (take (off + 1000) xs) (int (off + 1000)) tot' s1 = (Ret xs, s') \<and>
        sv_dbs s' = sv_dbs s1 \<and> sv_cache s' = sv_cache s1"
      using Suc.prems le by (intro Suc.IH) (simp_all add: s1)
    moreover have "fetch_strings_loop E client progress (Suc pages) (take off xs) (int off) tot s =
        fetch_strings_loop E client progress pages (take (off + 1000) xs) (int (off + 1000)) tot' s1"
      using len all by (simp add: fetch_strings_loop.simps [of _ _ _ "Suc pages"] call [unfolded defaultPageLimit_def] Let_def s1_def tot'_def defaultPageLimit_def)
    ultimately show ?thesis by (simp add: s1)
  qed
qed

text \<open>C27: fetchAllStrings returns every string of the binary, in order, whatever their number: it
  asks for page after page until a short one. It needs one page more than the full ones, and it
  changes neither a cache nor the database.\<close>

theorem fetchAllStrings_complete:
  assumes "serves_strings E (sv_dbs s client) xs" and "int (length xs) < 2 ^ 31"
    and "length xs div 1000 < sch_pages (ev_sched E)"
  shows "\<exists>s'. fetchAllStrings E client progress s = (Ret xs, s') \<and> sv_dbs s' = sv_dbs s \<and> sv_cache s' = sv_cache s"
proof -
  have "length xs < 1000 * sch_pages (ev_sched E)"
    using assms(3) by (simp add: div_less_iff_less_mult mult.commute)
  then show ?thesis
    using fetch_strings_from [OF assms(1,2), of 0 "sch_pages (ev_sched E)"] by (simp add: fetchAllStrings_def)
qed

definition demo_strings :: "'db env \<Rightarrow> StringItem list \<Rightarrow> 'db env" where
  "demo_strings E xs =
     E\<lparr>ev_worker := (ev_worker E)\<lparr>wa_list := (wa_list (ev_worker E))
         \<lparr>w_GetStrings := (\<lambda>(off, lim) db.
            (Inr \<lparr>rp_Error = [], rp_Msg = (int (length xs), take (nat lim) (drop (nat off) xs))\<rparr>, db))\<rparr>\<rparr>,
       ev_sched := (ev_sched E)\<lparr>sch_pages := 2\<rparr>\<rparr>"

theorem fetchAllStrings_complete_witness:
  "\<forall>E s. \<exists>s'. fetchAllStrings (demo_strings E (replicate 1500 \<lparr>si_Address = 16, si_Value = ''x''\<rparr>)) 0 None s =
     (Ret (replicate 1500 \<lparr>si_Address = 16, si_Value = ''x''\<rparr>), s')"
proof (intro allI)
  fix E :: "'db env" and s :: "'db server"
  let ?xs = "replicate 1500 \<lparr>si_Address = 16, si_Value = ''x''\<rparr>"
  have "serves_strings (demo_strings E ?xs) (sv_dbs s 0) ?xs"
    by (simp add: serves_strings_def demo_strings_def defaultPageLimit_def)
  moreover have "sch_pages (ev_sched (demo_strings E ?xs)) = 2" by (simp add: demo_strings_def)
  ultimately have "\<exists>s'. fetchAllStrings (demo_strings E ?xs) 0 None s = (Ret ?xs, s') \<and> sv_dbs s' = sv_dbs s \<and> sv_cache s' = sv_cache s"
    by (intro fetchAllStrings_complete) simp_all
  then show "\<exists>s'. fetchAllStrings (demo_strings E ?xs) 0 None s = (Ret ?xs, s')" by blast
qed

end
