(* ===== verification/Format.thy ===== *)
theory Format
  imports Messages Paging
begin

text \<open>
  The text renderings of the tools (internal/server/format.go) and the item maps of the JSON
  results (mapStringItems and its siblings are in Composite). A string is its bytes; \<open>quote\<close>
  stands for the verb \<open>%q\<close>. Widths (\<open>%-12s\<close>) count runes as utf8.RuneCountInString does.
\<close>

section \<open>Widths\<close>

text \<open>The bytes of the first rune; a byte that starts no valid encoding is a rune of its own.\<close>

definition in_range :: "nat \<Rightarrow> nat \<Rightarrow> char \<Rightarrow> bool" where
  "in_range lo hi c \<longleftrightarrow> lo \<le> of_char c \<and> of_char c \<le> (hi :: nat)"

definition continuation :: "char \<Rightarrow> bool" where
  "continuation c = in_range 0x80 0xBF c"

definition lead_width :: "char \<Rightarrow> nat" where
  "lead_width c =
     (if in_range 0xC2 0xDF c then 2 else if in_range 0xE0 0xEF c then 3
      else if in_range 0xF0 0xF4 c then 4 else 1)"

definition second_ok :: "char \<Rightarrow> char \<Rightarrow> bool" where
  "second_ok c d =
     (if c = CHR 0xE0 then in_range 0xA0 0xBF d else if c = CHR 0xED then in_range 0x80 0x9F d
      else if c = CHR 0xF0 then in_range 0x90 0xBF d else if c = CHR 0xF4 then in_range 0x80 0x8F d
      else continuation d)"

definition rune_width :: "string \<Rightarrow> nat" where
  "rune_width s =
     (case s of
        c # d # rest \<Rightarrow>
          let w = lead_width c
          in if w = 1 \<or> length rest < w - 2 \<or> \<not> second_ok c d \<or> \<not> list_all continuation (take (w - 2) rest)
             then 1 else w
      | _ \<Rightarrow> 1)"

lemma rune_width_pos: "0 < rune_width s"
  by (auto simp: rune_width_def Let_def lead_width_def split: list.splits)

function rune_count :: "string \<Rightarrow> nat" where
  "rune_count [] = 0"
| "rune_count (c # cs) = Suc (rune_count (drop (rune_width (c # cs) - 1) cs))"
  by pat_completeness auto
termination by (relation "measure length") auto

text \<open>\<open>%-ws\<close>: spaces on the right up to \<open>w\<close> runes.\<close>

definition pad :: "nat \<Rightarrow> string \<Rightarrow> string" where
  "pad w s = s @ replicate (w - rune_count s) CHR '' ''"

lemma pad_prefix: "prefix s (pad w s)" by (simp add: pad_def)

section \<open>Lines\<close>

definition nl :: string where "nl = [CHR 0x0A]"

definition tab :: string where "tab = [CHR 0x09]"

definition textResult :: "string \<Rightarrow> string" where
  "textResult text = rev (dropWhile (\<lambda>c. c = CHR 0x0A) (rev text))"

definition u32_dec :: "u32 \<Rightarrow> string" where
  "u32_dec n = show_dec (uint n)"

definition u64_dec :: "u64 \<Rightarrow> string" where
  "u64_dec n = show_dec (uint n)"

text \<open>A list rendering: the header line, then the rows.\<close>

definition with_header :: "('a \<Rightarrow> string) \<Rightarrow> 'a list \<Rightarrow> int \<Rightarrow> int \<Rightarrow> string" where
  "with_header row items tot offset =
     textResult (formatListHeader tot offset (int (length items)) @ nl @ concat (map row items))"

section \<open>The list tools\<close>

definition formatFunctionsText :: "Function list \<Rightarrow> int \<Rightarrow> int \<Rightarrow> string" where
  "formatFunctionsText = with_header (\<lambda>fn. hexAddr (fn_Address fn) @ tab @ fn_Name fn @ nl)"

definition formatImportsText :: "Import list \<Rightarrow> int \<Rightarrow> int \<Rightarrow> string" where
  "formatImportsText = with_header (\<lambda>imp.
     ip_Module imp @ ''!'' @ ip_Name imp @ tab @ hexAddr (ip_Address imp) @
       (if ip_Ordinal imp \<noteq> 0 then tab @ ''[ord '' @ u64_dec (ip_Ordinal imp) @ '']'' @ nl else nl))"

definition formatExportsText :: "Export list \<Rightarrow> int \<Rightarrow> int \<Rightarrow> string" where
  "formatExportsText = with_header (\<lambda>exp.
     ep_Name exp @ tab @ hexAddr (ep_Address exp) @
       (if ep_Ordinal exp \<noteq> 0 then tab @ ''[ord '' @ u64_dec (ep_Ordinal exp) @ '']'' @ nl else nl))"

text \<open>A value is cut after 80 bytes.\<close>

definition cut_value :: "string \<Rightarrow> string" where
  "cut_value v = (if length v > 80 then take 80 v @ ''...'' else v)"

definition formatStringsText :: "(string \<Rightarrow> string) \<Rightarrow> StringItem list \<Rightarrow> int \<Rightarrow> int \<Rightarrow> string" where
  "formatStringsText quote = with_header (\<lambda>s.
     hexAddr (si_Address s) @ tab @ quote (cut_value (si_Value s)) @ nl)"

definition xref_rows :: "string \<Rightarrow> u64 \<Rightarrow> (u64 \<times> u32) list \<Rightarrow> string" where
  "xref_rows title address xrefs =
     (if xrefs = [] then []
      else title @ '' '' @ hexAddr address @ '' ('' @ show_dec (int (length xrefs)) @ ''):'' @ nl @
           concat (map (\<lambda>(a, ty). ''  '' @ hexAddr a @ '' '' @ u32_dec ty @ nl) xrefs))"

definition formatXRefsText :: "u64 \<Rightarrow> (u64 \<times> u32) list \<Rightarrow> (u64 \<times> u32) list \<Rightarrow> string" where
  "formatXRefsText address xrefsTo xrefsFrom =
     (let b = xref_rows ''xrefs_to'' address xrefsTo @ xref_rows ''xrefs_from'' address xrefsFrom
      in if b = [] then ''no xrefs'' else textResult b)"

definition formatPermissions :: "u32 \<Rightarrow> string" where
  "formatPermissions perm =
     [if and perm 4 \<noteq> 0 then CHR ''r'' else CHR ''-'',
      if and perm 2 \<noteq> 0 then CHR ''w'' else CHR ''-'',
      if and perm 1 \<noteq> 0 then CHR ''x'' else CHR ''-'']"

definition formatSegmentsText :: "Segment list \<Rightarrow> string" where
  "formatSegmentsText segs =
     textResult (concat (map (\<lambda>seg.
       pad 12 (sg_Name seg) @ '' '' @ hexAddr (sg_Start seg) @ ''..'' @ hexAddr (sg_End seg) @ ''  '' @
       formatPermissions (sg_Permissions seg) @ ''  '' @ sg_SegClass seg @ ''  '' @
       u32_dec (sg_Bitness seg) @ ''bit'' @ nl) segs))"

section \<open>Cross-session results\<close>

record crossMatch =
  cm_Category :: string
  cm_Address :: u64
  cm_Name :: string
  cm_Module :: string
  cm_Value :: string

definition arrow :: string where
  "arrow = [CHR 0xE2, CHR 0x86, CHR 0x92]"

definition formatCrossReference ::
  "(string \<Rightarrow> string) \<Rightarrow> string \<Rightarrow> string \<Rightarrow> string \<Rightarrow> u64 \<Rightarrow> crossMatch list \<Rightarrow> string" where
  "formatCrossReference quote symbol srcSessID tgtSessID srcAddr matches =
     (if matches = [] then
        hexAddr srcAddr @ '' '' @ quote symbol @ '' in '' @ srcSessID @ '': no matches in '' @ tgtSessID
      else
        textResult (hexAddr srcAddr @ '' '' @ quote symbol @ '' in '' @ srcSessID @ '' '' @ arrow @ '' '' @ tgtSessID @
          '' ('' @ show_dec (int (length matches)) @ ''):'' @ nl @
          concat (map (\<lambda>m.
            ''  '' @ pad 8 (cm_Category m) @ '' '' @ hexAddr (cm_Address m) @ ''  '' @
            (if cm_Module m \<noteq> [] then cm_Module m @ ''!'' @ cm_Name m else cm_Name m) @ nl) matches)))"

record crossSearchResult =
  csr_SessionID :: string
  csr_BinaryPath :: string
  csr_Items :: "crossMatch list"
  csr_Error :: string

definition cross_item :: "(string \<Rightarrow> string) \<Rightarrow> string \<Rightarrow> crossMatch \<Rightarrow> string" where
  "cross_item quote mode item =
     ''  '' @ hexAddr (cm_Address item) @ tab @
     (if mode = ''strings'' then quote (cut_value (cm_Value item))
      else if mode = ''imports'' then
        (if cm_Module item \<noteq> [] then cm_Module item @ ''!'' @ cm_Name item else cm_Name item)
      else cm_Name item) @ nl"

definition formatCrossSearch :: "(string \<Rightarrow> string) \<Rightarrow> string \<Rightarrow> int \<Rightarrow> crossSearchResult list \<Rightarrow> string" where
  "formatCrossSearch quote mode totalMatches results =
     textResult (''mode='' @ mode @ '', '' @ show_dec totalMatches @ '' matches across '' @
       show_dec (int (length results)) @ '' sessions'' @ nl @
       concat (map (\<lambda>r. nl @
         (if csr_Error r \<noteq> [] then csr_SessionID r @ '' (error): '' @ csr_Error r @ nl
          else csr_SessionID r @ '' '' @ csr_BinaryPath r @ '' ('' @ show_dec (int (length (csr_Items r))) @ ''):'' @ nl @
               concat (map (cross_item quote mode) (csr_Items r)))) results))"

definition typeKindStr :: "TypeAt \<Rightarrow> string" where
  "typeKindStr resp =
     (if \<not> ta_HasType resp then ''unknown''
      else if ta_IsFunc resp then ''func'' else if ta_IsStruct resp then ''struct''
      else if ta_IsUnion resp then ''union'' else if ta_IsEnum resp then ''enum''
      else if ta_IsArray resp then ''array'' else if ta_IsPtr resp then ''ptr'' else ''scalar'')"

end
