(* ===== verification/ReadTools.thy ===== *)
theory ReadTools
  imports Fetch Format
begin

text \<open>
  The read tools (internal/server/read.go, search.go) and the helpers of server.go they filter
  with. A list tool loads its list through the cache of the session, filters it, and renders one
  page. The regular expression engine is an argument (\<open>ev_regex\<close>: the error of the pattern or its
  matcher), as is strings.ToLower.
\<close>

section \<open>server.go: filters\<close>

text \<open>The empty expression gives no regular expression.\<close>

definition compileRegex :: "'db env \<Rightarrow> string \<Rightarrow> bool \<Rightarrow> (string \<Rightarrow> bool) option go" where
  "compileRegex E expr caseSensitive =
     (if expr = [] then Ret None
      else case ev_regex E (if caseSensitive then expr else ''(?i)'' @ expr) of
             Inl e \<Rightarrow> Err e
           | Inr m \<Rightarrow> Ret (Some m))"

definition matchModule :: "'db env \<Rightarrow> string \<Rightarrow> string \<Rightarrow> bool \<Rightarrow> bool" where
  "matchModule E mname needle caseSensitive =
     (if needle = [] then True
      else if caseSensitive then sublist needle mname
      else sublist (h_ToLower (ev_host E) needle) (h_ToLower (ev_host E) mname))"

definition filter_regex :: "'db env \<Rightarrow> string \<Rightarrow> bool \<Rightarrow> ('a \<Rightarrow> string) \<Rightarrow> 'a list \<Rightarrow> 'a list go" where
  "filter_regex E expr caseSens name xs =
     (case compileRegex E expr caseSens of
        Err e \<Rightarrow> Err e
      | Panic p \<Rightarrow> Panic p
      | Ret None \<Rightarrow> Ret xs
      | Ret (Some m) \<Rightarrow> Ret (filter (\<lambda>x. m (name x)) xs))"

definition isAutoNamed :: "string \<Rightarrow> bool" where
  "isAutoNamed name \<longleftrightarrow>
     prefix ''sub_'' name \<or> prefix ''nullsub_'' name \<or> prefix ''j_'' name \<or> prefix ''unknown_libname_'' name"

section \<open>The list tools\<close>

text \<open>The common tail: one page of the filtered list, rendered.\<close>

definition page_text :: "('a list \<Rightarrow> int \<Rightarrow> int \<Rightarrow> string) \<Rightarrow> int \<Rightarrow> int \<Rightarrow> 'a list go \<Rightarrow> ('db server, tool_result) step" where
  "page_text fmt rawOffset rawLimit filtered =
     and_then (lift filtered) (\<lambda>filtered.
     and_then (lift (clampPage rawOffset rawLimit (int (length filtered)))) (\<lambda>(offset, end').
     and_then (lift (slice filtered offset end')) (\<lambda>page.
     ret (TextContent (fmt page (int (length filtered)) offset)))))"

text \<open>The common head: the list through the cache, with a stage for a hit.\<close>

definition cached_list ::
  "'db env \<Rightarrow> string \<Rightarrow> string \<Rightarrow> progressReporter option \<Rightarrow> string \<Rightarrow> ('db server, 'a list \<times> bool) step \<Rightarrow>
   ('a list \<Rightarrow> ('db server, tool_result) step) \<Rightarrow> ('db server, tool_result) step" where
  "cached_list E tool noun progress sid load k =
     catching load (\<lambda>r.
       case r of
         Inl e \<Rightarrow> fail (Ctx (tool @ '' cache load'') e)
       | Inr (data, hit) \<Rightarrow>
           and_then (upd (if hit then emitProgress (ev_now E) progress sid tool (noun @ '' served from cache'') 1 1 else (\<lambda>s. s)))
             (\<lambda>_. k data))"

definition getFunctions :: "'db env \<Rightarrow> 'db wait_env \<Rightarrow> GetFunctionsRequest \<Rightarrow> ('db server, tool_result) step" where
  "getFunctions E W args =
     and_then (resolveClientWait E W (gf_SessionID args) ''get_functions'') (\<lambda>(sess, client) s.
       let sid = se_ID (session_of s sess);
           progress = Some (newProgressReporter sid (we_token W) ''get_functions'')
       in cached_list E ''get_functions'' ''Functions'' progress sid
            (loadFunctions sid (fetchAllFunctions E client progress))
            (\<lambda>data. page_text formatFunctionsText (gf_Offset args) (gf_Limit args)
               (filter_regex E (gf_Regex args) (gf_CaseSens args) fn_Name
                  (if gf_NamedOnly args then filter (\<lambda>fn. \<not> isAutoNamed (fn_Name fn)) data else data)))
            (getSessionCache sid s))"

definition getImports :: "'db env \<Rightarrow> 'db wait_env \<Rightarrow> GetImportsRequest \<Rightarrow> ('db server, tool_result) step" where
  "getImports E W args =
     and_then (resolveClientWait E W (gi_SessionID args) ''get_imports'') (\<lambda>(sess, client) s.
       let sid = se_ID (session_of s sess);
           progress = Some (newProgressReporter sid (we_token W) ''get_imports'')
       in cached_list E ''get_imports'' ''Imports'' progress sid
            (loadImports sid (fetchAllImports E client progress))
            (\<lambda>data. page_text formatImportsText (gi_Offset args) (gi_Limit args)
               (filter_regex E (gi_Regex args) (gi_CaseSens args) ip_Name
                  (if gi_Module args \<noteq> []
                   then filter (\<lambda>imp. matchModule E (ip_Module imp) (gi_Module args) (gi_CaseSens args)) data
                   else data)))
            (getSessionCache sid s))"

definition getExports :: "'db env \<Rightarrow> 'db wait_env \<Rightarrow> GetExportsRequest \<Rightarrow> ('db server, tool_result) step" where
  "getExports E W args =
     and_then (resolveClientWait E W (ge_SessionID args) ''get_exports'') (\<lambda>(sess, client) s.
       let sid = se_ID (session_of s sess);
           progress = Some (newProgressReporter sid (we_token W) ''get_exports'')
       in cached_list E ''get_exports'' ''Exports'' progress sid
            (loadExports sid (fetchAllExports E client progress))
            (\<lambda>data. page_text formatExportsText (ge_Offset args) (ge_Limit args)
               (filter_regex E (ge_Regex args) (ge_CaseSens args) ep_Name data))
            (getSessionCache sid s))"

definition getStrings :: "'db env \<Rightarrow> 'db wait_env \<Rightarrow> GetStringsRequest \<Rightarrow> ('db server, tool_result) step" where
  "getStrings E W args =
     and_then (resolveClientWait E W (gs_SessionID args) ''get_strings'') (\<lambda>(sess, client) s.
       let sid = se_ID (session_of s sess);
           progress = Some (newProgressReporter sid (we_token W) ''get_strings'')
       in cached_list E ''get_strings'' ''Strings'' progress sid
            (loadStrings sid (fetchAllStrings E client progress))
            (\<lambda>data. page_text (formatStringsText (ev_quote E)) (gs_Offset args) (gs_Limit args)
               (filter_regex E (gs_Regex args) (gs_CaseSens args) si_Value data))
            (getSessionCache sid s))"

definition getSegments :: "'db env \<Rightarrow> 'db wait_env \<Rightarrow> GetSegmentsRequest \<Rightarrow> ('db server, tool_result) step" where
  "getSegments E W args =
     and_then (resolveClientWait E W (seg_SessionID args) ''get_segments'') (\<lambda>(sess, client) s.
       let sid = se_ID (session_of s sess)
       in catching (loadSegments sid (call_checked (w_GetSegments (wa_list (ev_worker E))) () client)) (\<lambda>r.
            case r of
              Inl e \<Rightarrow> fail (Ctx ''get_segments'' e)
            | Inr (segs, _) \<Rightarrow> ret (TextContent (formatSegmentsText segs))) (getSessionCache sid s))"

section \<open>One call\<close>

text \<open>The ladder with the contexts of a transport error and of an error field.\<close>

definition call_named :: "string \<Rightarrow> string \<Rightarrow> ('q, 'a, 'db) rpc \<Rightarrow> 'q \<Rightarrow> nat \<Rightarrow> ('db server, 'a) step" where
  "call_named rpcContext ideContext f q client =
     catching (call f q client) (\<lambda>r.
       case r of
         Inl e \<Rightarrow> fail (Ctx rpcContext e)
       | Inr r \<Rightarrow> if rp_Error r \<noteq> [] then fail (Ctx ideContext (Msg (rp_Error r))) else ret (rp_Msg r))"

definition getDisasm :: "'db env \<Rightarrow> 'db wait_env \<Rightarrow> GetDisasmRequest \<Rightarrow> ('db server, tool_result) step" where
  "getDisasm E W args =
     and_then (resolveClientWait E W (gd_SessionID args) ''get_disasm'') (\<lambda>(sess, client).
     and_then (lift (parseAddr (gd_Address args))) (\<lambda>addr.
     and_then (call_logged ''get_disasm''
                 (if gd_WholeFunction args then w_GetFunctionDisasm (wa_inspect (ev_worker E))
                  else w_GetDisasm (wa_inspect (ev_worker E))) addr client) (\<lambda>text.
     ret (TextContent text))))"

definition data_refs_text :: "XRef list \<Rightarrow> string" where
  "data_refs_text refs =
     (if refs = [] then ''no data refs''
      else textResult (show_dec (int (length refs)) @ '' refs:'' @ nl @
             concat (map (\<lambda>r. ''  '' @ hexAddr (xr_From r) @ '' '' @ u32_dec (xr_Type r) @ nl) refs)))"

definition getDataRefs :: "'db env \<Rightarrow> 'db wait_env \<Rightarrow> DataRefRequest \<Rightarrow> ('db server, tool_result) step" where
  "getDataRefs E W args =
     and_then (resolveClientWait E W (dref_SessionID args) ''get_data_refs'') (\<lambda>(_, client).
     and_then (call_named ''get_data_refs RPC call'' ''get_data_refs IDA operation''
                 (w_GetDataRefs (wa_inspect (ev_worker E))) (dref_Address args) client) (\<lambda>refs.
     ret (TextContent (data_refs_text refs))))"

definition string_xrefs_text :: "StringXRef list \<Rightarrow> string" where
  "string_xrefs_text refs =
     (if refs = [] then ''no string xrefs''
      else textResult (show_dec (int (length refs)) @ '' refs:'' @ nl @
             concat (map (\<lambda>r. ''  '' @ hexAddr (sx_Address r) @ '' '' @ sx_FunctionName r @ '' @ '' @
               hexAddr (sx_FunctionAddress r) @ nl) refs)))"

definition getStringXRefs :: "'db env \<Rightarrow> 'db wait_env \<Rightarrow> StringXRefRequest \<Rightarrow> ('db server, tool_result) step" where
  "getStringXRefs E W args =
     and_then (resolveClientWait E W (sxr_SessionID args) ''get_string_xrefs'') (\<lambda>(_, client).
     and_then (call_named ''get_string_xrefs RPC call'' ''get_string_xrefs IDA operation''
                 (w_GetStringXRefs (wa_inspect (ev_worker E))) (sxr_Address args) client) (\<lambda>refs.
     ret (TextContent (string_xrefs_text refs))))"

definition getEntryPoint :: "'db env \<Rightarrow> 'db wait_env \<Rightarrow> GetEntryPointRequest \<Rightarrow> ('db server, tool_result) step" where
  "getEntryPoint E W args =
     and_then (resolveClientWait E W (gep_SessionID args) ''get_entry_point'') (\<lambda>(_, client).
     and_then (call_named ''get_entry_point RPC call'' ''get_entry_point IDA operation''
                 (w_GetEntryPoint (wa_list (ev_worker E))) () client) (\<lambda>a.
     ret (JsonContent (JObject [(''address'', JString (hexAddr a))]))))"

text \<open>A repeated field without elements is a nil slice, which marshals to null.\<close>

definition addresses_json :: "u64 list \<Rightarrow> json" where
  "addresses_json addrs =
     JObject [(''addresses'', if addrs = [] then JNull else JArray (map (\<lambda>a. JInt (uint a)) addrs))]"

definition findBinary :: "'db env \<Rightarrow> 'db wait_env \<Rightarrow> FindBinaryRequest \<Rightarrow> ('db server, tool_result) step" where
  "findBinary E W args s =
     (if TrimSpace (fb_Pattern args) = [] then (Err (Msg ''pattern is required''), s)
      else and_then (resolveClientWait E W (fb_SessionID args) ''find_binary'') (\<lambda>(_, client).
           and_then (call_logged ''find_binary'' (w_FindBinary (wa_memory (ev_worker E)))
                       (fb_Start args, fb_End args, fb_Pattern args, fb_SearchUp args) client) (\<lambda>addrs.
           ret (JsonContent (addresses_json addrs)))) s)"

definition findText :: "'db env \<Rightarrow> 'db wait_env \<Rightarrow> FindTextRequest \<Rightarrow> ('db server, tool_result) step" where
  "findText E W args s =
     (if TrimSpace (ft_Needle args) = [] then (Err (Msg ''needle is required''), s)
      else and_then (resolveClientWait E W (ft_SessionID args) ''find_text'') (\<lambda>(_, client).
           and_then (call_logged ''find_text'' (w_FindText (wa_memory (ev_worker E)))
                       (ft_Start args, ft_End args, ft_Needle args, ft_CaseSensitive args, ft_Unicode args) client) (\<lambda>addrs.
           ret (JsonContent (addresses_json addrs)))) s)"

section \<open>get_xrefs\<close>

definition xrefs_to :: "'db env \<Rightarrow> nat \<Rightarrow> u64 \<Rightarrow> ('db server, (u64 \<times> u32) list) step" where
  "xrefs_to E client addr =
     and_then (call_checked (w_GetXRefsTo (wa_func (ev_worker E))) addr client)
       (\<lambda>xs. ret (map (\<lambda>x. (xr_From x, xr_Type x)) xs))"

definition xrefs_from :: "'db env \<Rightarrow> nat \<Rightarrow> u64 \<Rightarrow> ('db server, (u64 \<times> u32) list) step" where
  "xrefs_from E client addr =
     and_then (call_checked (w_GetXRefsFrom (wa_func (ev_worker E))) addr client)
       (\<lambda>xs. ret (map (\<lambda>x. (xr_To x, xr_Type x)) xs))"

text \<open>Goroutines that send on a channel: their results in the order they arrive.\<close>

fun run_channel :: "('k \<times> ('s, 'v) step) list \<Rightarrow> ('s, ('k \<times> (gerr + 'v)) list) step" where
  "run_channel [] = ret []"
| "run_channel ((k, f) # tasks) =
     catching f (\<lambda>r. and_then (run_channel tasks) (\<lambda>rs. ret ((k, r) # rs)))"

text \<open>The receiver stops at the first error.\<close>

fun collect_xrefs :: "(string \<times> (gerr + (u64 \<times> u32) list)) list \<Rightarrow> xrefsEntry \<Rightarrow> xrefsEntry go" where
  "collect_xrefs [] entry = Ret entry"
| "collect_xrefs ((key, Inl e) # rs) entry = Err (Ctx (''get_xrefs '' @ key @ '' RPC'') e)"
| "collect_xrefs ((key, Inr xs) # rs) entry =
     collect_xrefs rs (if key = ''to'' then entry\<lparr>xe_to := xs\<rparr> else entry\<lparr>xe_from := xs\<rparr>)"

text \<open>A direction other than to and both asks for the references from the address.\<close>

definition getXRefs :: "'db env \<Rightarrow> 'db wait_env \<Rightarrow> GetXRefsRequest \<Rightarrow> ('db server, tool_result) step" where
  "getXRefs E W args =
     and_then (resolveClientWait E W (gxr_SessionID args) ''get_xrefs'') (\<lambda>(sess, client) s.
       let sid = se_ID (session_of s sess);
           addr = gxr_Address args;
           dir = (if gxr_Direction args = [] then ''both'' else gxr_Direction args);
           s = getSessionCache sid s
       in case (if dir = ''both'' then getXRefs_cached addr (session_cache sid s) else None) of
            Some entry \<Rightarrow> (Ret (TextContent (formatXRefsText addr (xe_to entry) (xe_from entry))), s)
          | None \<Rightarrow>
              if dir = ''both'' then
                and_then (run_channel (in_schedule (sch_tasks (ev_sched E))
                            [(''to'', xrefs_to E client addr), (''from'', xrefs_from E client addr)])) (\<lambda>rs.
                and_then (lift (collect_xrefs rs \<lparr>xe_to = [], xe_from = []\<rparr>)) (\<lambda>entry.
                and_then (upd (on_cache sid (setXRefs addr entry))) (\<lambda>_.
                ret (TextContent (formatXRefsText addr (xe_to entry) (xe_from entry)))))) s
              else if dir = ''to'' then
                and_then (call_named ''get_xrefs to RPC'' ''get_xrefs to'' (w_GetXRefsTo (wa_func (ev_worker E))) addr client) (\<lambda>xs.
                ret (TextContent (formatXRefsText addr (map (\<lambda>x. (xr_From x, xr_Type x)) xs) []))) s
              else
                and_then (call_named ''get_xrefs from RPC'' ''get_xrefs from'' (w_GetXRefsFrom (wa_func (ev_worker E))) addr client) (\<lambda>xs.
                ret (TextContent (formatXRefsText addr [] (map (\<lambda>x. (xr_To x, xr_Type x)) xs)))) s)"

section \<open>read_memory\<close>

text \<open>Bytes marshal to their base64 encoding.\<close>

definition base64_char :: "nat \<Rightarrow> char" where
  "base64_char n =
     (if n < 26 then char_of (65 + n) else if n < 52 then char_of (71 + n)
      else if n < 62 then char_of (n - 4) else if n = 62 then CHR ''+'' else CHR ''/'')"

fun base64 :: "string \<Rightarrow> string" where
  "base64 (a # b # c # rest) =
     (let n = of_char a * 65536 + of_char b * 256 + of_char c
      in base64_char (n div 262144) # base64_char (n div 4096 mod 64) # base64_char (n div 64 mod 64) #
         base64_char (n mod 64) # base64 rest)"
| "base64 [a, b] =
     (let n = of_char a * 65536 + of_char b * 256
      in [base64_char (n div 262144), base64_char (n div 4096 mod 64), base64_char (n div 64 mod 64), CHR ''=''])"
| "base64 [a] =
     (let n = of_char a * 65536
      in [base64_char (n div 262144), base64_char (n div 4096 mod 64), CHR ''='', CHR ''=''])"
| "base64 [] = []"

text \<open>A fetcher gives the key of the envelope, the value and the error field of the worker. A nil
  slice of bytes marshals to null.\<close>

definition memory_fetcher :: "'db env \<Rightarrow> nat \<Rightarrow> u64 \<Rightarrow> u32 \<Rightarrow> string \<Rightarrow> ('db server, string \<times> json \<times> string) step option" where
  "memory_fetcher E client addr sz fmt =
     (let m = wa_memory (ev_worker E)
      in if fmt = ''string'' then
           Some (and_then (call (w_DataReadString m) (addr, if sz = 0 then 256 else sz) client)
                   (\<lambda>r. ret (''value'', JString (rp_Msg r), rp_Error r)))
         else if fmt = ''dword'' then
           Some (and_then (call (w_GetDwordAt m) addr client) (\<lambda>r. ret (''value'', JInt (uint (rp_Msg r)), rp_Error r)))
         else if fmt = ''qword'' then
           Some (and_then (call (w_GetQwordAt m) addr client) (\<lambda>r. ret (''value'', JInt (uint (rp_Msg r)), rp_Error r)))
         else if fmt = ''byte'' then
           Some (and_then (call (w_DataReadByte m) addr client) (\<lambda>r. ret (''value'', JInt (uint (rp_Msg r)), rp_Error r)))
         else if fmt = ''bytes'' then
           Some (and_then (call (w_GetBytes m) (addr, if sz = 0 then 16 else sz) client)
                   (\<lambda>r. ret (''data'', if rp_Msg r = [] then JNull else JString (base64 (rp_Msg r)), rp_Error r)))
         else None)"

definition readMemory :: "'db env \<Rightarrow> 'db wait_env \<Rightarrow> ReadMemoryRequest \<Rightarrow> ('db server, tool_result) step" where
  "readMemory E W args =
     and_then (resolveClientWait E W (rm_SessionID args) ''read_memory'') (\<lambda>(_, client).
     and_then (lift (parseAddr (rm_Address args))) (\<lambda>addr.
       let fmt = (if rm_Format args = [] then ''bytes'' else rm_Format args)
       in case memory_fetcher E client addr (rm_Size args) fmt of
            None \<Rightarrow> fail (Quoted ''invalid format '' fmt '': use bytes, dword, qword, byte, or string'')
          | Some fetch \<Rightarrow>
              catching fetch (\<lambda>r.
                case r of
                  Inl e \<Rightarrow> fail (Ctx (''read_memory '' @ fmt @ '' RPC'') e)
                | Inr (key, v, ideErr) \<Rightarrow>
                    if ideErr \<noteq> [] then fail (Ctx (''read_memory '' @ fmt) (Msg ideErr))
                    else ret (JsonContent (JObject [(key, v)])))))"

end
