(* ===== verification/Lifecycle.thy ===== *)
theory Lifecycle
  imports Fetch
begin

text \<open>
  The life of a session (internal/server/session.go): opening a binary and the goroutine that
  loads and analyses it, the guard around an analysis pass, closing, expiry by the watchdog,
  persistence and restore, and the tools that report on a session. A handler that starts a
  goroutine returns it as a job; the step relation at the end interleaves jobs and requests.
  Times are in nanoseconds. The heartbeat of a long worker call is the list of its ticks, which
  all happen before the call returns.
\<close>

section \<open>The session record outside the server\<close>

datatype background =
    BackgroundOpen nat nat string bool
  | BackgroundAnalysis nat nat

definition workers_Start :: "'db env \<Rightarrow> nat \<Rightarrow> string \<Rightarrow> ('db server, unit) step" where
  "workers_Start E sess path s =
     (case manager_Start (os_launch (ev_os E) (se_ID (session_of s sess))) path (sv_workers s, session_of s sess) of
        (r, m, sess') \<Rightarrow> (r, on_registry (on_session sess (\<lambda>_. sess')) (s\<lparr>sv_workers := m\<rparr>)))"

text \<open>Stop asks the worker to save and close its database, whatever it answers, before it is stopped.\<close>

definition closeSession :: "'db env \<Rightarrow> nat \<Rightarrow> 'db server \<Rightarrow> 'db server" where
  "closeSession E worker s = snd (call (w_CloseSession (wa_session (ev_worker E))) True worker s)"

definition workers_Stop :: "'db env \<Rightarrow> string \<Rightarrow> ('db server, unit) step" where
  "workers_Stop E sid s =
     (let s = (case manager_GetClient sid (sv_workers s) of Ret worker \<Rightarrow> closeSession E worker s | _ \<Rightarrow> s)
      in case manager_Stop (os_stop (ev_os E) sid) sid (sv_workers s) of (r, m) \<Rightarrow> (r, s\<lparr>sv_workers := m\<rparr>))"

lemma workers_Stop_cases:
  "workers_Stop E sid s =
     (fst (manager_Stop (os_stop (ev_os E) sid) sid (sv_workers s)),
      s\<lparr>sv_dbs := (case manager_GetClient sid (sv_workers s) of
           Ret worker \<Rightarrow> (sv_dbs s)(worker := snd (w_CloseSession (wa_session (ev_worker E)) True (sv_dbs s worker)))
         | _ \<Rightarrow> sv_dbs s),
        sv_workers := snd (manager_Stop (os_stop (ev_os E) sid) sid (sv_workers s))\<rparr>)"
  by (cases "manager_GetClient sid (sv_workers s)")
    (auto simp: workers_Stop_def closeSession_def call_def case_prod_unfold Let_def split: sum.splits)

text \<open>A failure of the store is logged and ignored.\<close>

definition persistSession :: "'db env \<Rightarrow> nat \<Rightarrow> 'db server \<Rightarrow> 'db server" where
  "persistSession E sess s =
     (case sv_store s of
        None \<Rightarrow> s
      | Some d \<Rightarrow> s\<lparr>sv_store := Some (snd (store_Save (os_encode (ev_os E)) (os_io (ev_os E)) (session_of s sess) d))\<rparr>)"

definition deleteSessionState :: "'db env \<Rightarrow> string \<Rightarrow> 'db server \<Rightarrow> 'db server" where
  "deleteSessionState E sid s =
     (case sv_store s of
        None \<Rightarrow> s
      | Some d \<Rightarrow> s\<lparr>sv_store := Some (snd (store_Delete (os_io (ev_os E)) sid d))\<rparr>)"

definition acquire :: "nat \<Rightarrow> 'db server \<Rightarrow> 'db server" where
  "acquire sess = on_registry (on_session sess AcquireInFlight)"

definition release :: "int \<Rightarrow> nat \<Rightarrow> 'db server \<Rightarrow> 'db server" where
  "release now sess = on_registry (on_session sess (ReleaseInFlight now))"

section \<open>Background work\<close>

definition withHeartbeat ::
  "'db env \<Rightarrow> string \<Rightarrow> string \<Rightarrow> string \<Rightarrow> rat \<Rightarrow> rat \<Rightarrow> ('db server, 'a) step \<Rightarrow> ('db server, 'a) step" where
  "withHeartbeat E sid stage message prog tot fn s =
     fn (fold (\<lambda>elapsed. recordProgress (ev_now E) sid stage (message @ '' ('' @ elapsed @ '' elapsed)'') prog tot)
           (sch_beats (ev_sched E)) (recordProgress (ev_now E) sid stage message prog tot s))"

record analysisResult =
  ar_success :: bool
  ar_duration :: rat
  ar_errMsg :: string

definition executeAnalysisWithHeartbeat :: "'db env \<Rightarrow> nat \<Rightarrow> nat \<Rightarrow> 'db server \<Rightarrow> analysisResult \<times> 'db server" where
  "executeAnalysisWithHeartbeat E sess client s =
     (case withHeartbeat E (se_ID (session_of s sess)) ''analyzing'' ''Running auto-analysis'' 2 4
             (call (w_PlanAndWait (wa_session (ev_worker E))) () client) s of
        (Err e, s) \<Rightarrow>
          (\<lparr>ar_success = False, ar_duration = 0, ar_errMsg = ''auto-analysis failed: '' @ err_text (ev_quote E) e\<rparr>, s)
      | (Panic _, s) \<Rightarrow> (\<lparr>ar_success = False, ar_duration = 0, ar_errMsg = []\<rparr>, s)
      | (Ret resp, s) \<Rightarrow>
          let (success, duration) = rp_Msg resp
          in if \<not> success then
               (\<lparr>ar_success = False, ar_duration = 0, ar_errMsg = ''auto-analysis error: '' @ rp_Error resp\<rparr>, s)
             else (\<lparr>ar_success = True, ar_duration = duration, ar_errMsg = []\<rparr>, s))"

text \<open>The parts of backgroundOpen, between which other goroutines run: the load, which gives
  whether to go on; the claim of the analysis guard; the analysis, which gives the warning; the
  warming and the ready stage.\<close>

definition open_load :: "'db env \<Rightarrow> nat \<Rightarrow> nat \<Rightarrow> string \<Rightarrow> 'db server \<Rightarrow> bool \<times> 'db server" where
  "open_load E sess client path s =
     (let sid = se_ID (session_of s sess) in
      case withHeartbeat E sid ''opening'' ''Loading binary into IDA'' 1 4
             (call (w_OpenBinary (wa_session (ev_worker E))) (path, False) client) s of
        (Err e, s) \<Rightarrow>
          (False, recordProgress (ev_now E) sid ''failed'' (''Failed to open binary: '' @ err_text (ev_quote E) e) 0 4 s)
      | (Panic _, s) \<Rightarrow> (False, s)
      | (Ret resp, s) \<Rightarrow>
          if \<not> rp_Msg resp then
            (False, recordProgress (ev_now E) sid ''failed'' (''IDA failed to open binary: '' @ rp_Error resp) 0 4 s)
          else (True, s))"

definition claim_analysis :: "nat \<Rightarrow> 'db server \<Rightarrow> bool \<times> 'db server" where
  "claim_analysis sess s =
     (let (claimed, sess') = TryBeginAnalysis (session_of s sess)
      in (claimed, on_registry (on_session sess (\<lambda>_. sess')) s))"

definition end_analysis :: "nat \<Rightarrow> 'db server \<Rightarrow> 'db server" where
  "end_analysis sess = on_registry (on_session sess EndAnalysis)"

definition open_analyze :: "'db env \<Rightarrow> nat \<Rightarrow> nat \<Rightarrow> 'db server \<Rightarrow> string \<times> 'db server" where
  "open_analyze E sess client s =
     (let (res, s) = executeAnalysisWithHeartbeat E sess client s
      in (if ar_success res then [] else ar_errMsg res, end_analysis sess s))"

definition open_finish :: "'db env \<Rightarrow> nat \<Rightarrow> bool \<Rightarrow> string \<Rightarrow> progressReporter option \<Rightarrow> 'db server \<Rightarrow> 'db server" where
  "open_finish E sess autoAnalyze warning progress s =
     (let sid = se_ID (session_of s sess);
          s = (if autoAnalyze then snd (warmSessionCache E progress sid s) else s);
          readyMsg = (if autoAnalyze then ''Session ready (cache warm)'' else ''Session ready'');
          readyMsg = (if warning \<noteq> [] then readyMsg @ '' ('' @ warning @ '')'' else readyMsg)
      in emitProgress (ev_now E) progress sid ''ready'' readyMsg 4 4 s)"

definition backgroundOpen ::
  "'db env \<Rightarrow> nat \<Rightarrow> nat \<Rightarrow> string \<Rightarrow> bool \<Rightarrow> progressReporter option \<Rightarrow> 'db server \<Rightarrow> 'db server" where
  "backgroundOpen E sess client path autoAnalyze progress s =
     (let (go_on, s) = open_load E sess client path (acquire sess s)
      in release (ev_now E) sess
           (if \<not> go_on then s
            else
              let (warning, s) =
                (if autoAnalyze then
                   let (claimed, s) = claim_analysis sess s
                   in if claimed then open_analyze E sess client s else ([], s)
                 else ([], s))
              in open_finish E sess autoAnalyze warning progress s))"

text \<open>The goroutine of beginBackgroundAnalysis after the guard and its lease are taken.\<close>

definition analysis_done :: "'db env \<Rightarrow> nat \<Rightarrow> analysisResult \<Rightarrow> 'db server \<Rightarrow> 'db server" where
  "analysis_done E sess res s =
     (let sid = se_ID (session_of s sess);
          s = (if ar_success res then
                 recordProgress (ev_now E) sid ''ready'' ''Session ready (analysis complete)'' 4 4 (deleteSessionCache sid s)
               else
                 recordProgress (ev_now E) sid ''failed''
                   (if ar_errMsg res = [] then ''auto-analysis failed'' else ar_errMsg res) 0 4 s)
      in end_analysis sess s)"

definition analysis_job :: "'db env \<Rightarrow> nat \<Rightarrow> nat \<Rightarrow> 'db server \<Rightarrow> analysisResult \<times> 'db server" where
  "analysis_job E sess client s =
     (let (res, s) = executeAnalysisWithHeartbeat E sess client s
      in (res, release (ev_now E) sess (analysis_done E sess res s)))"

definition beginBackgroundAnalysis :: "nat \<Rightarrow> nat \<Rightarrow> 'db server \<Rightarrow> background option \<times> 'db server" where
  "beginBackgroundAnalysis sess client s =
     (let (claimed, s) = claim_analysis sess s
      in if \<not> claimed then (None, s) else (Some (BackgroundAnalysis sess client), acquire sess s))"

section \<open>Restore, watchdog\<close>

text \<open>One metadata entry. A session that is restored starts loading in the background.\<close>

definition restore_one :: "'db env \<Rightarrow> Metadata \<Rightarrow> 'db server \<Rightarrow> background list \<times> 'db server" where
  "restore_one E meta s =
     (if os_stat (ev_os E) (md_BinaryPath meta) \<noteq> None then ([], deleteSessionState E (md_ID meta) s)
      else
        case registry_Restore (os_draw (ev_os E) (md_ID meta)) meta (sv_registry s) of
          (Ret sess, reg) \<Rightarrow>
            let s = s\<lparr>sv_registry := reg\<rparr>;
                sid = se_ID (session_of s sess);
                drop = (\<lambda>s. deleteSessionCache sid (deleteSessionState E sid (on_registry (registry_Delete sid) s)))
            in (case workers_Start E sess (md_BinaryPath meta) s of
                  (Ret _, s) \<Rightarrow>
                    (case manager_GetClient sid (sv_workers s) of
                       Ret client \<Rightarrow>
                         ([BackgroundOpen sess client (md_BinaryPath meta) True],
                          recordProgress (ev_now E) sid ''opening'' ''Reloading binary into IDA'' 1 4 s)
                     | _ \<Rightarrow> ([], drop (snd (workers_Stop E sid s))))
                | (_, s) \<Rightarrow> ([], drop s))
        | (_, reg) \<Rightarrow> ([], s\<lparr>sv_registry := reg\<rparr>))"

fun restore_all :: "'db env \<Rightarrow> Metadata list \<Rightarrow> 'db server \<Rightarrow> background list \<times> 'db server" where
  "restore_all E [] s = ([], s)"
| "restore_all E (meta # metas) s =
     (let (jobs, s) = restore_one E meta s; (jobs', s) = restore_all E metas s in (jobs @ jobs', s))"

definition RestoreSessions :: "'db env \<Rightarrow> 'db server \<Rightarrow> background list \<times> 'db server" where
  "RestoreSessions E s =
     (case sv_store s of
        None \<Rightarrow> ([], s)
      | Some d \<Rightarrow>
          (case store_Load (os_decode (ev_os E)) (os_io (ev_os E)) (os_listing (ev_os E)) d of
             Ret metas \<Rightarrow> restore_all E metas s
           | _ \<Rightarrow> ([], s)))"

fun cleanupExpiredSessions :: "'db env \<Rightarrow> nat list \<Rightarrow> 'db server \<Rightarrow> int \<times> 'db server" where
  "cleanupExpiredSessions E [] s = (0, s)"
| "cleanupExpiredSessions E (sess # expired) s =
     (if HasInFlight (session_of s sess) then cleanupExpiredSessions E expired s
      else if \<not> IsExpired (ev_now E) (session_of s sess) then cleanupExpiredSessions E expired s
      else
        let sid = se_ID (session_of s sess);
            s = snd (workers_Stop E sid s);
            s = on_registry (registry_Delete sid) s;
            s = deleteSessionState E sid s;
            s = deleteSessionCache sid s;
            s = clearProgress sid s;
            (cleaned, s) = cleanupExpiredSessions E expired s
        in (cleaned + 1, s))"

text \<open>One tick of the watchdog.\<close>

definition Watchdog :: "'db env \<Rightarrow> 'db server \<Rightarrow> 'db server" where
  "Watchdog E s =
     (let (cleaned, s) = cleanupExpiredSessions E (registry_Expired (ev_now E) (ev_order E) (sv_registry s)) s
      in if cleaned > 0 \<and> length (registry_List (ev_order E) (sv_registry s)) = 0 then demoteToTier0 s else s)"

section \<open>open_binary\<close>

definition unix :: "int \<Rightarrow> int" where
  "unix t = t div second"

definition seconds :: "int \<Rightarrow> rat" where
  "seconds d = of_int d / of_int second"

text \<open>Best effort: without a client or an answer the result stays as it is.\<close>

definition enrichSessionResult ::
  "'db env \<Rightarrow> string \<Rightarrow> (string \<times> json) list \<Rightarrow> 'db server \<Rightarrow> (string \<times> json) list \<times> 'db server" where
  "enrichSessionResult E sid result s =
     (case manager_GetClient sid (sv_workers s) of
        Ret client \<Rightarrow>
          (case call (w_GetSessionInfo (wa_session (ev_worker E))) () client s of
             (Ret resp, s) \<Rightarrow>
               (assign_all result
                  [(''has_decompiler'', JBool (nf_HasDecompiler (rp_Msg resp))),
                   (''auto_state'', JString (nf_AutoState (rp_Msg resp))),
                   (''auto_running'', JBool (nf_AutoRunning (rp_Msg resp)))], s)
           | (_, s) \<Rightarrow> (result, s))
      | _ \<Rightarrow> (result, s))"

definition open_reused :: "'db env \<Rightarrow> nat \<Rightarrow> 'db server \<Rightarrow> tool_result \<times> 'db server" where
  "open_reused E existing s =
     (let e = session_of s existing;
          (result, s) = enrichSessionResult E (se_ID e)
            [(''session_id'', JString (se_ID e)), (''binary_path'', JString (se_BinaryPath e)),
             (''created_at'', JInt (unix (se_CreatedAt e))), (''reused'', JBool True)] s
      in (JsonContent (JObject result), promoteToTier 1 s))"

definition open_message :: "bool \<Rightarrow> string" where
  "open_message autoAnalyze =
     ''Binary is loading in the background. Poll get_session_progress until ready=true before analyzing'' @
     (if autoAnalyze then '' (large binaries may take minutes).''
      else ''. Auto-analysis skipped '' @ emdash @ '' call run_auto_analysis when ready.'')"

text \<open>After the worker has started.\<close>

definition open_started :: "'db env \<Rightarrow> nat \<Rightarrow> nat \<Rightarrow> OpenBinaryRequest \<Rightarrow> 'db server \<Rightarrow> (tool_result \<times> background list) \<times> 'db server" where
  "open_started E sess client args s =
     (let sid = se_ID (session_of s sess);
          s = promoteToTier 1 (persistSession E sess s);
          autoAnalyze = (\<not> ob_SkipAnalysis args);
          s = recordProgress (ev_now E) sid ''opening'' ''Loading binary into IDA'' 1 4 s;
          (result, s) = enrichSessionResult E sid
            [(''session_id'', JString sid), (''binary_path'', JString (ob_Path args)),
             (''created_at'', JInt (unix (se_CreatedAt (session_of s sess)))), (''status'', JString ''opening''),
             (''analysis_pending'', JBool autoAnalyze), (''auto_running'', JBool True),
             (''message'', JString (open_message autoAnalyze))] s
      in ((JsonContent (JObject result), [BackgroundOpen sess client (ob_Path args) autoAnalyze]), s))"

text \<open>A binary that no session has open; \<open>args\<close> has the validated path.\<close>

definition open_new :: "'db env \<Rightarrow> OpenBinaryRequest \<Rightarrow> ('db server, tool_result \<times> background list) step" where
  "open_new E args s =
     (case registry_Create (ev_draw E) (ob_Path args) (sv_sessionTimeout s) (sv_registry s) of
        (Err e, reg) \<Rightarrow> (Err (Ctx ''open_binary session creation'' e), s\<lparr>sv_registry := reg\<rparr>)
      | (Panic p, reg) \<Rightarrow> (Panic p, s\<lparr>sv_registry := reg\<rparr>)
      | (Ret sess, reg) \<Rightarrow>
          let s = s\<lparr>sv_registry := reg\<rparr>;
              sid = se_ID (session_of s sess);
              s = recordProgress (ev_now E) sid ''starting'' ''Starting worker'' 0 4 s;
              undo = (\<lambda>s. clearProgress sid (deleteSessionCache sid (on_registry (registry_Delete sid) s)))
          in (case workers_Start E sess (ob_Path args) s of
                (Err e, s) \<Rightarrow> (Err (Ctx ''open_binary worker start'' e), undo s)
              | (Panic p, s) \<Rightarrow> (Panic p, s)
              | (Ret _, s) \<Rightarrow>
                  (case manager_GetClient sid (sv_workers s) of
                     Err e \<Rightarrow> (Err (Ctx ''open_binary worker client'' e), undo (snd (workers_Stop E sid s)))
                   | Panic p \<Rightarrow> (Panic p, s)
                   | Ret client \<Rightarrow> let (r, s) = open_started E sess client args s in (Ret r, s))))"

definition openBinary :: "'db env \<Rightarrow> OpenBinaryRequest \<Rightarrow> ('db server, tool_result \<times> background list) step" where
  "openBinary E args s =
     (case validatePath (ev_host E) (sv_allowedRoots s) ''path'' (ob_Path args) of
        Err e \<Rightarrow> (Err (Ctx ''open_binary path validation'' e), s)
      | Panic p \<Rightarrow> (Panic p, s)
      | Ret validPath \<Rightarrow>
          let args = args\<lparr>ob_Path := validPath\<rparr> in
          (case FindByBinaryPath (sv_registry s) (ob_Path args) of
             Some existing \<Rightarrow> let (result, s) = open_reused E existing s in (Ret (result, []), s)
           | None \<Rightarrow> open_new E args s))"

section \<open>close_binary, list_sessions, save_database\<close>

definition closeBinary :: "'db env \<Rightarrow> CloseBinaryRequest \<Rightarrow> ('db server, tool_result) step" where
  "closeBinary E args =
     and_then (resolveSession (ev_order E) (cb_SessionID args)) (\<lambda>sess s.
       let sid = se_ID (session_of s sess);
           (stopErr, s) = workers_Stop E sid s;
           s = on_registry (registry_Delete sid) s;
           s = deleteSessionState E sid s;
           s = deleteSessionCache sid s;
           s = clearProgress sid s;
           s = (if length (registry_List (ev_order E) (sv_registry s)) = 0 then demoteToTier0 s else s)
       in case stopErr of
            Err e \<Rightarrow>
              (Ret (JsonContent (JObject
                 [(''status'', JString ''closed''), (''warning'', JString (''worker stop: '' @ err_text (ev_quote E) e))])), s)
          | Panic p \<Rightarrow> (Panic p, s)
          | Ret _ \<Rightarrow> (Ret (TextContent ''ok''), s))"

definition session_row :: "int \<Rightarrow> session \<Rightarrow> json" where
  "session_row now sess =
     (let meta = session_Metadata sess in
      JObject [(''session_id'', JString (md_ID meta)), (''binary_path'', JString (md_BinaryPath meta)),
               (''created_at'', JInt (unix (md_CreatedAt meta))), (''last_activity'', JInt (unix (md_LastActivity meta))),
               (''age_seconds'', JFloat (seconds (now - md_CreatedAt meta))),
               (''idle_seconds'', JFloat (seconds (now - md_LastActivity meta)))])"

definition listSessions :: "'db env \<Rightarrow> ('db server, tool_result) step" where
  "listSessions E s =
     (Ret (JsonContent (JObject
        [(''sessions'', JArray (map (\<lambda>sess. session_row (ev_now E) (session_of s sess))
            (registry_List (ev_order E) (sv_registry s))))])), s)"

definition saveDatabase :: "'db env \<Rightarrow> SaveDatabaseRequest \<Rightarrow> ('db server, tool_result) step" where
  "saveDatabase E args =
     and_then (resolveClient E (sd_SessionID args) ''save_database'') (\<lambda>(_, client).
     catching (call (w_SaveDatabase (wa_session (ev_worker E))) () client) (\<lambda>r.
       case r of
         Inl e \<Rightarrow> fail (Ctx ''save_database RPC call'' e)
       | Inr resp \<Rightarrow>
           (case rp_Msg resp of (_, timestamp, dirty) \<Rightarrow>
              ret (JsonContent (JObject [(''timestamp'', JInt timestamp), (''dirty'', JBool dirty)])))))"

section \<open>get_session_progress\<close>

text \<open>The stage shown, with the values of a session without a snapshot.\<close>

definition shown_progress :: "sessionProgress option \<Rightarrow> string \<times> string \<times> rat \<times> rat \<times> int option" where
  "shown_progress p =
     (case p of
        None \<Rightarrow> (''idle'', ''No active operation'', 0, 0, None)
      | Some p \<Rightarrow> (pg_Stage p, pg_Message p, pg_Progress p, pg_Total p, Some (pg_UpdatedAt p)))"

text \<open>The worker is asked only when nothing is in flight.\<close>

definition auto_status :: "'db env \<Rightarrow> nat \<Rightarrow> string \<Rightarrow> 'db server \<Rightarrow> (string \<times> bool) \<times> 'db server" where
  "auto_status E sess stage s =
     (let analysisRunning = AnalysisActive (session_of s sess) in
      if analysisRunning then ((''analyzing'', analysisRunning), s)
      else if stage \<in> set inProgressStages then ((stage, analysisRunning), s)
      else
        case manager_GetClient (se_ID (session_of s sess)) (sv_workers s) of
          Ret client \<Rightarrow>
            (case call (w_GetSessionInfo (wa_session (ev_worker E))) () client s of
               (Ret resp, s) \<Rightarrow> ((nf_AutoState (rp_Msg resp), nf_AutoRunning (rp_Msg resp)), s)
             | (_, s) \<Rightarrow> ((''unknown'', analysisRunning), s))
        | _ \<Rightarrow> ((''unknown'', analysisRunning), s))"

definition progress_ready :: "bool \<Rightarrow> bool \<Rightarrow> string \<Rightarrow> bool" where
  "progress_ready analysisRunning autoRunning stage \<longleftrightarrow>
     \<not> analysisRunning \<and> \<not> autoRunning \<and> stage \<noteq> ''failed'' \<and> stage \<notin> set inProgressStages"

definition next_step :: "bool \<Rightarrow> string \<Rightarrow> string" where
  "next_step ready stage =
     (if ready then ''call survey_binary for a one-call overview''
      else if stage = ''failed'' then ''re-open with open_binary or check the path''
      else ''poll get_session_progress again until ready=true'')"

definition getSessionProgress :: "'db env \<Rightarrow> GetSessionProgressRequest \<Rightarrow> ('db server, tool_result) step" where
  "getSessionProgress E args =
     and_then (resolveSession (ev_order E) (gsp_SessionID args)) (\<lambda>sess s.
       let s = on_registry (on_session sess (Touch (ev_now E))) s;
           sid = se_ID (session_of s sess);
           p = getProgress sid s;
           (stage, message, progressValue, totalValue, updatedAt) = shown_progress p;
           analysisRunning = AnalysisActive (session_of s sess);
           ((autoState, autoRunning), s) = auto_status E sess stage s;
           ready = progress_ready analysisRunning autoRunning stage
       in (Ret (JsonContent (JObject
             [(''session_id'', JString sid), (''stage'', JString stage), (''message'', JString message),
              (''progress'', JFloat progressValue), (''total'', JFloat totalValue),
              (''percent'', JFloat (percent progressValue totalValue)), (''has_progress'', JBool (p \<noteq> None)),
              (''auto_state'', JString autoState), (''auto_running'', JBool autoRunning),
              (''ready'', JBool ready), (''next_step'', JString (next_step ready stage)),
              (''last_updated_at'', JInt (case updatedAt of None \<Rightarrow> 0 | Some t \<Rightarrow> unix t)),
              (''last_updated_ago'', JFloat (case updatedAt of None \<Rightarrow> -1 | Some t \<Rightarrow> seconds (ev_now E - t))),
              (''server_timestamp'', JInt (unix (ev_now E))),
              (''server_time_iso'', JString (os_rfc3339 (ev_os E) (ev_now E))),
              (''analysis_required'', JBool autoRunning)])), s))"

section \<open>run_auto_analysis, watch_auto_analysis\<close>

text \<open>When the request outlives the analysis (\<open>\<not> sch_done\<close>) the handler waits for the goroutine and
  reports its result; otherwise the goroutine goes on as a job.\<close>

definition analysis_report :: "string \<Rightarrow> analysisResult \<Rightarrow> json" where
  "analysis_report sid res =
     JObject
       [(''session_id'', JString sid), (''status'', JString (if ar_success res then ''ready'' else ''failed'')),
        (''started'', JBool True), (''success'', JBool (ar_success res)),
        (''duration_seconds'', JFloat (ar_duration res)),
        (''message'', JString (if ar_success res then ''Auto-analysis complete''
           else if ar_errMsg res = [] then ''auto-analysis failed'' else ar_errMsg res))]"

definition analysis_pending :: "string \<Rightarrow> bool \<Rightarrow> json" where
  "analysis_pending sid started =
     JObject
       [(''session_id'', JString sid), (''status'', JString ''analyzing''), (''started'', JBool started),
        (''running'', JBool True),
        (''message'', JString ((if started then ''Auto-analysis still running in the background ''
            else ''Auto-analysis already running '') @ emdash @ '' poll get_session_progress until ready=true''))]"

definition runAutoAnalysis :: "'db env \<Rightarrow> RunAutoAnalysisRequest \<Rightarrow> ('db server, tool_result \<times> background list) step" where
  "runAutoAnalysis E args =
     and_then (resolveClientDuringLoad E (raa_SessionID args) ''run_auto_analysis'') (\<lambda>(sess, client) s.
       let sid = se_ID (session_of s sess) in
       case beginBackgroundAnalysis sess client s of
         (None, s) \<Rightarrow> (Ret (JsonContent (analysis_pending sid False), []), s)
       | (Some job, s) \<Rightarrow>
           if sch_done (ev_sched E) then (Ret (JsonContent (analysis_pending sid True), [job]), s)
           else
             let (res, s) = analysis_job E sess client s
             in (Ret (JsonContent (analysis_report sid res), []), s))"

definition watch_interval :: "int \<Rightarrow> int" where
  "watch_interval intervalMs =
     (let interval = int64 (intervalMs * 1000000);
          interval = (if interval \<le> 0 then second else interval)
      in if interval < 200000000 then 200000000 else interval)"

definition show_bool :: "bool \<Rightarrow> string" where
  "show_bool b = (if b then ''true'' else ''false'')"

text \<open>\<open>turns\<close> gives, for each turn of the loop, the clock and the seconds elapsed; when there is no
  further turn the context is done.\<close>

fun watch_loop ::
  "'db env \<Rightarrow> nat \<Rightarrow> nat \<Rightarrow> progressReporter option \<Rightarrow> (int \<times> rat) list \<Rightarrow> json list \<Rightarrow> ('db server, tool_result) step" where
  "watch_loop E sess client progress [] updates s =
     (Err (Ctx ''watch_auto_analysis GetSessionInfo'' (sch_ctxErr (ev_sched E))), s)"
| "watch_loop E sess client progress ((now, elapsed) # turns) updates s =
     (case call (w_GetSessionInfo (wa_session (ev_worker E))) () client s of
        (Panic p, s) \<Rightarrow> (Panic p, s)
      | (Err e, s) \<Rightarrow> (Err (Ctx ''watch_auto_analysis GetSessionInfo'' e), s)
      | (Ret resp, s) \<Rightarrow>
          let sid = se_ID (session_of s sess);
              state = nf_AutoState (rp_Msg resp);
              running = nf_AutoRunning (rp_Msg resp);
              updates = updates @ [JObject
                [(''timestamp'', JInt (unix now)), (''auto_state'', JString state), (''auto_running'', JBool running),
                 (''session_id'', JString sid), (''elapsed_seconds'', JFloat elapsed)]];
              s = emitProgress now progress sid ''auto_analysis''
                    (''auto_state='' @ state @ '' running='' @ show_bool running) 0 0 s
          in if \<not> running then
               (Ret (JsonContent (JObject
                  [(''auto_running'', JBool False), (''auto_state'', JString state), (''updates'', JArray updates),
                   (''update_count'', JInt (int (length updates))), (''duration_seconds'', JFloat elapsed)])),
                emitProgress now progress sid ''auto_analysis'' ''Auto-analysis complete'' 1 1 s)
             else if turns = [] then
               (Ret (JsonContent (JObject
                  [(''auto_running'', JBool True), (''auto_state'', JString state), (''updates'', JArray updates),
                   (''update_count'', JInt (int (length updates))),
                   (''message'', JString (''Stopped waiting: '' @ err_text (ev_quote E) (sch_ctxErr (ev_sched E))))])), s)
             else watch_loop E sess client progress turns updates s)"

definition watchAutoAnalysis ::
  "'db env \<Rightarrow> bool \<Rightarrow> (int \<times> rat) list \<Rightarrow> WatchAutoAnalysisRequest \<Rightarrow> ('db server, tool_result) step" where
  "watchAutoAnalysis E token turns args =
     and_then (resolveClientDuringLoad E (waa_SessionID args) ''watch_auto_analysis'') (\<lambda>(sess, client) s.
       let progress = newProgressReporter (se_ID (session_of s sess)) token ''auto_analysis''
       in watch_loop E sess client (Some progress) turns [] s)"

section \<open>Jobs and requests interleaved\<close>

text \<open>A goroutine at the points where another one may run: waiting for the load, about to claim the
  guard, in the analysis, about to warm and finish; and the goroutine of run_auto_analysis.\<close>

datatype job =
    OpenLoading nat nat string bool
  | OpenClaiming nat nat
  | OpenAnalyzing nat nat
  | OpenFinishing nat bool string
  | Analyzing nat nat

text \<open>Every other operation of the server leaves the guards alone (\<open>other\<close>).\<close>

inductive sys_step :: "'db server \<times> job list \<Rightarrow> 'db server \<times> job list \<Rightarrow> bool" where
  spawn_open: "sys_step (s, js) (acquire sess s, OpenLoading sess client path auto # js)"
| load_failed: "open_load E sess client path s = (False, s') \<Longrightarrow>
    sys_step (s, js @ OpenLoading sess client path auto # ks) (release (ev_now E) sess s', js @ ks)"
| loaded: "open_load E sess client path s = (True, s') \<Longrightarrow>
    sys_step (s, js @ OpenLoading sess client path auto # ks)
      (s', js @ (if auto then OpenClaiming sess client else OpenFinishing sess False []) # ks)"
| claimed: "claim_analysis sess s = (True, s') \<Longrightarrow>
    sys_step (s, js @ OpenClaiming sess client # ks) (s', js @ OpenAnalyzing sess client # ks)"
| not_claimed: "claim_analysis sess s = (False, s') \<Longrightarrow>
    sys_step (s, js @ OpenClaiming sess client # ks) (s', js @ OpenFinishing sess True [] # ks)"
| analyzed: "open_analyze E sess client s = (warning, s') \<Longrightarrow>
    sys_step (s, js @ OpenAnalyzing sess client # ks) (s', js @ OpenFinishing sess True warning # ks)"
| opened: "sys_step (s, js @ OpenFinishing sess auto warning # ks)
    (release (ev_now E) sess (open_finish E sess auto warning progress s), js @ ks)"
| spawn_analysis: "beginBackgroundAnalysis sess client s = (Some (BackgroundAnalysis sess client), s') \<Longrightarrow>
    sys_step (s, js) (s', Analyzing sess client # js)"
| already_running: "beginBackgroundAnalysis sess client s = (None, s') \<Longrightarrow> sys_step (s, js) (s', js)"
| analysis_ends: "analysis_job E sess client s = (res, s') \<Longrightarrow>
    sys_step (s, js @ Analyzing sess client # ks) (s', js @ ks)"
| other: "analysis_flags s' = analysis_flags s \<Longrightarrow> sys_step (s, js) (s', js)"

inductive sys_steps :: "'db server \<times> job list \<Rightarrow> 'db server \<times> job list \<Rightarrow> bool" where
  sys_refl: "sys_steps c c"
| sys_more: "sys_steps c c' \<Longrightarrow> sys_step c' c'' \<Longrightarrow> sys_steps c c''"

inductive_cases sys_stepE: "sys_step c c'"

inductive_simps sys_step_idle: "sys_step (s, []) (s', js)"

lemma sys_steps_trans: "sys_steps c' c'' \<Longrightarrow> sys_steps c c' \<Longrightarrow> sys_steps c c''"
  by (induction rule: sys_steps.induct) (auto intro: sys_steps.intros)

lemma sys_step1: "sys_step c c' \<Longrightarrow> sys_steps c c'"
  by (rule sys_more [OF sys_refl])

section \<open>What the parts of a job keep\<close>

context stable_state
begin

lemma keeps_withHeartbeat: "keeps I fn \<Longrightarrow> keeps I (withHeartbeat E sid stage msg cur tot fn)"
proof (rule keepsI)
  fix s assume fn: "keeps I fn" and s: "I s"
  have "I (fold (\<lambda>e. recordProgress (ev_now E) sid stage (msg @ '' ('' @ e @ '' elapsed)'') cur tot) beats s')"
    if "I s'" for beats s'
    using that by (induction beats arbitrary: s') (simp_all add: progress)
  then show "I (snd (withHeartbeat E sid stage msg cur tot fn s))"
    using fn progress [OF s] by (simp add: withHeartbeat_def keeps_def)
qed

lemma keeps_executeAnalysis: "I s \<Longrightarrow> I (snd (executeAnalysisWithHeartbeat E sess client s))"
proof -
  assume s: "I s"
  let ?w = "withHeartbeat E (se_ID (session_of s sess)) ''analyzing'' ''Running auto-analysis'' 2 4
      (call (w_PlanAndWait (wa_session (ev_worker E))) () client)"
  obtain r s1 where r: "?w s = (r, s1)" by force
  have "keeps I ?w" by (rule keeps_withHeartbeat [OF keeps_call])
  then have "I s1" using s r by (metis keeps_def snd_conv)
  then show ?thesis using r by (cases r) (auto simp: executeAnalysisWithHeartbeat_def Let_def split: prod.splits)
qed

lemma keeps_open_load: "I s \<Longrightarrow> I (snd (open_load E sess client path s))"
proof -
  assume s: "I s"
  let ?w = "withHeartbeat E (se_ID (session_of s sess)) ''opening'' ''Loading binary into IDA'' 1 4
      (call (w_OpenBinary (wa_session (ev_worker E))) (path, False) client)"
  obtain r s1 where r: "?w s = (r, s1)" by force
  have "keeps I ?w" by (rule keeps_withHeartbeat [OF keeps_call])
  then have "I s1" using s r by (metis keeps_def snd_conv)
  then show ?thesis using r by (cases r) (auto simp: open_load_def Let_def intro: progress)
qed

lemma keeps_open_finish: "I s \<Longrightarrow> I (snd (warmSessionCache E p sid s)) \<Longrightarrow> I (open_finish E sess auto warning p s)"
  by (auto simp: open_finish_def Let_def intro: keeps_emitProgress keeps_warmSessionCache)

end

text \<open>The parts and the guards.\<close>

lemma flags_on_registry:
  "analysis_flags (on_registry (on_session sess f) s) =
     (analysis_flags s)(sess := se_analysisActive (f (session_of s sess)))"
  by (auto simp: analysis_flags_def session_of_on_registry fun_eq_iff)

lemma flags_acquire [simp]: "analysis_flags (acquire sess s) = analysis_flags s"
  "analysis_flags (release now sess s) = analysis_flags s"
  "analysis_flags (end_analysis sess s) = (analysis_flags s)(sess := False)"
  "analysis_flags (recordProgress now sid st m p t s) = analysis_flags s"
  "analysis_flags (deleteSessionCache sid s) = analysis_flags s"
  by (auto simp: acquire_def release_def end_analysis_def session_of_on_registry AcquireInFlight_def ReleaseInFlight_def
      Touch_def EndAnalysis_def Let_def analysis_flags_def fun_eq_iff deleteSessionCache_def session_of_def [of "_\<lparr>sv_cache := _\<rparr>"]
      session_of_def [symmetric])

lemma flags_parts:
  "open_load E sess client path s = (b, s') \<Longrightarrow> analysis_flags s' = analysis_flags s"
  "executeAnalysisWithHeartbeat E sess client s = (res, s') \<Longrightarrow> analysis_flags s' = analysis_flags s"
  "analysis_flags (open_finish E sess auto warning p s) = analysis_flags s"
  using flags_same.keeps_open_load [where s = s and F = "analysis_flags s"]
    flags_same.keeps_executeAnalysis [where s = s and F = "analysis_flags s"]
    flags_same.keeps_open_finish [where s = s and F = "analysis_flags s"]
    flags_same.keeps_warmSessionCache [where s = s and F = "analysis_flags s"]
  by (metis snd_conv)+

lemma flags_claim:
  "claim_analysis sess s = (b, s') \<Longrightarrow>
     b = (\<not> analysis_flags s sess) \<and> analysis_flags s' = (analysis_flags s)(sess := True)"
  by (auto simp: claim_analysis_def TryBeginAnalysis_def flags_on_registry analysis_flags_def split: if_splits)

lemma flags_analyze:
  "open_analyze E sess client s = (w, s') \<Longrightarrow> analysis_flags s' = (analysis_flags s)(sess := False)"
  by (auto simp: open_analyze_def Let_def split: prod.splits dest: flags_parts(2))

lemma flags_analysis_job:
  "analysis_job E sess client s = (res, s') \<Longrightarrow> analysis_flags s' = (analysis_flags s)(sess := False)"
proof -
  assume r: "analysis_job E sess client s = (res, s')"
  obtain res1 s1 where e: "executeAnalysisWithHeartbeat E sess client s = (res1, s1)" by force
  show ?thesis using r e flags_parts(2) [OF e] by (auto simp: analysis_job_def analysis_done_def Let_def)
qed

section \<open>One analysis pass per session\<close>

fun analysing :: "nat \<Rightarrow> job \<Rightarrow> bool" where
  "analysing ref (OpenAnalyzing sess client) = (sess = ref)"
| "analysing ref (Analyzing sess client) = (sess = ref)"
| "analysing ref _ = False"

definition guard_inv :: "'db server \<times> job list \<Rightarrow> bool" where
  "guard_inv c \<longleftrightarrow> (\<forall>ref. length (filter (analysing ref) (snd c)) = (if analysis_flags (fst c) ref then 1 else 0))"

lemma guard_inv_other: "analysis_flags s' = analysis_flags s \<Longrightarrow> guard_inv (s', js) = guard_inv (s, js)"
  by (simp add: guard_inv_def)

lemma guard_inv_start:
  assumes "guard_inv (s, js @ ks)" and "\<not> analysis_flags s sess" and "analysis_flags s' = (analysis_flags s)(sess := True)"
    and "\<And>ref. analysing ref j \<longleftrightarrow> ref = sess"
  shows "guard_inv (s', js @ j # ks)"
  unfolding guard_inv_def
proof
  fix ref
  have "length (filter (analysing ref) (js @ ks)) = (if analysis_flags s ref then 1 else 0)"
    using assms(1) by (simp add: guard_inv_def)
  then show "length (filter (analysing ref) (snd (s', js @ j # ks))) = (if analysis_flags (fst (s', js @ j # ks)) ref then 1 else 0)"
    using assms(2-4) by (cases "ref = sess") auto
qed

lemma guard_inv_end:
  assumes "guard_inv (s, js @ j # ks)" and "analysis_flags s' = (analysis_flags s)(sess := False)"
    and "\<And>ref. analysing ref j \<longleftrightarrow> ref = sess"
  shows "guard_inv (s', js @ ks)"
  unfolding guard_inv_def
proof
  fix ref
  have "length (filter (analysing ref) (js @ j # ks)) = (if analysis_flags s ref then 1 else 0)"
    using assms(1) by (simp add: guard_inv_def)
  then show "length (filter (analysing ref) (snd (s', js @ ks))) = (if analysis_flags (fst (s', js @ ks)) ref then 1 else 0)"
    using assms(2,3) by (cases "ref = sess") (auto split: if_splits)
qed

lemma guard_inv_idle:
  "(\<And>ref. \<not> analysing ref j) \<Longrightarrow> guard_inv (s, js @ j # ks) = guard_inv (s, js @ ks)"
  "(\<And>ref. \<not> analysing ref j) \<Longrightarrow> guard_inv (s, j # ks) = guard_inv (s, ks)"
  by (simp_all add: guard_inv_def)

lemma guard_inv_step: "sys_step c c' \<Longrightarrow> guard_inv c \<Longrightarrow> guard_inv c'"
proof (induction rule: sys_step.induct)
  case (spawn_open s js sess client path auto)
  then show ?case by (simp only: guard_inv_idle analysing.simps simp_thms guard_inv_other [OF flags_acquire(1)])
next
  case (load_failed E sess client path s s' js auto ks)
  from flags_parts(1) [OF load_failed.hyps] have "analysis_flags (release (ev_now E) sess s') = analysis_flags s"
    by simp
  from guard_inv_other [OF this] load_failed.prems show ?case
    by (simp only: guard_inv_idle analysing.simps simp_thms)
next
  case (loaded E sess client path s s' js auto ks)
  from loaded.prems have "guard_inv (s', js @ ks)"
    by (simp only: guard_inv_idle analysing.simps simp_thms guard_inv_other [OF flags_parts(1) [OF loaded.hyps]])
  then show ?case by (cases auto) (simp_all only: guard_inv_idle analysing.simps simp_thms if_True if_False)
next
  case (claimed sess s s' js client ks)
  from claimed.prems have "guard_inv (s, js @ ks)" by (simp only: guard_inv_idle analysing.simps simp_thms)
  then show ?case
    by (rule guard_inv_start [where sess = sess]) (use flags_claim [OF claimed.hyps] in auto)
next
  case (not_claimed sess s s' js client ks)
  from flags_claim [OF not_claimed.hyps] have "analysis_flags s' = analysis_flags s" by (simp add: fun_upd_idem)
  from guard_inv_other [OF this] not_claimed.prems show ?case
    by (simp only: guard_inv_idle analysing.simps simp_thms)
next
  case (analyzed E sess client s warning s' js ks)
  have "guard_inv (s', js @ ks)"
    by (rule guard_inv_end [OF analyzed.prems flags_analyze [OF analyzed.hyps]]) auto
  then show ?case by (simp only: guard_inv_idle analysing.simps simp_thms)
next
  case (opened s js sess auto warning ks E progress)
  have "analysis_flags (release (ev_now E) sess (open_finish E sess auto warning progress s)) = analysis_flags s"
    by (simp add: flags_parts(3))
  from guard_inv_other [OF this] opened.prems show ?case
    by (simp only: guard_inv_idle analysing.simps simp_thms)
next
  case (spawn_analysis sess client s s' js)
  obtain b s1 where c: "claim_analysis sess s = (b, s1)" by force
  then have b: "b" and s': "s' = acquire sess s1"
    using spawn_analysis.hyps by (auto simp: beginBackgroundAnalysis_def split: if_splits)
  have "guard_inv (s', [] @ Analyzing sess client # js)"
    by (rule guard_inv_start [where sess = sess and s = s])
      (use flags_claim [OF c] b s' spawn_analysis.prems in auto)
  then show ?case by simp
next
  case (already_running sess client s s' js)
  obtain b s1 where c: "claim_analysis sess s = (b, s1)" by force
  then have "\<not> b" and "s' = s1"
    using already_running.hyps by (auto simp: beginBackgroundAnalysis_def split: if_splits)
  with flags_claim [OF c] have "analysis_flags s' = analysis_flags s" by (simp add: fun_upd_idem)
  from guard_inv_other [OF this] already_running.prems show ?case by simp
next
  case (analysis_ends E sess client s res s' js ks)
  show ?case
    by (rule guard_inv_end [OF analysis_ends.prems flags_analysis_job [OF analysis_ends.hyps]]) auto
next
  case (other s' s js)
  from guard_inv_other [OF other.hyps] other.prems show ?case by simp
qed

lemma guard_inv_steps: "sys_steps c c' \<Longrightarrow> guard_inv c \<Longrightarrow> guard_inv c'"
  by (induction rule: sys_steps.induct) (auto intro: guard_inv_step)

text \<open>The goroutine of open_binary, run without interruption, is the sequence of its parts.\<close>

lemma backgroundOpen_steps:
  "sys_steps (s, []) (backgroundOpen E sess client path auto progress s, [])"
proof -
  let ?b = "backgroundOpen E sess client path auto progress s"
  obtain b s1 where l: "open_load E sess client path (acquire sess s) = (b, s1)" by force
  note start = sys_step1 [OF spawn_open [of s "[]" sess client path auto]]
  show ?thesis
  proof (cases b)
    case False
    then have "sys_step (acquire sess s, [OpenLoading sess client path auto]) (?b, [])"
      using load_failed [of E sess client path "acquire sess s" s1 "[]" auto "[]"] l
      by (simp add: backgroundOpen_def)
    with start show ?thesis by (rule sys_more)
  next
    case True
    let ?next = "if auto then OpenClaiming sess client else OpenFinishing sess False []"
    have 1: "sys_steps (s, []) (s1, [?next])"
      using loaded [of E sess client path "acquire sess s" s1 "[]" auto "[]"] l True
      by (intro sys_more [OF start]) simp
    have fin: "sys_steps (s, []) (release (ev_now E) sess (open_finish E sess auto w progress s2), [])"
      if "sys_steps (s, []) (s2, [OpenFinishing sess auto w])" for w s2
      using sys_more [OF that opened [of s2 "[]" sess auto w "[]" E progress, simplified]] .
    show ?thesis
    proof (cases auto)
      case False
      with fin [of s1 "[]"] 1 l True show ?thesis by (simp add: backgroundOpen_def)
    next
      case auto: True
      obtain c s2 where c: "claim_analysis sess s1 = (c, s2)" by force
      show ?thesis
      proof (cases c)
        case False
        then have "sys_step (s1, [OpenClaiming sess client]) (s2, [OpenFinishing sess True []])"
          using not_claimed [of sess s1 s2 "[]" client "[]"] c by simp
        then have "sys_steps (s, []) (s2, [OpenFinishing sess True []])" using 1 auto by (auto intro: sys_more)
        with fin [of s2 "[]"] l True auto c False show ?thesis by (simp add: backgroundOpen_def)
      next
        case claim: True
        obtain w s3 where w: "open_analyze E sess client s2 = (w, s3)" by force
        have "sys_step (s1, [OpenClaiming sess client]) (s2, [OpenAnalyzing sess client])"
          using claimed [of sess s1 s2 "[]" client "[]"] c claim by simp
        then have "sys_steps (s, []) (s2, [OpenAnalyzing sess client])" using 1 auto by (auto intro: sys_more)
        then have "sys_steps (s, []) (s3, [OpenFinishing sess True w])"
          using analyzed [OF w, of "[]" "[]"] by (auto intro: sys_more)
        with fin [of s3 w] l True auto c claim w show ?thesis by (simp add: backgroundOpen_def)
      qed
    qed
  qed
qed

text \<open>C13: however opens, restores, run_auto_analysis calls and other requests interleave, a session
  has at most one analysis pass at a time, and its guard is set exactly while one runs.\<close>

theorem single_analysis_pass:
  assumes "sys_steps (s0, []) (s, js)" and "\<forall>ref. \<not> analysis_flags s0 ref"
  shows "length (filter (analysing ref) js) \<le> 1 \<and>
     (AnalysisActive (session_of s ref) \<longleftrightarrow> (\<exists>j \<in> set js. analysing ref j))"
proof -
  have "guard_inv (s0, [])" using assms(2) by (simp add: guard_inv_def)
  then have len: "length (filter (analysing ref) js) = (if analysis_flags s ref then 1 else 0)"
    using guard_inv_steps [OF assms(1)] by (simp add: guard_inv_def)
  then have "analysis_flags s ref \<longleftrightarrow> filter (analysing ref) js \<noteq> []" by (auto split: if_splits)
  then show ?thesis
    using len by (auto simp: AnalysisActive_def analysis_flags_def filter_empty_conv split: if_splits)
qed

theorem single_analysis_pass_witness:
  "\<forall>dbs. let s = one_session (dbs :: nat \<Rightarrow> 'db) ''ready'';
     (job, s1) = beginBackgroundAnalysis 0 0 s
   in sys_steps (s, []) (s1, [Analyzing 0 0]) \<and> job \<noteq> None \<and> AnalysisActive (session_of s1 0) \<and>
      fst (beginBackgroundAnalysis 0 0 s1) = None"
proof
  fix dbs :: "nat \<Rightarrow> 'db"
  let ?s = "one_session dbs ''ready''"
  obtain s1 where b: "beginBackgroundAnalysis 0 0 ?s = (Some (BackgroundAnalysis 0 0), s1)"
    by (simp add: beginBackgroundAnalysis_def claim_analysis_def TryBeginAnalysis_def one_session_simps no_session_def)
  have st: "sys_steps (?s, []) (s1, [Analyzing 0 0])" by (rule sys_step1 [OF spawn_analysis [OF b]])
  have "\<forall>ref. \<not> analysis_flags ?s ref" by (simp add: analysis_flags_def one_session_simps no_session_def)
  then have a: "AnalysisActive (session_of s1 0)"
    using single_analysis_pass [OF st, of 0] by simp
  then have "fst (beginBackgroundAnalysis 0 0 s1) = None"
    by (simp add: beginBackgroundAnalysis_def claim_analysis_def TryBeginAnalysis_def AnalysisActive_def)
  with b st a show "let s = ?s; (job, s1) = beginBackgroundAnalysis 0 0 s
   in sys_steps (s, []) (s1, [Analyzing 0 0]) \<and> job \<noteq> None \<and> AnalysisActive (session_of s1 0) \<and>
      fst (beginBackgroundAnalysis 0 0 s1) = None" by simp
qed

section \<open>Progress and the readiness gate\<close>

lemma getProgress_on_registry [simp]: "getProgress sid (on_registry f s) = getProgress sid s"
  by (simp add: getProgress_def)

lemma getProgress_call [simp]: "getProgress sid (snd (call f q client s)) = getProgress sid s"
  by (simp add: call_cases getProgress_def split: prod.splits)

lemma auto_status_keeps:
  "getProgress sid (snd (auto_status E sess stage s)) = getProgress sid s"
  "sv_registry (snd (auto_status E sess stage s)) = sv_registry s"
  by (auto simp: auto_status_def Let_def call_cases getProgress_def split: go.splits prod.splits sum.splits)

text \<open>C26: get_session_progress and the gate of the tools agree. The answer says ready exactly when the
  gate lets requests through, no analysis pass holds the guard, and the worker, when it was asked,
  did not report a running analysis; polling changes none of these.\<close>

theorem progress_ready_iff_gate_open:
  assumes "getSessionProgress E args s = (Ret (JsonContent (JObject obj)), s')"
  shows "\<exists>sess autoRunning. resolveSession (ev_order E) (gsp_SessionID args) s = (Ret sess, s) \<and>
     get_key obj ''auto_running'' = Some (JBool autoRunning) \<and>
     get_key obj ''ready'' = Some (JBool
       (readinessError (se_ID (session_of s sess)) s = None \<and> \<not> AnalysisActive (session_of s sess) \<and> \<not> autoRunning)) \<and>
     readinessError (se_ID (session_of s sess)) s' = readinessError (se_ID (session_of s sess)) s"
proof -
  obtain sess s1 where r: "resolveSession (ev_order E) (gsp_SessionID args) s = (Ret sess, s1)"
    using assms unfolding getSessionProgress_def by (rule and_then_RetE)
  have s1: "s1 = s" using resolveSession_Ret(1) [OF r] .
  define t where "t = on_registry (on_session sess (Touch (ev_now E))) s"
  define sid where "sid = se_ID (session_of s sess)"
  have id: "se_ID (session_of t sess) = sid" and act: "AnalysisActive (session_of t sess) = AnalysisActive (session_of s sess)"
    and prog: "getProgress sid t = getProgress sid s"
    by (simp_all add: t_def sid_def session_of_on_registry Touch_def AnalysisActive_def)
  obtain stage msg v w u where p: "shown_progress (getProgress sid s) = (stage, msg, v, w, u)" by (metis prod.collapse)
  obtain st run t' where a: "auto_status E sess stage t = ((st, run), t')" by (metis prod.collapse)
  have s': "s' = t'" and keys: "get_key obj ''auto_running'' = Some (JBool run)"
    "get_key obj ''ready'' = Some (JBool (progress_ready (AnalysisActive (session_of s sess)) run stage))"
    using assms unfolding getSessionProgress_def
    by (auto simp: and_then_def r s1 Let_def t_def [symmetric] id prog p a act get_key_def)
  have "stage \<noteq> ''failed'' \<and> stage \<notin> set inProgressStages \<longleftrightarrow> readinessError sid s = None"
    using p by (cases "getProgress sid s") (auto simp: readinessError_None shown_progress_def inProgressStages_def)
  then have "progress_ready (AnalysisActive (session_of s sess)) run stage \<longleftrightarrow>
      readinessError sid s = None \<and> \<not> AnalysisActive (session_of s sess) \<and> \<not> run"
    by (auto simp: progress_ready_def)
  moreover have "readinessError sid s' = readinessError sid s"
    using auto_status_keeps(1) [of sid E sess stage t] a prog s' by (simp add: readinessError_def)
  ultimately show ?thesis using r s1 keys by (auto simp: sid_def)
qed

theorem progress_ready_iff_gate_open_witness:
  "\<forall>E (dbs :: nat \<Rightarrow> 'db). \<exists>obj s'. getSessionProgress E \<lparr>gsp_SessionID = ''a''\<rparr>
       ((one_session dbs ''ready'')\<lparr>sv_workers := NewManager\<rparr>) = (Ret (JsonContent (JObject obj)), s') \<and>
     get_key obj ''ready'' = Some (JBool True)"
proof (intro allI)
  fix E :: "'db env" and dbs :: "nat \<Rightarrow> 'db"
  let ?args = "\<lparr>gsp_SessionID = ''a''\<rparr> :: GetSessionProgressRequest"
  define s where "s = (one_session dbs ''ready'')\<lparr>sv_workers := NewManager\<rparr>"
  have sess: "session_of s ref = no_session\<lparr>se_ID := ''a'', se_BinaryPath := ''/x''\<rparr>" for ref
    using one_session_simps(3) [of dbs "''ready''" ref] by (simp add: session_of_def s_def)
  have res: "resolveSession (ev_order E) ''a'' s = (Ret 0, s)"
    by (simp add: resolveSession_def registry_Get_def one_session_simps s_def)
  have prog: "getProgress ''a'' s = getProgress ''a'' (one_session dbs ''ready'')"
    by (simp add: getProgress_def s_def)
  define t where "t = on_registry (on_session 0 (Touch (ev_now E))) s"
  have t: "se_ID (session_of t 0) = ''a''" "\<not> AnalysisActive (session_of t 0)" "getProgress ''a'' t = getProgress ''a'' s"
    by (simp_all add: t_def session_of_on_registry Touch_def AnalysisActive_def sess no_session_def)
  have no: "\<exists>e. manager_GetClient ''a'' (sv_workers t) = Err e"
    by (simp add: t_def s_def manager_GetClient_def NewManager_def)
  have auto: "auto_status E 0 ''ready'' t = ((''unknown'', False), t)"
    using t no by (auto simp: auto_status_def inProgressStages_def)
  obtain obj s' where run: "getSessionProgress E ?args s = (Ret (JsonContent (JObject obj)), s')"
    and run': "get_key obj ''auto_running'' = Some (JBool False)"
    by (simp add: getSessionProgress_def and_then_def res Let_def t_def [symmetric] t prog one_session_simps
        shown_progress_def auto get_key_def)
  have "readinessError ''a'' s = None"
    using prog by (simp add: readinessError_None one_session_simps inProgressStages_def)
  then have "get_key obj ''ready'' = Some (JBool True)"
    using progress_ready_iff_gate_open [OF run] run' res by (auto simp: sess AnalysisActive_def no_session_def)
  with run show "\<exists>obj s'. getSessionProgress E ?args ((one_session dbs ''ready'')\<lparr>sv_workers := NewManager\<rparr>) =
       (Ret (JsonContent (JObject obj)), s') \<and> get_key obj ''ready'' = Some (JBool True)"
    unfolding s_def [symmetric] by blast
qed

text \<open>watch_auto_analysis records its own stage.\<close>

lemma watch_loop_stage:
  assumes "watch_loop E sess client (Some (newProgressReporter sid token ''auto_analysis'')) turns updates s = (Ret r, s')"
    and "se_ID (session_of s sess) = sid" and "sid \<noteq> []"
  shows "(\<exists>p. getProgress sid s' = Some p \<and> pg_Stage p = ''auto_analysis'') \<and> sv_registry s' = sv_registry s"
  using assms
proof (induction turns arbitrary: updates s)
  case Nil
  then show ?case by simp
next
  case (Cons turn turns)
  obtain now elapsed where turn: "turn = (now, elapsed)" by (cases turn)
  let ?p = "Some (newProgressReporter sid token ''auto_analysis'')"
  obtain c s1 where c: "call (w_GetSessionInfo (wa_session (ev_worker E))) () client s = (c, s1)" by force
  have s1: "sv_registry s1 = sv_registry s" using c by (auto simp: call_cases split: prod.splits)
  have sess: "session_of s1 ref = session_of s ref" for ref using s1 by (simp add: session_of_def)
  have emit: "getProgress sid (emitProgress now ?p sid ''auto_analysis'' msg a b t) =
        Some \<lparr>pg_Stage = ''auto_analysis'', pg_Message = msg, pg_Progress = a, pg_Total = b, pg_UpdatedAt = now\<rparr>"
    "sv_registry (emitProgress now ?p sid ''auto_analysis'' msg a b t) = sv_registry t" for msg a b and t :: "'a server"
    using Cons.prems(3)
    by (simp_all add: emitProgress_def Emit_def Let_def newProgressReporter_def recordProgress_def getProgress_def)
  show ?case
  proof (cases c)
    case (Ret resp)
    show ?thesis
    proof (cases "nf_AutoRunning (rp_Msg resp) \<and> turns \<noteq> []")
      case True
      let ?s2 = "emitProgress now ?p sid ''auto_analysis'' (''auto_state='' @ nf_AutoState (rp_Msg resp) @ '' running='' @ show_bool True) 0 0 s1"
      have s2: "sv_registry ?s2 = sv_registry s" using emit(2) s1 by simp
      from Cons.prems(1) True obtain us where "watch_loop E sess client ?p turns us ?s2 = (Ret r, s')"
        by (auto simp: turn c Ret Let_def sess Cons.prems(2))
      moreover have "se_ID (session_of ?s2 sess) = sid" using s2 Cons.prems(2) by (simp add: session_of_def)
      ultimately show ?thesis using Cons.IH [of us ?s2] Cons.prems(3) s2 by simp
    next
      case False
      then show ?thesis using Cons.prems(1,2) emit s1
        by (auto simp: turn c Ret Let_def sess split: if_splits)
    qed
  qed (use Cons.prems(1) in \<open>simp_all add: turn c\<close>)
qed

text \<open>C39: watch_auto_analysis opens the gate. It records the stage auto_analysis over the one the
  analysis recorded; since that stage is not in the list of the gate, tools are let through while
  the pass is still running, until the next heartbeat.\<close>

theorem watch_opens_the_gate:
  assumes "resolveClientDuringLoad E (waa_SessionID args) ''watch_auto_analysis'' s = (Ret (sess, client), s1)"
    and "sid = se_ID (session_of s1 sess)" and "sid \<noteq> []" and "AnalysisActive (session_of s1 sess)"
    and "watchAutoAnalysis E token turns args s = (Ret r, s')"
  shows "AnalysisActive (session_of s' sess) \<and> readinessError sid s' = None"
proof -
  have "watch_loop E sess client (Some (newProgressReporter sid token ''auto_analysis'')) turns [] s1 = (Ret r, s')"
    using assms(1,2,5) by (simp add: watchAutoAnalysis_def and_then_def Let_def)
  from watch_loop_stage [OF this assms(2) [symmetric] assms(3)]
  obtain p where "getProgress sid s' = Some p" "pg_Stage p = ''auto_analysis''" "sv_registry s' = sv_registry s1"
    by blast
  then show ?thesis using assms(4) by (simp add: readinessError_None inProgressStages_def session_of_def)
qed

definition demo_running :: "'db env \<Rightarrow> 'db env" where
  "demo_running E =
     E\<lparr>ev_worker := (ev_worker E)\<lparr>wa_session := (wa_session (ev_worker E))
         \<lparr>w_GetSessionInfo := (\<lambda>_ db.
            (Inr \<lparr>rp_Error = [], rp_Msg = \<lparr>nf_HasDecompiler = True, nf_AutoRunning = True, nf_AutoState = ''busy''\<rparr>\<rparr>, db))\<rparr>\<rparr>\<rparr>"

lemma demo_running_info:
  "w_GetSessionInfo (wa_session (ev_worker (demo_running E))) u db =
     (Inr \<lparr>rp_Error = [], rp_Msg = \<lparr>nf_HasDecompiler = True, nf_AutoRunning = True, nf_AutoState = ''busy''\<rparr>\<rparr>, db)"
  by (simp add: demo_running_def)

theorem watch_opens_the_gate_witness:
  "\<forall>E (dbs :: nat \<Rightarrow> 'db). let s = snd (claim_analysis 0 (one_session dbs ''analyzing''));
     s' = snd (watchAutoAnalysis (demo_running E) False [(1, 0)] \<lparr>waa_SessionID = ''a'', waa_IntervalMs = 0, waa_TimeoutSecs = 0\<rparr> s)
   in readinessError ''a'' s \<noteq> None \<and> AnalysisActive (session_of s' 0) \<and> readinessError ''a'' s' = None"
proof (intro allI)
  fix E :: "'db env" and dbs :: "nat \<Rightarrow> 'db"
  let ?args = "\<lparr>waa_SessionID = ''a'', waa_IntervalMs = 0, waa_TimeoutSecs = 0\<rparr> :: WatchAutoAnalysisRequest"
  define s where "s = snd (claim_analysis 0 (one_session dbs ''analyzing''))"
  have s: "s = on_registry (on_session 0 (\<lambda>_. (session_of (one_session dbs ''analyzing'') 0)\<lparr>se_analysisActive := True\<rparr>)) (one_session dbs ''analyzing'')"
    by (simp add: s_def claim_analysis_def TryBeginAnalysis_def one_session_simps no_session_def)
  have sess: "se_ID (session_of s 0) = ''a''" "AnalysisActive (session_of s 0)"
    by (simp_all add: s session_of_on_registry one_session_simps AnalysisActive_def)
  have load: "resolveClientDuringLoad (demo_running E) ''a'' tool s = (Ret (0, 0), leased (ev_now (demo_running E)) 0 s)" for tool
    by (simp add: resolveClientDuringLoad_def and_then_def resolveSession_def registry_Get_def s on_session_def Let_def
        one_session_simps manager_GetClient_def session_of_on_registry session_ops_keep_key leased_def)
  have run: "\<exists>r s'. watchAutoAnalysis (demo_running E) False [(1, 0)] ?args s = (Ret r, s')"
    by (simp add: watchAutoAnalysis_def and_then_def load Let_def call_cases demo_running_info)
  then obtain r s' where r: "watchAutoAnalysis (demo_running E) False [(1, 0)] ?args s = (Ret r, s')" by blast
  have "AnalysisActive (session_of s' 0) \<and> readinessError ''a'' s' = None"
  proof (rule watch_opens_the_gate [OF _ _ _ _ r])
    show "resolveClientDuringLoad (demo_running E) (waa_SessionID ?args) ''watch_auto_analysis'' s =
        (Ret (0, 0), leased (ev_now (demo_running E)) 0 s)" by (simp add: load)
    show "''a'' = se_ID (session_of (leased (ev_now (demo_running E)) 0 s) 0)" by (simp add: sess)
    show "AnalysisActive (session_of (leased (ev_now (demo_running E)) 0 s) 0)"
      using sess(2) by (simp add: session_of_leased AnalysisActive_def AcquireInFlight_def Touch_def)
  qed simp
  moreover have "getProgress ''a'' s = getProgress ''a'' (one_session dbs ''analyzing'')" by (simp add: s)
  then have "readinessError ''a'' s \<noteq> None" by (simp add: readinessError_None one_session_simps inProgressStages_def)
  ultimately show "let s = snd (claim_analysis 0 (one_session dbs ''analyzing''));
     s' = snd (watchAutoAnalysis (demo_running E) False [(1, 0)] ?args s)
   in readinessError ''a'' s \<noteq> None \<and> AnalysisActive (session_of s' 0) \<and> readinessError ''a'' s' = None"
    unfolding Let_def s_def [symmetric] r snd_conv by simp
qed

end
