(* ===== verification/Composite.thy ===== *)
theory Composite
  imports ReadTools Lifecycle
begin

text \<open>
  The composite tools (internal/server/composite.go), with the item maps of server.go and
  workerPOST of util.go. The values that the parallel tasks send as \<open>any\<close> are one datatype; the
  type assertions of the code are patterns on it. A map that is built key by key is the
  association list of its keys.
\<close>

section \<open>server.go: items\<close>

definition mapStringItems :: "StringItem list \<Rightarrow> json" where
  "mapStringItems items =
     JArray (map (\<lambda>i. JObject [(''address'', JString (hexAddr (si_Address i))), (''value'', JString (si_Value i))]) items)"

definition mapFunctionItems :: "Function list \<Rightarrow> json" where
  "mapFunctionItems items =
     JArray (map (\<lambda>fn. JObject [(''address'', JString (hexAddr (fn_Address fn))), (''name'', JString (fn_Name fn))]) items)"

definition mapImportItems :: "Import list \<Rightarrow> json" where
  "mapImportItems items =
     JArray (map (\<lambda>imp. JObject
       ([(''module'', JString (ip_Module imp)), (''address'', JString (hexAddr (ip_Address imp))),
         (''name'', JString (ip_Name imp))] @
        (if ip_Ordinal imp \<noteq> 0 then [(''ordinal'', JInt (uint (ip_Ordinal imp)))] else []))) items)"

definition mapExportItems :: "Export list \<Rightarrow> json" where
  "mapExportItems items =
     JArray (map (\<lambda>exp. JObject
       ([(''address'', JString (hexAddr (ep_Address exp))), (''name'', JString (ep_Name exp))] @
        (if ep_Ordinal exp \<noteq> 0 then [(''ordinal'', JInt (uint (ep_Ordinal exp)))] else []))) items)"

section \<open>Values of tasks\<close>

datatype task_value =
    VSegments "Segment list"
  | VFunctions "Function list"
  | VImports "Import list"
  | VExports "Export list"
  | VStrings int "StringItem list"
  | VAddress u64
  | VInfo SessionInfo
  | VText string
  | VFunctionInfo FunctionInfo
  | VXRefs xrefsEntry
  | VTuples "(u64 \<times> u32) list"
  | VTypeAt TypeAt
  | VLength u32

definition task :: "('a \<Rightarrow> 'v) \<Rightarrow> ('s, 'a) step \<Rightarrow> ('s, 'v) step" where
  "task con m = and_then m (\<lambda>x. ret (con x))"

text \<open>A field of a map that is set only under a condition.\<close>

definition field_if :: "bool \<Rightarrow> string \<Rightarrow> json \<Rightarrow> (string \<times> json) list" where
  "field_if b key v = (if b then [(key, v)] else [])"

section \<open>survey_binary\<close>

definition surveyTopN :: nat where
  "surveyTopN = 20"

definition survey_strings :: "'db env \<Rightarrow> nat \<Rightarrow> ('db server, task_value) step" where
  "survey_strings E client =
     and_then (call_checked (w_GetStrings (wa_list (ev_worker E))) (0, int surveyTopN) client) (\<lambda>(tot, items).
       ret (VStrings (if tot = 0 \<and> items \<noteq> [] then int32 (int (length items)) else tot) items))"

definition survey_tasks :: "'db env \<Rightarrow> string \<Rightarrow> nat \<Rightarrow> (string \<times> ('db server, task_value) step) list" where
  "survey_tasks E sid client =
     [(''segments'', task (\<lambda>(d, _). VSegments d)
         (loadSegments sid (call_checked (w_GetSegments (wa_list (ev_worker E))) () client))),
      (''functions'', task (\<lambda>(d, _). VFunctions d) (loadFunctions sid (fetchAllFunctions E client None))),
      (''imports'', task (\<lambda>(d, _). VImports d) (loadImports sid (fetchAllImports E client None))),
      (''exports'', task (\<lambda>(d, _). VExports d) (loadExports sid (fetchAllExports E client None))),
      (''strings'', survey_strings E client),
      (''entry_point'', task VAddress (call_checked (w_GetEntryPoint (wa_list (ev_worker E))) () client)),
      (''info'', task (\<lambda>r. VInfo (rp_Msg r)) (call (w_GetSessionInfo (wa_session (ev_worker E))) () client))]"

text \<open>The failed sections, sorted.\<close>

definition survey_sections :: "string list" where
  "survey_sections = [''entry_point'', ''exports'', ''functions'', ''imports'', ''info'', ''segments'', ''strings'']"

definition survey_failed :: "(string \<rightharpoonup> gerr) \<Rightarrow> string list" where
  "survey_failed errs = filter (\<lambda>k. errs k \<noteq> None) survey_sections"

definition segment_item :: "Segment \<Rightarrow> json" where
  "segment_item seg =
     JObject [(''name'', JString (sg_Name seg)), (''start'', JString (hexAddr (sg_Start seg))),
              (''end'', JString (hexAddr (sg_End seg))), (''permissions'', JInt (uint (sg_Permissions seg))),
              (''class'', JString (sg_SegClass seg))]"

definition survey_next :: "u64 option \<Rightarrow> string" where
  "survey_next ep =
     (case ep of
        Some a \<Rightarrow> ''call analyze_function(address='' @ hexAddr a @
          '') on the entry point, or analyze_functions for several named functions''
      | None \<Rightarrow> ''call analyze_function on an address of interest, or analyze_functions for several'')"

definition survey_value :: "(string \<rightharpoonup> task_value) \<Rightarrow> string \<Rightarrow> (string \<times> json) list" where
  "survey_value data key =
     (case data key of
        Some (VAddress a) \<Rightarrow> [(''entry_point'', JString (hexAddr a))]
      | Some (VInfo i) \<Rightarrow>
          [(''has_decompiler'', JBool (nf_HasDecompiler i)), (''auto_state'', JString (nf_AutoState i)),
           (''auto_running'', JBool (nf_AutoRunning i))]
      | Some (VSegments segs) \<Rightarrow> [(''segments'', JArray (map segment_item segs))]
      | Some (VFunctions funcs) \<Rightarrow>
          let named = filter (\<lambda>fn. \<not> isAutoNamed (fn_Name fn)) funcs
          in [(''functions'', JObject [(''total'', JInt (int (length funcs))), (''named'', JInt (int (length named))),
                (''top_named'', mapFunctionItems (take surveyTopN named))])]
      | Some (VImports imps) \<Rightarrow>
          [(''imports'', JObject [(''count'', JInt (int (length imps))), (''top'', mapImportItems (take surveyTopN imps))])]
      | Some (VExports exps) \<Rightarrow>
          [(''exports'', JObject [(''count'', JInt (int (length exps))), (''top'', mapExportItems (take surveyTopN exps))])]
      | Some (VStrings n items) \<Rightarrow> [(''strings'', JObject [(''count'', JInt n), (''top'', mapStringItems items)])]
      | _ \<Rightarrow> [])"

definition survey_object :: "string \<Rightarrow> (string \<rightharpoonup> task_value) \<Rightarrow> (string \<rightharpoonup> gerr) \<Rightarrow> (string \<times> json) list" where
  "survey_object path data errs =
     (let failed = survey_failed errs in
      [(''binary_path'', JString path)] @
      field_if (failed \<noteq> []) ''failed_sections'' (JArray (map JString failed)) @
      concat (map (survey_value data) [''entry_point'', ''info'', ''segments'', ''functions'', ''imports'', ''exports'', ''strings'']) @
      [(''next_step'', JString (survey_next (case data ''entry_point'' of Some (VAddress a) \<Rightarrow> Some a | _ \<Rightarrow> None)))])"

definition surveyBinary :: "'db env \<Rightarrow> 'db wait_env \<Rightarrow> SurveyBinaryRequest \<Rightarrow> ('db server, tool_result) step" where
  "surveyBinary E W args =
     and_then (resolveClientWait E W (sb_SessionID args) ''survey_binary'') (\<lambda>(sess, client) s.
       let sid = se_ID (session_of s sess);
           path = se_BinaryPath (session_of s sess)
       in and_then (runLabeled (sch_tasks (ev_sched E)) (survey_tasks E sid client)) (\<lambda>(data, errs).
          and_then (upd (promoteToTier 2)) (\<lambda>_.
          ret (JsonContent (JObject (survey_object path data errs))))) (getSessionCache sid s))"

section \<open>analyze_function\<close>

definition analyze_decompiled :: "'db env \<Rightarrow> string \<Rightarrow> nat \<Rightarrow> u64 \<Rightarrow> ('db server, task_value) step" where
  "analyze_decompiled E sid client addr s =
     (let hit = fst (getDecomp addr (session_cache sid s));
          s = on_cache sid (\<lambda>c. snd (getDecomp addr c)) s
      in case hit of
           Some code \<Rightarrow> (Ret (VText code), s)
         | None \<Rightarrow>
             and_then (call_checked (w_GetDecompiled (wa_func (ev_worker E))) addr client) (\<lambda>code.
             and_then (upd (on_cache sid (setDecomp addr code))) (\<lambda>_. ret (VText code))) s)"

text \<open>errors.Join of the two directions.\<close>

definition join_errors :: "(string \<Rightarrow> string) \<Rightarrow> gerr option \<Rightarrow> gerr option \<Rightarrow> gerr option" where
  "join_errors q a b =
     (case (a, b) of
        (None, None) \<Rightarrow> None
      | (Some e, None) \<Rightarrow> Some (Msg (err_text q e))
      | (None, Some e) \<Rightarrow> Some (Msg (err_text q e))
      | (Some e, Some e') \<Rightarrow> Some (Msg (err_text q e @ nl @ err_text q e')))"

definition tuples_of :: "task_value option \<Rightarrow> (u64 \<times> u32) list" where
  "tuples_of v = (case v of Some (VTuples xs) \<Rightarrow> xs | _ \<Rightarrow> [])"

definition analyze_xrefs :: "'db env \<Rightarrow> string \<Rightarrow> nat \<Rightarrow> u64 \<Rightarrow> ('db server, task_value) step" where
  "analyze_xrefs E sid client addr s =
     (case getXRefs_cached addr (session_cache sid s) of
        Some entry \<Rightarrow> (Ret (VXRefs entry), s)
      | None \<Rightarrow>
          and_then (runLabeled (sch_tasks (ev_sched E))
                      [(''to'', task VTuples (xrefs_to E client addr)), (''from'', task VTuples (xrefs_from E client addr))])
            (\<lambda>(xres, xerrs).
              case join_errors (ev_quote E) (xerrs ''to'') (xerrs ''from'') of
                Some e \<Rightarrow> fail e
              | None \<Rightarrow>
                  let entry = \<lparr>xe_to = tuples_of (xres ''to''), xe_from = tuples_of (xres ''from'')\<rparr>
                  in and_then (upd (on_cache sid (setXRefs addr entry))) (\<lambda>_. ret (VXRefs entry))) s)"

definition analyze_tasks :: "'db env \<Rightarrow> string \<Rightarrow> nat \<Rightarrow> u64 \<Rightarrow> (string \<times> ('db server, task_value) step) list" where
  "analyze_tasks E sid client addr =
     [(''decompiled'', analyze_decompiled E sid client addr),
      (''info'', task VFunctionInfo (call_checked (w_GetFunctionInfo (wa_func (ev_worker E))) addr client)),
      (''xrefs'', analyze_xrefs E sid client addr),
      (''comment'', task (\<lambda>r. VText (rp_Msg r)) (call (w_GetFuncComment (wa_func (ev_worker E))) addr client))]"

definition info_fields :: "FunctionInfo \<Rightarrow> (string \<times> json) list" where
  "info_fields info =
     (let flags = field_if (fi_IsLibrary info) ''is_library'' (JBool True) @ field_if (fi_IsThunk info) ''is_thunk'' (JBool True) @
                  field_if (fi_NoReturn info) ''no_return'' (JBool True)
      in [(''name'', JString (fi_Name info)), (''start'', JString (hexAddr (fi_Start info))),
          (''end'', JString (hexAddr (fi_End info))), (''size'', JInt (uint (fi_Size info)))] @
         field_if (fi_CallingConvention info \<noteq> []) ''calling_convention'' (JString (fi_CallingConvention info)) @
         field_if (fi_ReturnType info \<noteq> []) ''return_type'' (JString (fi_ReturnType info)) @
         field_if (0 < fi_NumArgs info) ''num_args'' (JInt (uint (fi_NumArgs info))) @
         field_if (flags \<noteq> []) ''flags'' (JObject flags))"

definition tuples_json :: "(u64 \<times> u32) list \<Rightarrow> json" where
  "tuples_json xs = JArray (map (\<lambda>(a, ty). JArray [JString a, JInt (uint ty)]) (hexAddrTuples xs))"

definition analyze_object :: "'db env \<Rightarrow> (string \<rightharpoonup> task_value) \<Rightarrow> (string \<rightharpoonup> gerr) \<Rightarrow> (string \<times> json) list" where
  "analyze_object E data errs =
     (case data ''decompiled'' of
        Some (VText code) \<Rightarrow> [(''decompilation'', JString code)]
      | _ \<Rightarrow> (case errs ''decompiled'' of
                None \<Rightarrow> [] | Some e \<Rightarrow> [(''decompilation_error'', JString (err_text (ev_quote E) e))])) @
     (case data ''info'' of Some (VFunctionInfo info) \<Rightarrow> info_fields info | _ \<Rightarrow> []) @
     (case data ''xrefs'' of
        Some (VXRefs entry) \<Rightarrow>
          field_if (xe_to entry \<noteq> []) ''xrefs_to'' (tuples_json (xe_to entry)) @
          field_if (xe_from entry \<noteq> []) ''xrefs_from'' (tuples_json (xe_from entry))
      | _ \<Rightarrow> (case errs ''xrefs'' of
                None \<Rightarrow> [] | Some e \<Rightarrow> [(''xrefs_error'', JString (err_text (ev_quote E) e))])) @
     (case data ''comment'' of
        Some (VText comment) \<Rightarrow> field_if (comment \<noteq> []) ''comment'' (JString comment) | _ \<Rightarrow> [])"

text \<open>A task gives a value or an error, so the run returns.\<close>

definition analyzeSingleFunction :: "'db env \<Rightarrow> nat \<Rightarrow> nat \<Rightarrow> u64 \<Rightarrow> ('db server, json) step" where
  "analyzeSingleFunction E sess client addr s =
     (let sid = se_ID (session_of s sess) in
      and_then (runLabeled (sch_tasks (ev_sched E)) (analyze_tasks E sid client addr)) (\<lambda>(data, errs).
      and_then (upd (on_cache sid (markVisited addr (unix (ev_now E)) []))) (\<lambda>_.
      ret (JObject (analyze_object E data errs)))) (getSessionCache sid s))"

definition analyzeFunction :: "'db env \<Rightarrow> 'db wait_env \<Rightarrow> AnalyzeFunctionRequest \<Rightarrow> ('db server, tool_result) step" where
  "analyzeFunction E W args =
     and_then (resolveClientWait E W (af_SessionID args) ''analyze_function'') (\<lambda>(sess, client).
     and_then (lift (parseAddr (af_Address args))) (\<lambda>addr.
     and_then (analyzeSingleFunction E sess client addr) (\<lambda>result.
     and_then (upd (promoteToTier 2)) (\<lambda>_. ret (JsonContent result)))))"

definition maxBatchAnalyze :: nat where
  "maxBatchAnalyze = 10"

text \<open>One item of the batch; an error of its address is its result.\<close>

definition analyze_item :: "'db env \<Rightarrow> nat \<Rightarrow> nat \<Rightarrow> string \<Rightarrow> 'db server \<Rightarrow> json go \<times> 'db server" where
  "analyze_item E sess client a =
     catching (lift (parseAddr a)) (\<lambda>r.
       case r of
         Inl e \<Rightarrow> ret (JObject [(''address'', JString a), (''error'', JString (err_text (ev_quote E) e))])
       | Inr addr \<Rightarrow> analyzeSingleFunction E sess client addr)"

text \<open>The results in input order; a panic of an item would end the process.\<close>

fun all_results :: "json go list \<Rightarrow> json list go" where
  "all_results [] = Ret []"
| "all_results (Ret j # rs) = (case all_results rs of Ret js \<Rightarrow> Ret (j # js) | Err e \<Rightarrow> Err e | Panic p \<Rightarrow> Panic p)"
| "all_results (Err e # rs) = Err e"
| "all_results (Panic p # rs) = Panic p"

definition analyzeFunctions :: "'db env \<Rightarrow> 'db wait_env \<Rightarrow> AnalyzeFunctionsRequest \<Rightarrow> ('db server, tool_result) step" where
  "analyzeFunctions E W args s =
     (if afs_Addresses args = [] then (Err (Msg ''addresses required''), s)
      else if length (afs_Addresses args) > maxBatchAnalyze then
        (Err (Msg (''max '' @ show_dec (int maxBatchAnalyze) @ '' functions per batch'')), s)
      else
        and_then (resolveClientWait E W (afs_SessionID args) ''analyze_functions'') (\<lambda>(sess, client) s.
          let (results, s) = parallelMap (sch_indices (ev_sched E)) (Ret JNull) (analyze_item E sess client) (afs_Addresses args) s
          in and_then (lift (all_results results)) (\<lambda>js. ret (JsonContent (JObject [(''functions'', JArray js)]))) s) s)"

section \<open>util.go: workerPOST\<close>

text \<open>The request to a fixed URL of the worker always builds; the worker gives a transport error, or
  a status and the outcome of reading the body.\<close>

definition workerPOST :: "'db env \<Rightarrow> nat \<Rightarrow> string \<Rightarrow> string \<Rightarrow> string \<Rightarrow> ('db server, string) step" where
  "workerPOST E client path payload label s =
     (case w_POST (wa_import (ev_worker E)) (path, payload) (sv_dbs s client) of
        (Inl e, db) \<Rightarrow> (Err (Ctx (label @ '' HTTP call'') e), db_step client db s)
      | (Inr (status, body), db) \<Rightarrow>
          (case body of
             Err e \<Rightarrow> Err (Ctx (label @ '' read response'') e)
           | Panic p \<Rightarrow> Panic p
           | Ret respBody \<Rightarrow>
               if status \<noteq> 200 then
                 Err (Ctx (label @ '' worker error'') (Msg (''status '' @ show_dec status @ '': '' @ respBody)))
               else Ret respBody, db_step client db s))"

section \<open>annotate_function\<close>

definition comment_item :: "u64 \<times> string \<Rightarrow> json" where
  "comment_item p = JObject [(''address'', JInt (uint (fst p))), (''comment'', JString (snd p))]"

fun parse_comments :: "DecompComment list \<Rightarrow> (u64 \<times> string) list go" where
  "parse_comments [] = Ret []"
| "parse_comments (dc # dcs) =
     (case parseAddr (dc_Address dc) of
        Ret a \<Rightarrow> (case parse_comments dcs of Ret rest \<Rightarrow> Ret ((a, dc_Comment dc) # rest) | Err e \<Rightarrow> Err e | Panic p \<Rightarrow> Panic p)
      | Err e \<Rightarrow> Err e
      | Panic p \<Rightarrow> Panic p)"

definition annotate_request :: "u64 \<Rightarrow> AnnotateFunctionRequest \<Rightarrow> (u64 \<times> string) list \<Rightarrow> json" where
  "annotate_request addr args dcs =
     JObject ([(''address'', JInt (uint addr))] @
       field_if (ann_Retypes args \<noteq> []) ''retypes''
         (JArray (map (\<lambda>rt. JObject [(''name'', JString (lrt_Name rt)), (''type'', JString (lrt_Type rt))]) (ann_Retypes args))) @
       field_if (ann_Renames args \<noteq> []) ''renames''
         (JArray (map (\<lambda>rn. JObject [(''current'', JString (lrn_Current rn)), (''new'', JString (lrn_New rn))]) (ann_Renames args))) @
       field_if (ann_Name args \<noteq> []) ''name'' (JString (ann_Name args)) @
       field_if (ann_Comment args \<noteq> []) ''comment'' (JString (ann_Comment args)) @
       field_if (dcs \<noteq> []) ''decompiler_comments'' (JArray (map comment_item dcs)))"

text \<open>A response \<open>null\<close> leaves the map nil, and assigning the address into it panics.\<close>

definition annotate_response :: "'db env \<Rightarrow> u64 \<Rightarrow> string \<Rightarrow> tool_result go" where
  "annotate_response E addr respBody =
     (case ev_unmarshal E respBody of
        Inl e \<Rightarrow> Err (Ctx ''annotate_function parse response'' e)
      | Inr None \<Rightarrow> Panic NilMapWrite
      | Inr (Some obj) \<Rightarrow> Ret (JsonContent (JObject (AList.update ''address'' (JString (hexAddr addr)) obj))))"

definition annotateFunction :: "'db env \<Rightarrow> 'db wait_env \<Rightarrow> AnnotateFunctionRequest \<Rightarrow> ('db server, tool_result) step" where
  "annotateFunction E W args =
     and_then (resolveClientWait E W (ann_SessionID args) ''annotate_function'') (\<lambda>(sess, client) s.
       let sid = se_ID (session_of s sess) in
       and_then (lift (parseAddr (ann_Address args))) (\<lambda>addr.
       and_then (lift (parse_comments (ann_DecompComments args))) (\<lambda>dcs.
       and_then (workerPOST E client ''/batch_annotate'' (ev_marshal E (annotate_request addr args dcs)) ''annotate_function'')
         (\<lambda>respBody.
       and_then (upd (on_cache sid (\<lambda>c. invalidateDecomp addr (if ann_Name args \<noteq> [] then invalidateFunctions c else c)))) (\<lambda>_.
       lift (annotate_response E addr respBody))))) s)"

section \<open>Analysis context\<close>

definition setAnalysisNote :: "'db env \<Rightarrow> SetAnalysisNoteRequest \<Rightarrow> ('db server, tool_result) step" where
  "setAnalysisNote E args =
     and_then (resolveSession (ev_order E) (san_SessionID args)) (\<lambda>sess.
     and_then (lift (parseAddr (san_Address args))) (\<lambda>addr s.
       let s = on_registry (on_session sess (Touch (ev_now E))) s;
           sid = se_ID (session_of s sess)
       in (Ret ok_result, on_cache sid (setNote addr (unix (ev_now E)) (san_Note args)) s)))"

definition visited_item :: "u64 \<Rightarrow> analysisNote \<Rightarrow> json" where
  "visited_item addr note =
     JObject ([(''address'', JString (hexAddr addr)), (''t'', JInt (an_Timestamp note))] @
              field_if (an_Note note \<noteq> []) ''note'' (JString (an_Note note)))"

text \<open>\<open>ev_visits\<close> lists the visited addresses in the order the map was ranged over.\<close>

definition visited_items :: "u64 list \<Rightarrow> (u64 \<rightharpoonup> analysisNote) \<Rightarrow> json list" where
  "visited_items order visited =
     concat (map (\<lambda>addr. case visited addr of None \<Rightarrow> [] | Some note \<Rightarrow> [visited_item addr note]) order)"

definition getAnalysisContext :: "'db env \<Rightarrow> GetAnalysisContextRequest \<Rightarrow> ('db server, tool_result) step" where
  "getAnalysisContext E args =
     and_then (resolveSession (ev_order E) (gac_SessionID args)) (\<lambda>sess s.
       let s = on_registry (on_session sess (Touch (ev_now E))) s;
           sid = se_ID (session_of s sess);
           s = getSessionCache sid s
       in (Ret (JsonContent (JObject
            [(''visited'', JArray (visited_items (ev_visits E) (getVisited (session_cache sid s))))])), s))"

definition pruneContext :: "'db env \<Rightarrow> PruneContextRequest \<Rightarrow> ('db server, tool_result) step" where
  "pruneContext E args =
     and_then (resolveSession (ev_order E) (pc_SessionID args)) (\<lambda>sess s.
       let s = on_registry (on_session sess (Touch (ev_now E))) s;
           sid = se_ID (session_of s sess);
           (outputsCleared, outputs) = outputs_clear (sv_outputs s);
           s = s\<lparr>sv_outputs := outputs\<rparr>;
           cachesPruned = fst (pruneNotedFunctions (ev_visits E) (session_cache sid s))
       in (Ret (TextContent (''Pruned '' @ show_dec (int outputsCleared) @ '' cached outputs, '' @
              show_dec cachesPruned @ '' noted function caches'')), on_cache sid (\<lambda>c. snd (pruneNotedFunctions (ev_visits E) c)) s))"

section \<open>py_eval\<close>

definition pyEval :: "'db env \<Rightarrow> 'db wait_env \<Rightarrow> PyEvalRequest \<Rightarrow> ('db server, tool_result) step" where
  "pyEval E W args =
     and_then (resolveClientWait E W (pe_SessionID args) ''py_eval'') (\<lambda>(sess, client) s.
       let sid = se_ID (session_of s sess) in
       and_then (workerPOST E client ''/py_eval'' (ev_marshal E (JObject [(''code'', JString (pe_Code args))])) ''py_eval'')
         (\<lambda>respBody.
       and_then (upd (if pe_ReadOnly args then (\<lambda>s. s)
                      else on_cache sid (\<lambda>c. invalidateAllXRefs (invalidateAllDecomp (invalidateFunctions c))))) (\<lambda>_.
       ret (TextContent respBody))) s)"

end
