(* ===== verification/WriteTools.thy ===== *)
theory WriteTools
  imports Calls
begin

text \<open>
  The write tools (internal/server/write.go). Each resolves its session, sends one RPC to the
  worker of the session, maps a transport error, an error field and a false \<open>success\<close> to the
  errors of the code, and drops the cache entries that the edit made stale. The lemmas say what
  each tool may change; the properties say when the decompilation cache still agrees with the
  database of the worker afterwards, and when it does not.
\<close>

section \<open>The handlers\<close>

definition setComment :: "'db env \<Rightarrow> 'db wait_env \<Rightarrow> SetCommentRequest \<Rightarrow> ('db server, tool_result) step" where
  "setComment E W args s =
     (if TrimSpace (SetCommentRequest.sc_Comment args) = [] then (Err (Msg ''comment is required''), s)
      else and_then (resolveClientWait E W (sc_SessionID args) ''set_comment'') (\<lambda>(sess, client) s.
        let sid = se_ID (session_of s sess);
            scope = (if sc_Scope args = [] then ''address'' else sc_Scope args);
            w = wa_write (ev_worker E)
        in and_then
             (if scope = ''function'' then
                call_logged ''set_comment'' (w_SetFuncComment w)
                  (SetCommentRequest.sc_Address args, SetCommentRequest.sc_Comment args) client
              else if scope = ''decompiler'' then
                if sc_FunctionAddress args = 0 then fail (Msg ''function_address required for decompiler scope'')
                else call_logged ''set_comment'' (w_SetDecompilerComment w)
                  (sc_FunctionAddress args, SetCommentRequest.sc_Address args, SetCommentRequest.sc_Comment args) client
              else
                call_logged ''set_comment'' (w_SetComment w)
                  (SetCommentRequest.sc_Address args, SetCommentRequest.sc_Comment args, sc_Repeatable args) client)
             (\<lambda>success.
                if \<not> success then fail (Msg ''operation failed'')
                else and_then
                  (upd (if scope = ''decompiler'' then on_cache sid (invalidateDecomp (sc_FunctionAddress args)) else (\<lambda>s. s)))
                  (\<lambda>_. ret ok_result)) s) s)"

text \<open>The old name is asked for best-effort: no error of the call matters.\<close>

definition fetchName :: "'db env \<Rightarrow> nat \<Rightarrow> u64 \<Rightarrow> ('db server, string) step" where
  "fetchName E client addr =
     catching (call (w_GetName (wa_func (ev_worker E))) addr client) (\<lambda>r.
       case r of Inl _ \<Rightarrow> ret [] | Inr r \<Rightarrow> ret (rp_Msg r))"

definition setName :: "'db env \<Rightarrow> 'db wait_env \<Rightarrow> SetNameRequest \<Rightarrow> ('db server, tool_result) step" where
  "setName E W args =
     and_then (resolveClientWait E W (sn_SessionID args) ''set_name'') (\<lambda>(sess, client) s.
       let sid = se_ID (session_of s sess) in
       and_then (fetchName E client (sn_Address args)) (\<lambda>oldName.
       and_then (call_success ''set_name'' (w_SetName (wa_write (ev_worker E))) (sn_Address args, sn_Name args) client) (\<lambda>_ s.
         let isFunc = isCachedFunction (sn_Address args) (session_cache sid s);
             s = on_cache sid invalidateFunctions s;
             s = (if isFunc then on_cache sid (invalidateDecomp (sn_Address args)) s
                  else if oldName \<noteq> [] then on_cache sid (\<lambda>c. snd (invalidateDecompByOldName oldName c)) s
                  else s)
         in (Ret ok_result, s))) s)"

definition deleteName :: "'db env \<Rightarrow> 'db wait_env \<Rightarrow> DeleteNameRequest \<Rightarrow> ('db server, tool_result) step" where
  "deleteName E W args =
     and_then (resolveClientWait E W (dn_SessionID args) ''delete_name'') (\<lambda>(sess, client) s.
       let sid = se_ID (session_of s sess) in
       and_then (fetchName E client (dn_Address args)) (\<lambda>oldName.
       and_then (call_success ''delete_name'' (w_DeleteName (wa_write (ev_worker E))) (dn_Address args) client) (\<lambda>_ s.
         let isFunc = isCachedFunction (dn_Address args) (session_cache sid s);
             s = on_cache sid invalidateFunctions s;
             s = (if isFunc then on_cache sid (invalidateDecomp (dn_Address args)) s
                  else if oldName \<noteq> [] then on_cache sid (\<lambda>c. snd (invalidateDecompByOldName oldName c)) s
                  else s)
         in (Ret ok_result, s))) s)"

definition setLvarType :: "'db env \<Rightarrow> 'db wait_env \<Rightarrow> SetLvarTypeRequest \<Rightarrow> ('db server, tool_result) step" where
  "setLvarType E W args s =
     (if TrimSpace (slt_LvarType args) = [] then (Err (Msg ''lvar_type is required''), s)
      else if slt_FunctionAddress args = 0 then (Err (Msg ''function_address is required''), s)
      else and_then (resolveClientWait E W (slt_SessionID args) ''set_lvar_type'') (\<lambda>(sess, client) s.
        let sid = se_ID (session_of s sess) in
        and_then (call_success ''set_lvar_type'' (w_SetLvarType (wa_write (ev_worker E)))
                    (slt_FunctionAddress args, slt_LvarName args, slt_LvarType args) client) (\<lambda>_ s.
          (Ret ok_result, on_cache sid (invalidateDecomp (slt_FunctionAddress args)) s)) s) s)"

definition setGlobalType :: "'db env \<Rightarrow> 'db wait_env \<Rightarrow> SetGlobalTypeRequest \<Rightarrow> ('db server, tool_result) step" where
  "setGlobalType E W args s =
     (if TrimSpace (sgt_Type args) = [] then (Err (Msg ''type is required''), s)
      else and_then (resolveClientWait E W (sgt_SessionID args) ''set_global_type'') (\<lambda>(sess, client) s.
        let sid = se_ID (session_of s sess) in
        and_then (fetchName E client (sgt_Address args)) (\<lambda>oldName.
        and_then (call_success ''set_global_type'' (w_SetGlobalType (wa_write (ev_worker E)))
                    (sgt_Address args, sgt_Type args) client) (\<lambda>_ s.
          (Ret ok_result,
           (if oldName \<noteq> [] then on_cache sid (\<lambda>c. snd (invalidateDecompByOldName oldName c)) s else s)))) s) s)"

definition setFunctionType :: "'db env \<Rightarrow> 'db wait_env \<Rightarrow> SetFunctionTypeRequest \<Rightarrow> ('db server, tool_result) step" where
  "setFunctionType E W args s =
     (if TrimSpace (sft_Prototype args) = [] then (Err (Msg ''prototype is required''), s)
      else and_then (resolveClientWait E W (sft_SessionID args) ''set_function_type'') (\<lambda>(sess, client) s.
        let sid = se_ID (session_of s sess) in
        and_then (fetchName E client (sft_Address args)) (\<lambda>oldName.
        and_then (call_success ''set_function_type'' (w_SetFunctionType (wa_write (ev_worker E)))
                    (sft_Address args, sft_Prototype args) client) (\<lambda>_ s.
          let s = on_cache sid (invalidateDecomp (sft_Address args)) s
          in (Ret ok_result,
              (if oldName \<noteq> [] then on_cache sid (\<lambda>c. snd (invalidateDecompByOldName oldName c)) s else s)))) s) s)"

definition makeFunction :: "'db env \<Rightarrow> 'db wait_env \<Rightarrow> MakeFunctionRequest \<Rightarrow> ('db server, tool_result) step" where
  "makeFunction E W args =
     and_then (resolveClientWait E W (mf_SessionID args) ''make_function'') (\<lambda>(sess, client) s.
       let sid = se_ID (session_of s sess) in
       and_then (lift (parseAddr (mf_Address args))) (\<lambda>addr.
       and_then (call_success ''make_function'' (w_MakeFunction (wa_write (ev_worker E))) addr client) (\<lambda>_ s.
         (Ret ok_result, on_cache sid invalidateAllXRefs (on_cache sid invalidateFunctions s)))) s)"

lemma fetchName_cases:
  "fetchName E client addr s =
     (case w_GetName (wa_func (ev_worker E)) addr (sv_dbs s client) of (r, db) \<Rightarrow>
        (Ret (case r of Inl e \<Rightarrow> [] | Inr r \<Rightarrow> rp_Msg r), db_step client db s))"
  by (simp add: fetchName_def catching_def call_cases split: prod.splits sum.splits)

section \<open>When the cache agrees with the database\<close>

definition texts :: "'db env \<Rightarrow> 'db \<Rightarrow> u64 \<Rightarrow> string option" where
  "texts E db a =
     (case fst (w_GetDecompiled (wa_func (ev_worker E)) a db) of
        Inl _ \<Rightarrow> None
      | Inr r \<Rightarrow> if rp_Error r = [] then Some (rp_Msg r) else None)"

definition decomp_agrees :: "'db env \<Rightarrow> string \<Rightarrow> nat \<Rightarrow> 'db server \<Rightarrow> bool" where
  "decomp_agrees E sid client s \<longleftrightarrow>
     cache_inv (session_cache sid s) \<and> map_of (decomps (session_cache sid s)) \<subseteq>\<^sub>m texts E (sv_dbs s client)"

text \<open>What the handlers assume of an edit at an address, as their comments say it: it changes the
  text of the function there, and texts that show the name of the address.\<close>

definition edit_reaches_mentions :: "'db env \<Rightarrow> u64 \<Rightarrow> ('db \<Rightarrow> 'db) \<Rightarrow> bool" where
  "edit_reaches_mentions E addr edit \<longleftrightarrow>
     (\<forall>db r db1 a t. w_GetName (wa_func (ev_worker E)) addr db = (Inr r, db1) \<longrightarrow> a \<noteq> addr \<longrightarrow>
        texts E db a = Some t \<longrightarrow> \<not> code_mentions t (rp_Msg r) \<longrightarrow> texts E (edit db1) a = Some t)"

text \<open>C18: set_function_type keeps the cache of decompiled functions in agreement with the
  database. If the cache agrees before, the worker tells the name of the function, and a new
  prototype only reaches the function itself and the texts that mention its name, then after a
  successful call no cached text is stale.\<close>

theorem setFunctionType_keeps_agreement:
  assumes "resolveClientWait E W (sft_SessionID args) ''set_function_type'' s = (Ret (sess, client), s1)"
    and "sid = se_ID (session_of s1 sess)" and "decomp_agrees E sid client s1"
    and "\<exists>r. fst (w_GetName (wa_func (ev_worker E)) (sft_Address args) (sv_dbs s1 client)) = Inr r"
    and "edit_reaches_mentions E (sft_Address args)
           (\<lambda>db. snd (w_SetFunctionType (wa_write (ev_worker E)) (sft_Address args, sft_Prototype args) db))"
    and "setFunctionType E W args s = (Ret result, s')"
  shows "decomp_agrees E sid client s'"
proof -
  let ?a = "sft_Address args"
  obtain r db1 where r: "w_GetName (wa_func (ev_worker E)) ?a (sv_dbs s1 client) = (Inr r, db1)"
    using assms(4) by (metis prod.collapse)
  obtain w db2 where w: "w_SetFunctionType (wa_write (ev_worker E)) (?a, sft_Prototype args) db1 = (w, db2)"
    by force
  let ?c = "session_cache sid s1"
  have c: "cache_inv ?c" and le: "map_of (decomps ?c) \<subseteq>\<^sub>m texts E (sv_dbs s1 client)"
    using assms(3) by (simp_all add: decomp_agrees_def)
  have "map_of (decomps (snd (invalidateDecompByOldName (rp_Msg r) (invalidateDecomp ?a ?c)))) \<subseteq>\<^sub>m texts E db2"
    using assms(5) [unfolded edit_reaches_mentions_def, rule_format, OF r] w
    by (intro decomps.edit_agrees [OF c le]) simp
  moreover have "rp_Msg r = [] \<Longrightarrow>
      decomps (snd (invalidateDecompByOldName (rp_Msg r) (invalidateDecomp ?a ?c))) = decomps (invalidateDecomp ?a ?c)"
    by (simp add: invalidateDecompByOldName_spec invalidateDecomp_spec c)
  moreover have "cache_inv (invalidateDecomp ?a ?c)" using c by (rule decomps.ok_drop)
  ultimately show ?thesis
    using assms(1,2,6) r w decomps.ok_drop_mention [of "invalidateDecomp ?a ?c"]
    by (auto simp: setFunctionType_def and_then_def fetchName_cases call_success_cases Let_def decomp_agrees_def
        split: if_splits sum.splits)
qed

text \<open>A worker whose database is the name of the function at 1 and its prototype. The function at 2
  calls it, and its text shows the name.\<close>

definition demo_worker :: "(string \<times> string) env \<Rightarrow> (string \<times> string) env" where
  "demo_worker E =
     (let w = ev_worker E;
          answer = (\<lambda>text. Inr \<lparr>rp_Error = [], rp_Msg = text\<rparr>);
          done = Inr \<lparr>rp_Error = [], rp_Msg = True\<rparr>
      in E\<lparr>ev_worker := w
           \<lparr>wa_func := (wa_func w)
              \<lparr>w_GetName := (\<lambda>a (nm, pr). (answer (if a = 1 then nm else []), (nm, pr))),
               w_GetDecompiled := (\<lambda>a (nm, pr). (answer (if a = 1 then pr @ nm else if a = 2 \<and> nm \<noteq> [] then ''call '' @ nm @ pr else ''ret''), (nm, pr)))\<rparr>,
            wa_write := (wa_write w)
              \<lparr>w_SetName := (\<lambda>(a, n) (nm, pr). (done, (if a = 1 then n else nm, pr))),
               w_SetFunctionType := (\<lambda>(a, p) (nm, pr). (done, (nm, if a = 1 then p else pr)))\<rparr>\<rparr>\<rparr>)"

lemma demo_worker_simps:
  "w_GetName (wa_func (ev_worker (demo_worker E))) a (nm, pr) =
     (Inr \<lparr>rp_Error = [], rp_Msg = if a = 1 then nm else []\<rparr>, (nm, pr))"
  "texts (demo_worker E) (nm, pr) a = Some (if a = 1 then pr @ nm else if a = 2 \<and> nm \<noteq> [] then ''call '' @ nm @ pr else ''ret'')"
  "w_SetName (wa_write (ev_worker (demo_worker E))) (a, n) (nm, pr) =
     (Inr \<lparr>rp_Error = [], rp_Msg = True\<rparr>, (if a = 1 then n else nm, pr))"
  "w_SetFunctionType (wa_write (ev_worker (demo_worker E))) (a, p) (nm, pr) =
     (Inr \<lparr>rp_Error = [], rp_Msg = True\<rparr>, (nm, if a = 1 then p else pr))"
  "ev_order (demo_worker E) = ev_order E" "ev_now (demo_worker E) = ev_now E"
  by (simp_all add: demo_worker_def Let_def texts_def)

text \<open>A ready session whose cache holds both texts, and with the function list cached or not.\<close>

definition demo_cache :: "bool \<Rightarrow> sessionCache" where
  "demo_cache listed =
     setDecomp 1 ''int f'' (setDecomp 2 ''call fint '' (empty_cache\<lparr>sc_functions :=
       (if listed then Some [\<lparr>fn_Address = 1, fn_Name = ''f''\<rparr>] else None)\<rparr>))"

definition demo_server :: "bool \<Rightarrow> (string \<times> string) server" where
  "demo_server listed = on_cache ''a'' (\<lambda>_. demo_cache listed) (one_session (\<lambda>_. (''f'', ''int '')) ''ready'')"

lemma demo_cache_simps:
  "cache_inv (demo_cache listed)"
  "map_of (decomps (demo_cache listed)) 2 = Some ''call fint ''"
  "isCachedFunction 1 (demo_cache listed) \<longleftrightarrow> listed"
  "map_of (decomps (demo_cache listed)) \<subseteq>\<^sub>m texts (demo_worker E) (''f'', ''int '')"
proof -
  let ?e = "empty_cache\<lparr>sc_functions := (if listed then Some [\<lparr>fn_Address = 1, fn_Name = ''f''\<rparr>] else None)\<rparr>"
  have e: "cache_inv ?e" "decomps ?e = []" by (simp_all add: cache_inv_def decomps_def empty_cache_def)
  have ok: "cache_inv (setDecomp 2 ''call fint '' ?e)" using e(1) by (rule setDecomp_spec(1))
  show "cache_inv (demo_cache listed)" unfolding demo_cache_def using ok by (rule setDecomp_spec(1))
  show "isCachedFunction 1 (demo_cache listed) \<longleftrightarrow> listed"
    by (simp add: demo_cache_def isCachedFunction_def setDecomp_def slice_value_def Let_def)
  show "map_of (decomps (demo_cache listed)) 2 = Some ''call fint ''"
    by (simp add: demo_cache_def setDecomp_def decomps_def empty_cache_def Let_def newDecompCache_def
        maxDecompCacheEntries_def decomp_set_def decomp_push_def decomp_evict_def decomp_list_def)
  show "map_of (decomps (demo_cache listed)) \<subseteq>\<^sub>m texts (demo_worker E) (''f'', ''int '')"
    unfolding demo_cache_def
    by (intro decomps.put_agrees ok e(1)) (simp_all add: e(2) demo_worker_simps map_le_def)
qed

lemma demo_resolve:
  "resolveClientWait (demo_worker E) W ''a'' tool (demo_server listed) =
     (Ret (0, 0), leased (ev_now E) 0 (demo_server listed))"
proof -
  have "session_of (demo_server listed) 0 = no_session\<lparr>se_ID := ''a'', se_BinaryPath := ''/x''\<rparr>"
    unfolding demo_server_def session_of_on_cache one_session_simps ..
  then have id: "se_ID (session_of (demo_server listed) 0) = ''a''" by simp
  have res: "resolveSession (ev_order (demo_worker E)) ''a'' (demo_server listed) = (Ret 0, demo_server listed)"
    by (simp add: resolveSession_def registry_Get_def demo_server_def one_session_simps)
  have cl: "manager_GetClient ''a'' (sv_workers (demo_server listed)) = Ret 0"
    by (simp add: manager_GetClient_def demo_server_def one_session_simps)
  have "getProgress ''a'' (demo_server listed) = getProgress ''a'' (one_session (\<lambda>_. (''f'', ''int '')) ''ready'')"
    by (simp add: demo_server_def getProgress_def)
  then have "readinessError ''a'' (demo_server listed) = None"
    by (simp add: readinessError_None one_session_simps inProgressStages_def)
  then show ?thesis
    using resolveClientWait_ready [where E = "demo_worker E" and W = W and tool = tool, OF res] id cl
    by (simp add: demo_worker_simps)
qed

lemma demo_server_simps:
  "se_ID (session_of (demo_server listed) ref) = ''a''" "session_cache ''a'' (demo_server listed) = demo_cache listed"
  "sv_dbs (demo_server listed) = (\<lambda>_. (''f'', ''int ''))"
  by (simp_all add: demo_server_def one_session_simps)

lemma demo_agrees: "decomp_agrees (demo_worker E) ''a'' 0 (leased now 0 (demo_server listed))"
  by (simp add: decomp_agrees_def demo_server_simps demo_cache_simps)

lemma contains_infix: "contains (xs @ sub @ ys) sub"
  by (auto simp: contains_sublist)

lemma demo_type_edit:
  "edit_reaches_mentions (demo_worker E) 1 (\<lambda>db. snd (w_SetFunctionType (wa_write (ev_worker (demo_worker E))) (1, p) db))"
proof -
  have "texts (demo_worker E) (nm, p) a = Some t"
    if "a \<noteq> 1" "texts (demo_worker E) (nm, pr) a = Some t" "\<not> code_mentions t nm" for a t nm pr
    using that contains_infix [of "''call ''" nm pr]
    by (auto simp: demo_worker_simps code_mentions_def split: if_splits)
  then show ?thesis by (auto simp: edit_reaches_mentions_def demo_worker_simps)
qed

theorem setFunctionType_keeps_agreement_witness:
  "\<forall>E W. let (r, s') = setFunctionType (demo_worker E) W
       \<lparr>sft_SessionID = ''a'', sft_Address = 1, sft_Prototype = ''void ''\<rparr> (demo_server True)
     in r = Ret ok_result \<and> decomp_agrees (demo_worker E) ''a'' 0 s'"
proof (intro allI)
  fix E :: "(string \<times> string) env" and W :: "(string \<times> string) wait_env"
  let ?args = "\<lparr>sft_SessionID = ''a'', sft_Address = 1, sft_Prototype = ''void ''\<rparr> :: SetFunctionTypeRequest"
  have trim: "TrimSpace ''void '' \<noteq> []" by code_simp
  obtain r s' where run: "setFunctionType (demo_worker E) W ?args (demo_server True) = (r, s')" by force
  have r: "r = Ret ok_result"
    using run trim
    by (simp add: setFunctionType_def and_then_def demo_resolve fetchName_cases call_success_cases demo_server_simps
        demo_worker_simps Let_def)
  have get: "\<exists>r. fst (w_GetName (wa_func (ev_worker (demo_worker E))) 1 (sv_dbs (leased (ev_now E) 0 (demo_server True)) 0)) = Inr r"
    by (simp add: demo_server_simps demo_worker_simps)
  have agrees: "decomp_agrees (demo_worker E) ''a'' 0 s'"
  proof (rule setFunctionType_keeps_agreement)
    show "resolveClientWait (demo_worker E) W (sft_SessionID ?args) ''set_function_type'' (demo_server True) =
        (Ret (0, 0), leased (ev_now E) 0 (demo_server True))" by (simp add: demo_resolve)
    show "setFunctionType (demo_worker E) W ?args (demo_server True) = (Ret ok_result, s')" using run r by simp
  qed (use get in \<open>simp_all add: demo_server_simps demo_agrees demo_type_edit\<close>)
  show "let (r, s') = setFunctionType (demo_worker E) W ?args (demo_server True)
     in r = Ret ok_result \<and> decomp_agrees (demo_worker E) ''a'' 0 s'" using run r agrees by simp
qed

text \<open>C19: a rename of a label, or of a function while the function list is not cached, keeps the
  cache in agreement: every cached text that mentions the old name is dropped, wherever the name
  appears, and the function list is dropped with it.\<close>

theorem setName_keeps_agreement:
  assumes "resolveClientWait E W (sn_SessionID args) ''set_name'' s = (Ret (sess, client), s1)"
    and "sid = se_ID (session_of s1 sess)" and "decomp_agrees E sid client s1"
    and "\<not> isCachedFunction (sn_Address args) (session_cache sid s1)"
    and "w_GetName (wa_func (ev_worker E)) (sn_Address args) (sv_dbs s1 client) = (Inr r, db1)"
    and "\<And>a t. texts E (sv_dbs s1 client) a = Some t \<Longrightarrow> \<not> code_mentions t (rp_Msg r) \<Longrightarrow>
           texts E (snd (w_SetName (wa_write (ev_worker E)) (sn_Address args, sn_Name args) db1)) a = Some t"
    and "setName E W args s = (Ret result, s')"
  shows "decomp_agrees E sid client s' \<and> sc_functions (session_cache sid s') = None"
proof -
  let ?a = "sn_Address args" and ?c = "invalidateFunctions (session_cache sid s1)"
  obtain w db2 where w: "w_SetName (wa_write (ev_worker E)) (?a, sn_Name args) db1 = (w, db2)" by force
  have c: "cache_inv ?c" and le: "map_of (decomps ?c) \<subseteq>\<^sub>m texts E (sv_dbs s1 client)"
    using assms(3) by (simp_all add: decomp_agrees_def)
  have "map_of (decomps (snd (invalidateDecompByOldName (rp_Msg r) ?c))) \<subseteq>\<^sub>m texts E db2"
    using assms(6) w by (intro decomps.drop_mention_agrees [OF c le]) simp
  moreover have "cache_inv (snd (invalidateDecompByOldName (rp_Msg r) ?c))"
    using c by (rule decomps.ok_drop_mention)
  moreover have "snd (invalidateDecompByOldName [] ?c) = ?c" by (simp add: invalidateDecompByOldName_def)
  moreover have "sc_functions (snd (invalidateDecompByOldName (rp_Msg r) ?c)) = None" "sc_functions ?c = None"
    by (auto simp: invalidateDecompByOldName_def invalidateFunctions_def case_prod_unfold Let_def split: option.splits)
  ultimately show ?thesis
    using assms(1,2,4,5,7) w
    by (cases "rp_Msg r = []")
      (auto simp: setName_def and_then_def fetchName_cases call_success_cases Let_def decomp_agrees_def
        split: if_splits sum.splits)
qed

lemma demo_rename:
  "r = Ret ok_result \<and> w = Inr \<lparr>rp_Error = [], rp_Msg = True\<rparr>"
  if "setName (demo_worker E) W \<lparr>sn_SessionID = ''a'', sn_Address = 1, sn_Name = ''g''\<rparr> (demo_server listed) = (r, s')"
    and "w = fst (w_SetName (wa_write (ev_worker (demo_worker E))) (1, ''g'') (''f'', ''int ''))"
  using that
  by (simp add: setName_def and_then_def demo_resolve fetchName_cases call_success_cases demo_server_simps
      demo_worker_simps Let_def)

theorem setName_keeps_agreement_witness:
  "\<forall>E W. let (r, s') = setName (demo_worker E) W
       \<lparr>sn_SessionID = ''a'', sn_Address = 1, sn_Name = ''g''\<rparr> (demo_server False)
     in r = Ret ok_result \<and> decomp_agrees (demo_worker E) ''a'' 0 s'"
proof (intro allI)
  fix E :: "(string \<times> string) env" and W :: "(string \<times> string) wait_env"
  let ?args = "\<lparr>sn_SessionID = ''a'', sn_Address = 1, sn_Name = ''g''\<rparr> :: SetNameRequest"
  obtain r s' where run: "setName (demo_worker E) W ?args (demo_server False) = (r, s')" by force
  note r = demo_rename [OF run refl, THEN conjunct1]
  have edit: "texts (demo_worker E) (''g'', ''int '') a = Some t"
    if "texts (demo_worker E) (''f'', ''int '') a = Some t" "\<not> code_mentions t ''f''" for a t
    using that contains_infix [of "''int ''" "''f''" "[]"] contains_infix [of "''call ''" "''f''" "''int ''"]
    by (auto simp: demo_worker_simps code_mentions_def split: if_splits)
  have "decomp_agrees (demo_worker E) ''a'' 0 s' \<and> sc_functions (session_cache ''a'' s') = None"
  proof (rule setName_keeps_agreement)
    show "resolveClientWait (demo_worker E) W (sn_SessionID ?args) ''set_name'' (demo_server False) =
        (Ret (0, 0), leased (ev_now E) 0 (demo_server False))" by (simp add: demo_resolve)
    show "setName (demo_worker E) W ?args (demo_server False) = (Ret ok_result, s')" using run r by simp
    show "w_GetName (wa_func (ev_worker (demo_worker E))) (sn_Address ?args)
        (sv_dbs (leased (ev_now E) 0 (demo_server False)) 0) =
        (Inr \<lparr>rp_Error = [], rp_Msg = ''f''\<rparr>, (''f'', ''int ''))"
      by (simp add: demo_server_simps demo_worker_simps)
  qed (simp_all add: demo_server_simps demo_cache_simps demo_agrees demo_worker_simps(3) edit)
  then show "let (r, s') = setName (demo_worker E) W ?args (demo_server False)
     in r = Ret ok_result \<and> decomp_agrees (demo_worker E) ''a'' 0 s'" using run r by simp
qed

text \<open>C38: a rename of a function that is in the cached function list drops only the text of the
  function itself. A cached caller is served again with the old name, although the database shows
  the new one: the comment in annotateFunction that callers stay valid, because the decompiler
  resolves names on each conversion, overlooks that the cache keeps the converted text.\<close>

theorem rename_leaves_callers_stale:
  assumes "resolveClientWait E W (sn_SessionID args) ''set_name'' s = (Ret (sess, client), s1)"
    and "sid = se_ID (session_of s1 sess)" and "cache_inv (session_cache sid s1)"
    and "isCachedFunction (sn_Address args) (session_cache sid s1)"
    and "caller \<noteq> sn_Address args" and "map_of (decomps (session_cache sid s1)) caller = Some code"
    and "setName E W args s = (Ret result, s')" and "texts E (sv_dbs s' client) caller \<noteq> Some code"
  shows "fst (getDecomp caller (session_cache sid s')) = Some code \<and> \<not> decomp_agrees E sid client s'"
proof -
  let ?c = "invalidateFunctions (session_cache sid s1)"
  have c: "cache_inv ?c" using assms(3) by simp
  obtain g db1 where g: "w_GetName (wa_func (ev_worker E)) (sn_Address args) (sv_dbs s1 client) = (g, db1)" by force
  have "session_cache sid s' = invalidateDecomp (sn_Address args) ?c"
    using assms(1,2,4,7) g
    by (auto simp: setName_def and_then_def fetchName_cases call_success_cases Let_def
        split: prod.splits sum.splits if_splits)
  then have "cache_inv (session_cache sid s')" and "map_of (decomps (session_cache sid s')) caller = Some code"
    using assms(5,6) c decomps.ok_drop [OF c] by (simp_all add: decomps.served_drop [OF c])
  then show ?thesis
    using assms(8) by (auto simp: getDecomp_spec decomp_agrees_def map_le_def dom_def)
qed

theorem rename_leaves_callers_stale_witness:
  "\<forall>E W. let s' = snd (setName (demo_worker E) W
       \<lparr>sn_SessionID = ''a'', sn_Address = 1, sn_Name = ''g''\<rparr> (demo_server True))
     in fst (getDecomp 2 (session_cache ''a'' s')) = Some ''call fint '' \<and>
        texts (demo_worker E) (sv_dbs s' 0) 2 = Some ''call gint ''"
proof (intro allI)
  fix E :: "(string \<times> string) env" and W :: "(string \<times> string) wait_env"
  let ?args = "\<lparr>sn_SessionID = ''a'', sn_Address = 1, sn_Name = ''g''\<rparr> :: SetNameRequest"
  obtain r s' where run: "setName (demo_worker E) W ?args (demo_server True) = (r, s')" by force
  note r = demo_rename [OF run refl, THEN conjunct1]
  have db: "sv_dbs s' 0 = (''g'', ''int '')"
    using run
    by (auto simp: setName_def and_then_def demo_resolve fetchName_cases call_success_cases demo_server_simps
        demo_worker_simps Let_def demo_cache_simps)
  have "fst (getDecomp 2 (session_cache ''a'' s')) = Some ''call fint '' \<and> \<not> decomp_agrees (demo_worker E) ''a'' 0 s'"
  proof (rule rename_leaves_callers_stale)
    show "resolveClientWait (demo_worker E) W (sn_SessionID ?args) ''set_name'' (demo_server True) =
        (Ret (0, 0), leased (ev_now E) 0 (demo_server True))" by (simp add: demo_resolve)
    show "setName (demo_worker E) W ?args (demo_server True) = (Ret ok_result, s')" using run r by simp
  qed (simp_all add: demo_server_simps demo_cache_simps db demo_worker_simps)
  then show "let s' = snd (setName (demo_worker E) W ?args (demo_server True))
     in fst (getDecomp 2 (session_cache ''a'' s')) = Some ''call fint '' \<and>
        texts (demo_worker E) (sv_dbs s' 0) 2 = Some ''call gint ''"
    using run db by (simp add: demo_worker_simps)
qed

section \<open>Failures\<close>

text \<open>An outcome that is not a value leaves the caches as they were.\<close>

lemma keeps_cache_fetchName: "keeps_cache (fetchName E client addr)"
  by (simp add: keeps_cache_def fetchName_cases split: prod.splits)

definition failing_keeps :: "(string \<rightharpoonup> sessionCache) \<Rightarrow> 'a go \<times> 'db server \<Rightarrow> bool" where
  "failing_keeps c p \<longleftrightarrow> (\<forall>a. fst p \<noteq> Ret a) \<longrightarrow> sv_cache (snd p) = c"

lemma failing_and_then:
  assumes "keeps_cache m" and "sv_cache s = c"
    and "\<And>a s1. sv_cache s1 = c \<Longrightarrow> failing_keeps c (k a s1)"
  shows "failing_keeps c (and_then m k s)"
proof -
  have m: "sv_cache (snd (m s)) = c" using assms(1,2) by (simp add: keeps_cache_def)
  obtain r s1 where "m s = (r, s1)" by force
  then show ?thesis using m assms(3) by (cases r) (auto simp: and_then_def failing_keeps_def)
qed

lemma failing_simps:
  "failing_keeps c (Ret a, s)" "sv_cache s = c \<Longrightarrow> failing_keeps c (Err e, s)"
  "sv_cache s = c \<Longrightarrow> failing_keeps c (fail e s)" "failing_keeps c (ret a s)"
  by (simp_all add: failing_keeps_def)

lemmas failing_intros = failing_and_then failing_simps resolveClientWait_cache keeps_cache_fetchName keeps_cache_calls keeps_cache_simps

text \<open>A write that fails, for whatever reason, leaves every cache as it was.\<close>

theorem failed_write_keeps_caches:
  assumes "\<not> we_token W"
    and "(Err e, s') \<in> {setComment E W a1 s, setName E W a2 s, deleteName E W a3 s, setLvarType E W a4 s,
           setGlobalType E W a5 s, setFunctionType E W a6 s, makeFunction E W a7 s}"
  shows "sv_cache s' = sv_cache s"
proof -
  let ?f = "failing_keeps (sv_cache s)"
  have "?f (setName E W a2 s)" "?f (deleteName E W a3 s)" "?f (makeFunction E W a7 s)"
    unfolding setName_def deleteName_def makeFunction_def
    by (auto simp: Let_def intro!: failing_intros assms(1))
  moreover have "?f (setLvarType E W a4 s)" "?f (setGlobalType E W a5 s)" "?f (setFunctionType E W a6 s)"
    unfolding setLvarType_def setGlobalType_def setFunctionType_def
    by (auto simp: Let_def intro!: failing_intros assms(1))
  moreover have "?f (setComment E W a1 s)"
    unfolding setComment_def
    by (auto simp: Let_def upd_def and_then_def [of "\<lambda>s. (Ret (), f s)" for f] intro!: failing_intros assms(1))
  moreover have "p = (Err e, s') \<Longrightarrow> ?f p \<Longrightarrow> sv_cache s' = sv_cache s" for p :: "tool_result go \<times> _"
    by (simp add: failing_keeps_def)
  ultimately show ?thesis using assms(2) by auto
qed

theorem failed_write_keeps_caches_witness:
  "\<forall>E W. \<exists>e s'. makeFunction (demo_worker E) \<lparr>we_token = False, we_ticks = W\<rparr>
       \<lparr>mf_SessionID = ''a'', mf_Address = ''0xzz''\<rparr> (demo_server True) = (Err e, s') \<and>
     sv_cache s' = sv_cache (demo_server True)"
proof (intro allI)
  fix E :: "(string \<times> string) env" and W :: "((string \<times> string) server \<Rightarrow> (string \<times> string) server) list"
  let ?W = "\<lparr>we_token = False, we_ticks = W\<rparr> :: (string \<times> string) wait_env"
    and ?args = "\<lparr>mf_SessionID = ''a'', mf_Address = ''0xzz''\<rparr> :: MakeFunctionRequest"
  have e: "parseAddr ''0xzz'' = Err (InvalidAddress ''0xzz'')" by code_simp
  have run: "makeFunction (demo_worker E) ?W ?args (demo_server True) =
      (Err (InvalidAddress ''0xzz''), leased (ev_now E) 0 (demo_server True))"
    by (simp add: makeFunction_def and_then_def demo_resolve e)
  have "sv_cache (leased (ev_now E) 0 (demo_server True)) = sv_cache (demo_server True)"
  proof (rule failed_write_keeps_caches)
    show "\<not> we_token ?W" by simp
    show "(Err (InvalidAddress ''0xzz''), leased (ev_now E) 0 (demo_server True)) \<in>
        {setComment (demo_worker E) ?W a1 (demo_server True), setName (demo_worker E) ?W a2 (demo_server True),
         deleteName (demo_worker E) ?W a3 (demo_server True), setLvarType (demo_worker E) ?W a4 (demo_server True),
         setGlobalType (demo_worker E) ?W a5 (demo_server True), setFunctionType (demo_worker E) ?W a6 (demo_server True),
         makeFunction (demo_worker E) ?W ?args (demo_server True)}" for a1 a2 a3 a4 a5 a6
      using run by (simp only: insert_iff simp_thms)
  qed
  then show "\<exists>e s'. makeFunction (demo_worker E) ?W ?args (demo_server True) = (Err e, s') \<and>
     sv_cache s' = sv_cache (demo_server True)" using run by blast
qed

end
