(* ===== verification/Types.thy ===== *)
theory Types
  imports ReadTools WriteTools
begin

text \<open>
  The type tools (internal/server/types.go): globals, structures and enumerations. getGlobals
  slices its list without normalizePagination; the slices keep their bounds checks.
\<close>

definition global_row :: "GlobalVariable \<Rightarrow> string" where
  "global_row g =
     hexAddr (gv_Address g) @ tab @ gv_Name g @ (if gv_Type g \<noteq> [] then tab @ gv_Type g @ nl else nl)"

definition globals_page :: "int \<Rightarrow> int \<Rightarrow> GlobalVariable list \<Rightarrow> tool_result go" where
  "globals_page rawOffset rawLimit globals =
     (let tot = int (length globals);
          offset = (if rawOffset > tot then tot else rawOffset)
      in case slice globals offset tot of
           Err e \<Rightarrow> Err e
         | Panic p \<Rightarrow> Panic p
         | Ret globals \<Rightarrow>
             let limit = (if rawLimit \<le> 0 then defaultPageLimit else rawLimit);
                 limit = (if limit > int (length globals) then int (length globals) else limit)
             in case slice globals 0 limit of
                  Err e \<Rightarrow> Err e
                | Panic p \<Rightarrow> Panic p
                | Ret globals \<Rightarrow> Ret (TextContent (with_header global_row globals tot offset)))"

definition getGlobals :: "'db env \<Rightarrow> 'db wait_env \<Rightarrow> GetGlobalsRequest \<Rightarrow> ('db server, tool_result) step" where
  "getGlobals E W args =
     and_then (resolveClientWait E W (gg_SessionID args) ''get_globals'') (\<lambda>(_, client).
     and_then (call_logged ''get_globals'' (w_GetGlobals (wa_type (ev_worker E))) (gg_Regex args, gg_CaseSensitive args) client)
       (\<lambda>globals.
     lift (globals_page (gg_Offset args) (gg_Limit args) globals)))"

text \<open>\<open>%02x\<close>.\<close>

definition hex2 :: "u32 \<Rightarrow> string" where
  "hex2 n = (let h = show_hex (unat n) in replicate (2 - length h) CHR ''0'' @ h)"

definition struct_text :: "string \<times> u32 \<times> StructMember list \<Rightarrow> string" where
  "struct_text = (\<lambda>(name, sz, members).
     ''struct '' @ name @ '' {  // '' @ u32_dec sz @ '' bytes'' @ nl @
     concat (map (\<lambda>m. ''  +0x'' @ hex2 (sm_MOffset m) @ ''  '' @ sm_MType m @ '' '' @ sm_MName m @ '';  // '' @
       u32_dec (sm_MSize m) @ '' bytes'' @ nl) members) @ ''};'')"

definition getStructs :: "'db env \<Rightarrow> 'db wait_env \<Rightarrow> GetStructsRequest \<Rightarrow> ('db server, tool_result) step" where
  "getStructs E W args =
     and_then (resolveClientWait E W (gst_SessionID args) ''get_structs'') (\<lambda>(_, client).
       if gst_Name args \<noteq> [] then
         and_then (call_logged ''get_structs'' (w_GetStruct (wa_type (ev_worker E))) (gst_Name args) client)
           (\<lambda>st. ret (TextContent (struct_text st)))
       else
         and_then (call_logged ''get_structs'' (w_ListStructs (wa_type (ev_worker E))) (gst_Regex args, gst_CaseSensitive args) client)
           (\<lambda>structs. ret (TextContent (textResult (concat (map (\<lambda>(name, sz). name @ ''  ('' @ u32_dec sz @ '' bytes)'' @ nl) structs))))))"

definition enum_text :: "string \<times> (string \<times> u64) list \<Rightarrow> string" where
  "enum_text = (\<lambda>(name, members).
     ''enum '' @ name @ '' {'' @ nl @
     concat (map (\<lambda>(m, v). ''  '' @ m @ '' = '' @ u64_dec v @ '','' @ nl) members) @ ''};'')"

definition getEnums :: "'db env \<Rightarrow> 'db wait_env \<Rightarrow> GetEnumsRequest \<Rightarrow> ('db server, tool_result) step" where
  "getEnums E W args =
     and_then (resolveClientWait E W (gen_SessionID args) ''get_enums'') (\<lambda>(_, client).
       if gen_Name args \<noteq> [] then
         and_then (call_logged ''get_enums'' (w_GetEnum (wa_type (ev_worker E))) (gen_Name args) client)
           (\<lambda>en. ret (TextContent (enum_text en)))
       else
         and_then (call_logged ''get_enums'' (w_ListEnums (wa_type (ev_worker E))) (gen_Regex args, gen_CaseSensitive args) client)
           (\<lambda>enums. ret (TextContent (textResult (concat (map (\<lambda>name. name @ nl) enums))))))"

section \<open>The page of get_globals\<close>

text \<open>Get_globals does not use normalizePagination. A negative offset, which the other list tools
  answer with an error, makes its slice expression panic; otherwise the page is the rows from the
  offset, cut at the end of the list, at most as many as the limit says, with no maximum on the
  limit; a limit that is not positive stands for the default.\<close>

theorem getGlobals_pages:
  assumes "resolveClientWait E W (gg_SessionID args) ''get_globals'' s = (Ret (sess, client), s1)"
    and "call_logged ''get_globals'' (w_GetGlobals (wa_type (ev_worker E))) (gg_Regex args, gg_CaseSensitive args) client s1 =
      (Ret globals, s2)"
  shows "if gg_Offset args < 0
     then getGlobals E W args s = (Panic SliceBounds, s2) \<and>
       (\<exists>e. normalizePagination (gg_Offset args) (gg_Limit args) = Err e)
     else getGlobals E W args s =
       (let off = min (gg_Offset args) (int (length globals));
            limit = (if gg_Limit args \<le> 0 then defaultPageLimit else gg_Limit args)
        in (Ret (TextContent (with_header global_row (take (nat limit) (drop (nat off) globals)) (int (length globals)) off)), s2))"
proof -
  have run: "getGlobals E W args s = (globals_page (gg_Offset args) (gg_Limit args) globals, s2)"
    using assms by (simp add: getGlobals_def and_then_def lift_def)
  show ?thesis
  proof (cases "gg_Offset args < 0")
    case True
    then have "globals_page (gg_Offset args) (gg_Limit args) globals = Panic SliceBounds"
      by (simp add: globals_page_def Let_def slice_def)
    then show ?thesis using True run by (simp add: normalizePagination_def)
  next
    case False
    define off where "off = min (gg_Offset args) (int (length globals))"
    define limit where "limit = (if gg_Limit args \<le> 0 then defaultPageLimit else gg_Limit args)"
    have off: "(if gg_Offset args > int (length globals) then int (length globals) else gg_Offset args) = off"
      and range: "0 \<le> off" "off \<le> int (length globals)" using False by (auto simp: off_def)
    have limit: "0 \<le> limit" by (simp add: limit_def defaultPageLimit_def)
    have rest: "slice globals off (int (length globals)) = Ret (drop (nat off) globals)"
      using range by (simp add: slice_def nat_diff_distrib)
    have page: "slice (drop (nat off) globals) 0
        (if limit > int (length (drop (nat off) globals)) then int (length (drop (nat off) globals)) else limit) =
        Ret (take (nat limit) (drop (nat off) globals))"
      using limit by (auto simp: slice_def)
    show ?thesis
      using False unfolding run globals_page_def Let_def off rest go.case limit_def [symmetric] page
      by (simp add: off_def limit_def)
  qed
qed

theorem getGlobals_pages_witness:
  "\<forall>E W. \<exists>E' s'. getGlobals E' W
       \<lparr>gg_SessionID = ''a'', gg_Regex = [], gg_CaseSensitive = False, gg_Offset = -1, gg_Limit = 0\<rparr> (demo_server True) =
     (Panic SliceBounds, s')"
proof (intro allI)
  fix E :: "(string \<times> string) env" and W :: "(string \<times> string) wait_env"
  let ?args = "\<lparr>gg_SessionID = ''a'', gg_Regex = [], gg_CaseSensitive = False, gg_Offset = -1, gg_Limit = 0\<rparr> :: GetGlobalsRequest"
    and ?w = "ev_worker E"
  define E' where "E' = E\<lparr>ev_worker := ?w\<lparr>wa_type := (wa_type ?w)\<lparr>w_GetGlobals := (\<lambda>q db. (Inr \<lparr>rp_Error = [], rp_Msg = []\<rparr>, db))\<rparr>\<rparr>\<rparr>"
  let ?s = "leased (ev_now E') 0 (demo_server True)"
  have "w_GetGlobals (wa_type (ev_worker (demo_worker E'))) q db = (Inr \<lparr>rp_Error = [], rp_Msg = []\<rparr>, db)" for q db
    by (simp add: demo_worker_def E'_def Let_def)
  then have call: "call_logged ''get_globals'' (w_GetGlobals (wa_type (ev_worker (demo_worker E')))) (gg_Regex ?args, gg_CaseSensitive ?args) 0 ?s =
      (Ret [], db_step 0 (sv_dbs ?s 0) ?s)"
    by (simp add: call_logged_def catching_def call_cases)
  have "resolveClientWait (demo_worker E') W (gg_SessionID ?args) ''get_globals'' (demo_server True) = (Ret (0, 0), ?s)"
    by (simp add: demo_resolve)
  from getGlobals_pages [OF this call]
  show "\<exists>E' s'. getGlobals E' W ?args (demo_server True) = (Panic SliceBounds, s')" by auto
qed

end
