(* ===== verification/Cross.thy ===== *)
theory Cross
  imports ReadTools
begin

text \<open>
  The cross-session tools (internal/server/cross.go). A failed enumeration of the target is
  skipped, so it looks like a list without matches.
\<close>

section \<open>cross_reference\<close>

definition symbol_at :: "'db env \<Rightarrow> nat \<Rightarrow> u64 \<Rightarrow> ('db server, string) step" where
  "symbol_at E client addr =
     catching (call (w_GetName (wa_func (ev_worker E))) addr client) (\<lambda>r.
       case r of
         Inl e \<Rightarrow> fail (Ctx ''cross_reference source GetName'' e)
       | Inr resp \<Rightarrow>
           if rp_Msg resp \<noteq> [] then ret (rp_Msg resp)
           else catching (call (w_GetFunctionName (wa_func (ev_worker E))) addr client) (\<lambda>r.
             case r of Inl _ \<Rightarrow> ret [] | Inr resp \<Rightarrow> ret (rp_Msg resp)))"

text \<open>A list of the target, or nothing when the call fails; the error field is not looked at.\<close>

definition best_effort :: "('q, 'a list, 'db) rpc \<Rightarrow> 'q \<Rightarrow> nat \<Rightarrow> ('db server, 'a list) step" where
  "best_effort f q client =
     catching (call f q client) (\<lambda>r. case r of Inl _ \<Rightarrow> ret [] | Inr resp \<Rightarrow> ret (rp_Msg resp))"

definition best_effort_strings :: "'db env \<Rightarrow> nat \<Rightarrow> ('db server, StringItem list) step" where
  "best_effort_strings E client =
     catching (fetchAllStrings E client None) (\<lambda>r. case r of Inl _ \<Rightarrow> ret [] | Inr xs \<Rightarrow> ret xs)"

definition import_match :: "string \<Rightarrow> Import \<Rightarrow> crossMatch" where
  "import_match cat imp =
     \<lparr>cm_Category = cat, cm_Address = ip_Address imp, cm_Name = ip_Name imp, cm_Module = ip_Module imp, cm_Value = []\<rparr>"

definition named_match :: "string \<Rightarrow> u64 \<Rightarrow> string \<Rightarrow> crossMatch" where
  "named_match cat addr name = \<lparr>cm_Category = cat, cm_Address = addr, cm_Name = name, cm_Module = [], cm_Value = []\<rparr>"

definition symbol_matches :: "'db env \<Rightarrow> nat \<Rightarrow> string \<Rightarrow> ('db server, crossMatch list) step" where
  "symbol_matches E client symbol =
     and_then (best_effort (w_GetImports (wa_list (ev_worker E))) () client) (\<lambda>imports.
     and_then (best_effort (w_GetExports (wa_list (ev_worker E))) () client) (\<lambda>exports.
     and_then (best_effort (w_GetFunctions (wa_list (ev_worker E))) () client) (\<lambda>funcs.
     and_then (best_effort_strings E client) (\<lambda>strings.
     ret (map (import_match ''import'') (filter (\<lambda>i. ip_Name i = symbol) imports) @
          map (\<lambda>e. named_match ''export'' (ep_Address e) (ep_Name e)) (filter (\<lambda>e. ep_Name e = symbol) exports) @
          map (\<lambda>f. named_match ''function'' (fn_Address f) (fn_Name f)) (filter (\<lambda>f. fn_Name f = symbol) funcs) @
          map (\<lambda>x. named_match ''string'' (si_Address x) (si_Value x)) (filter (\<lambda>x. si_Value x = symbol) strings))))))"

definition crossReference :: "'db env \<Rightarrow> 'db wait_env \<Rightarrow> CrossReferenceRequest \<Rightarrow> ('db server, tool_result) step" where
  "crossReference E W args =
     and_then (resolveClientWait E W (cr_SourceSessionID args) ''cross_reference'') (\<lambda>(srcSess, srcClient).
     and_then (resolveClientWait E W (cr_TargetSessionID args) ''cross_reference'') (\<lambda>(tgtSess, tgtClient) s.
       let src = se_ID (session_of s srcSess);
           tgt = se_ID (session_of s tgtSess)
       in and_then (lift (parseAddr (cr_Address args))) (\<lambda>addr.
          and_then (symbol_at E srcClient addr) (\<lambda>symbol.
            if symbol = [] then
              ret (TextContent (''no name found at '' @ hexAddr addr @ '' in source session '' @ src))
            else
              and_then (symbol_matches E tgtClient symbol) (\<lambda>matches.
              ret (TextContent (formatCrossReference (ev_quote E) symbol src tgt addr matches))))) s))"

section \<open>cross_search\<close>

definition matchFilter :: "string \<Rightarrow> (string \<Rightarrow> bool) option \<Rightarrow> string \<Rightarrow> bool" where
  "matchFilter name pattern needle =
     (if needle \<noteq> [] then name = needle
      else case pattern of Some m \<Rightarrow> m name | None \<Rightarrow> True)"

definition search_items :: "'db env \<Rightarrow> nat \<Rightarrow> string \<Rightarrow> (string \<Rightarrow> bool) \<Rightarrow> ('db server, crossMatch list) step" where
  "search_items E client mode wanted =
     (if mode = ''functions'' then
        and_then (best_effort (w_GetFunctions (wa_list (ev_worker E))) () client) (\<lambda>funcs.
          ret (map (\<lambda>f. named_match [] (fn_Address f) (fn_Name f)) (filter (\<lambda>f. wanted (fn_Name f)) funcs)))
      else if mode = ''imports'' then
        and_then (best_effort (w_GetImports (wa_list (ev_worker E))) () client) (\<lambda>imports.
          ret (map (import_match []) (filter (\<lambda>i. wanted (ip_Name i)) imports)))
      else if mode = ''exports'' then
        and_then (best_effort (w_GetExports (wa_list (ev_worker E))) () client) (\<lambda>exports.
          ret (map (\<lambda>e. named_match [] (ep_Address e) (ep_Name e)) (filter (\<lambda>e. wanted (ep_Name e)) exports)))
      else if mode = ''strings'' then
        and_then (best_effort_strings E client) (\<lambda>strings.
          ret (map (\<lambda>x. (named_match [] (si_Address x) [])\<lparr>cm_Value := si_Value x\<rparr>) (filter (\<lambda>x. wanted (si_Value x)) strings)))
      else fail (Quoted ''invalid mode '' mode '': use functions, imports, exports, or strings''))"

definition search_limit :: "int \<Rightarrow> int" where
  "search_limit limit = (if limit \<le> 0 \<or> limit > maxPageLimit then 100 else limit)"

text \<open>The sessions one after the other; a session that does not resolve gives an error row.\<close>

fun search_sessions ::
  "'db env \<Rightarrow> 'db wait_env \<Rightarrow> string \<Rightarrow> (string \<Rightarrow> bool) \<Rightarrow> int \<Rightarrow> string list \<Rightarrow> ('db server, crossSearchResult list) step" where
  "search_sessions E W mode wanted limit [] = ret []"
| "search_sessions E W mode wanted limit (sid # sids) =
     and_then (catching (resolveClientWait E W sid ''cross_search'') (\<lambda>r.
         case r of
           Inl e \<Rightarrow> ret \<lparr>csr_SessionID = sid, csr_BinaryPath = [], csr_Items = [], csr_Error = err_text (ev_quote E) e\<rparr>
         | Inr (sess, client) \<Rightarrow> (\<lambda>s.
             let id = se_ID (session_of s sess);
                 path = se_BinaryPath (session_of s sess)
             in and_then (search_items E client mode wanted) (\<lambda>items.
                ret \<lparr>csr_SessionID = id, csr_BinaryPath = path, csr_Items = take (nat limit) items, csr_Error = []\<rparr>) s)))
       (\<lambda>row. and_then (search_sessions E W mode wanted limit sids) (\<lambda>rows. ret (row # rows)))"

definition crossSearch :: "'db env \<Rightarrow> 'db wait_env \<Rightarrow> CrossSearchRequest \<Rightarrow> ('db server, tool_result) step" where
  "crossSearch E W args s =
     (if cs_Mode args = [] then (Err (Msg ''mode is required: functions, imports, exports, or strings''), s)
      else
        let sessionIDs =
              (if cs_SessionIDs args \<noteq> [] then cs_SessionIDs args
               else map (\<lambda>ref. se_ID (session_of s ref)) (registry_List (ev_order E) (sv_registry s)))
        in if sessionIDs = [] then (Err (Msg ''no active sessions''), s)
           else
             case compileRegex E (cs_Regex args) True of
               Err e \<Rightarrow> (Err (Msg (''invalid regex: '' @ err_text (ev_quote E) e)), s)
             | Panic p \<Rightarrow> (Panic p, s)
             | Ret pattern \<Rightarrow>
                 and_then (search_sessions E W (cs_Mode args) (\<lambda>name. matchFilter name pattern (cs_Needle args))
                             (search_limit (cs_Limit args)) sessionIDs) (\<lambda>results.
                 ret (TextContent (formatCrossSearch (ev_quote E) (cs_Mode args)
                        (int (length (concat (map csr_Items results)))) results))) s)"

end
