(* ===== verification/Imports.thy ===== *)
theory Imports
  imports Calls
begin

text \<open>
  The metadata imports (internal/server/il2cpp.go, flutter.go). The paths are confined before the
  session is resolved; the caches are not touched.
\<close>

definition analysis_tip :: string where
  "analysis_tip = ''Run run_auto_analysis after import to refresh cross references and caches.''"

text \<open>The tail of both tools: the error field counts only without success, and is a warning else.\<close>

definition import_result :: "string \<Rightarrow> ('a \<Rightarrow> bool) \<Rightarrow> ('a \<Rightarrow> (string \<times> json) list) \<Rightarrow> (gerr + 'a reply) \<Rightarrow> ('db server, tool_result) step" where
  "import_result tool ok obj r =
     (case r of
        Inl e \<Rightarrow> fail (Ctx (tool @ '' RPC call'') e)
      | Inr resp \<Rightarrow>
          if rp_Error resp \<noteq> [] \<and> \<not> ok (rp_Msg resp) then fail (Ctx (tool @ '' IDA operation'') (Msg (rp_Error resp)))
          else ret (JsonContent (JObject (obj (rp_Msg resp) @ [(''analysis_tip'', JString analysis_tip)] @
                 (if rp_Error resp \<noteq> [] then [(''warning'', JString (rp_Error resp))] else [])))))"

definition il2cpp_fields :: "Il2CppStats \<Rightarrow> (string \<times> json) list" where
  "il2cpp_fields m =
     [(''success'', JBool (il_Success m)), (''duration_seconds'', JFloat (il_Duration m)),
      (''functions_defined'', JInt (uint (il_FunctionsDefined m))), (''functions_named'', JInt (uint (il_FunctionsNamed m))),
      (''strings_named'', JInt (uint (il_StringsNamed m))), (''metadata_named'', JInt (uint (il_MetadataNamed m))),
      (''metadata_methods'', JInt (uint (il_MetadataMethods m))), (''signatures_applied'', JInt (uint (il_SignaturesApplied m)))]"

definition checked_path :: "'db env \<Rightarrow> string \<Rightarrow> string \<Rightarrow> string \<Rightarrow> ('db server, string) step" where
  "checked_path E tool label p s =
     (case validatePath (ev_host E) (sv_allowedRoots s) label p of
        Err e \<Rightarrow> (Err (Ctx (tool @ '' path validation'') e), s)
      | g \<Rightarrow> (g, s))"

definition importIl2cpp :: "'db env \<Rightarrow> 'db wait_env \<Rightarrow> ImportIl2cppRequest \<Rightarrow> ('db server, tool_result) step" where
  "importIl2cpp E W args =
     (if ii_ScriptPath args = [] then fail (Msg ''script_path is required'')
      else if ii_Il2cppPath args = [] then fail (Msg ''il2cpp_path is required'')
      else
        and_then (checked_path E ''import_il2cpp'' ''script_path'' (ii_ScriptPath args)) (\<lambda>scriptPath.
        and_then (checked_path E ''import_il2cpp'' ''il2cpp_path'' (ii_Il2cppPath args)) (\<lambda>il2cppPath.
        and_then (resolveClientWait E W (ii_SessionID args) ''import_il2cpp'') (\<lambda>(_, client).
        catching (call (w_ImportIl2Cpp (wa_import (ev_worker E))) (scriptPath, il2cppPath, ii_Fields args) client)
          (import_result ''import_il2cpp'' il_Success il2cpp_fields)))))"

definition flutter_fields :: "FlutterStats \<Rightarrow> (string \<times> json) list" where
  "flutter_fields m =
     [(''success'', JBool (fl_Success m)), (''duration_seconds'', JFloat (fl_Duration m)),
      (''functions_created'', JInt (uint (fl_FunctionsCreated m))), (''functions_named'', JInt (uint (fl_FunctionsNamed m))),
      (''structs_created'', JInt (uint (fl_StructsCreated m))), (''signatures_applied'', JInt (uint (fl_SignaturesApplied m))),
      (''comments_set'', JInt (uint (fl_CommentsSet m)))]"

definition importFlutter :: "'db env \<Rightarrow> 'db wait_env \<Rightarrow> ImportFlutterRequest \<Rightarrow> ('db server, tool_result) step" where
  "importFlutter E W args =
     (if ifl_MetaJsonPath args = [] then fail (Msg ''meta_json_path is required'')
      else
        and_then (checked_path E ''import_flutter'' ''meta_json_path'' (ifl_MetaJsonPath args)) (\<lambda>metaPath.
        and_then (resolveClientWait E W (ifl_SessionID args) ''import_flutter'') (\<lambda>(_, client).
        catching (call (w_ImportFlutter (wa_import (ev_worker E))) metaPath client)
          (import_result ''import_flutter'' fl_Success flutter_fields))))"

end
