(* ===== verification/Dispatch.thy ===== *)
theory Dispatch
  imports Composite Types Cross Imports WriteTools
begin

text \<open>
  The tools that dispatch on a category, mode, action or target (internal/server/dispatch.go): each
  checks its arguments and hands over to one handler.
\<close>

section \<open>query, get_references, search\<close>

definition query :: "'db env \<Rightarrow> 'db wait_env \<Rightarrow> QueryRequest \<Rightarrow> ('db server, tool_result) step" where
  "query E W args =
     (let cat = qr_Category args in
      if cat = ''functions'' then
        getFunctions E W \<lparr>gf_SessionID = qr_SessionID args, gf_Offset = qr_Offset args, gf_Limit = qr_Limit args,
          gf_Regex = qr_Regex args, gf_CaseSens = qr_CaseSensitive args, gf_NamedOnly = qr_NamedOnly args\<rparr>
      else if cat = ''imports'' then
        getImports E W \<lparr>gi_SessionID = qr_SessionID args, gi_Offset = qr_Offset args, gi_Limit = qr_Limit args,
          gi_Module = qr_Module args, gi_Regex = qr_Regex args, gi_CaseSens = qr_CaseSensitive args\<rparr>
      else if cat = ''exports'' then
        getExports E W \<lparr>ge_SessionID = qr_SessionID args, ge_Offset = qr_Offset args, ge_Limit = qr_Limit args,
          ge_Regex = qr_Regex args, ge_CaseSens = qr_CaseSensitive args\<rparr>
      else if cat = ''strings'' then
        getStrings E W \<lparr>gs_SessionID = qr_SessionID args, gs_Offset = qr_Offset args, gs_Limit = qr_Limit args,
          gs_Regex = qr_Regex args, gs_CaseSens = qr_CaseSensitive args\<rparr>
      else if cat = ''globals'' then
        getGlobals E W \<lparr>gg_SessionID = qr_SessionID args, gg_Regex = qr_Regex args,
          gg_CaseSensitive = qr_CaseSensitive args, gg_Offset = qr_Offset args, gg_Limit = qr_Limit args\<rparr>
      else if cat = ''segments'' then getSegments E W \<lparr>seg_SessionID = qr_SessionID args\<rparr>
      else if cat = ''structs'' then
        getStructs E W \<lparr>gst_SessionID = qr_SessionID args, gst_Name = qr_Name args, gst_Regex = qr_Regex args,
          gst_CaseSensitive = qr_CaseSensitive args\<rparr>
      else if cat = ''enums'' then
        getEnums E W \<lparr>gen_SessionID = qr_SessionID args, gen_Name = qr_Name args, gen_Regex = qr_Regex args,
          gen_CaseSensitive = qr_CaseSensitive args\<rparr>
      else if cat = ''entry_point'' then getEntryPoint E W \<lparr>gep_SessionID = qr_SessionID args\<rparr>
      else fail (Quoted ''invalid category '' cat
        '': use functions, imports, exports, strings, globals, segments, structs, enums, or entry_point''))"

definition getReferences :: "'db env \<Rightarrow> 'db wait_env \<Rightarrow> GetReferencesRequest \<Rightarrow> ('db server, tool_result) step" where
  "getReferences E W args =
     (let mode = (if gr_Mode args = [] then ''code'' else gr_Mode args) in
      and_then (lift (parseAddr (gr_Address args))) (\<lambda>addr.
        if mode = ''code'' then
          if gr_Direction args \<notin> {[], ''to'', ''from'', ''both''} then
            fail (Quoted ''invalid direction '' (gr_Direction args) '': use to, from, or both'')
          else getXRefs E W \<lparr>gxr_SessionID = gr_SessionID args, gxr_Address = addr, gxr_Direction = gr_Direction args\<rparr>
        else if mode = ''data'' then
          if gr_Direction args \<noteq> [] then
            fail (Msg ''direction is only valid for mode=code (data references have no direction)'')
          else getDataRefs E W \<lparr>dref_SessionID = gr_SessionID args, dref_Address = addr\<rparr>
        else if mode = ''string'' then
          if gr_Direction args \<noteq> [] then
            fail (Msg ''direction is only valid for mode=code (string references have no direction)'')
          else getStringXRefs E W \<lparr>sxr_SessionID = gr_SessionID args, sxr_Address = addr\<rparr>
        else fail (Quoted ''invalid mode '' mode '': use code, data, or string'')))"

definition search :: "'db env \<Rightarrow> 'db wait_env \<Rightarrow> SearchRequest \<Rightarrow> ('db server, tool_result) step" where
  "search E W args =
     and_then (lift (parseAddrDefault (sr_Start args) 0)) (\<lambda>start.
     and_then (lift (parseAddrDefault (sr_End args) 0)) (\<lambda>end'.
       if sr_Mode args = ''text'' then
         findText E W \<lparr>ft_SessionID = sr_SessionID args, ft_Start = start, ft_End = end', ft_Needle = sr_Needle args,
           ft_CaseSensitive = sr_CaseSensitive args, ft_Unicode = sr_Unicode args\<rparr>
       else if sr_Mode args = ''binary'' then
         findBinary E W \<lparr>fb_SessionID = sr_SessionID args, fb_Start = start, fb_End = end', fb_Pattern = sr_Pattern args,
           fb_SearchUp = sr_SearchUp args\<rparr>
       else fail (Quoted ''invalid mode '' (sr_Mode args) '': use text or binary'')))"

section \<open>inspect\<close>

definition inspect_tasks :: "'db env \<Rightarrow> nat \<Rightarrow> u64 \<Rightarrow> (string \<times> ('db server, task_value) step) list" where
  "inspect_tasks E client addr =
     [(''name'', task VText (call_checked (w_GetName (wa_func (ev_worker E))) addr client)),
      (''type'', task VTypeAt (call_checked (w_GetTypeAt (wa_inspect (ev_worker E))) addr client)),
      (''comment'', task VText (call_checked (w_GetComment (wa_inspect (ev_worker E))) addr client)),
      (''func_info'', task VFunctionInfo (call_checked (w_GetFunctionInfo (wa_func (ev_worker E))) addr client)),
      (''insn_len'', task VLength (call_checked (w_GetInstructionLength (wa_inspect (ev_worker E))) addr client))]"

definition lookup_failed :: "(string \<rightharpoonup> gerr) \<Rightarrow> string \<Rightarrow> string \<Rightarrow> string" where
  "lookup_failed errs key label = (if errs key \<noteq> None then label @ '': (lookup failed)'' @ nl else [])"

definition bounds_text :: "FunctionInfo \<Rightarrow> string" where
  "bounds_text info =
     (let details =
            (if fi_CallingConvention info \<noteq> [] then [''cc: '' @ fi_CallingConvention info] else []) @
            (if fi_ReturnType info \<noteq> [] then [''ret: '' @ fi_ReturnType info] else []) @
            (if 0 < fi_NumArgs info then [''args: '' @ u32_dec (fi_NumArgs info)] else []) @
            (if 0 < fi_FrameSize info then [''frame: '' @ u32_dec (fi_FrameSize info)] else [])
      in ''bounds: '' @ hexAddr (fi_Start info) @ ''..'' @ hexAddr (fi_End info) @ ''  ('' @ u32_dec (fi_Size info) @ '' bytes)'' @ nl @
         (if details \<noteq> [] then join_with ''  '' details @ nl else []))"

definition inspect_text :: "u64 \<Rightarrow> (string \<rightharpoonup> task_value) \<Rightarrow> (string \<rightharpoonup> gerr) \<Rightarrow> string" where
  "inspect_text addr data errs =
     textResult (hexAddr addr @ nl @
       (case data ''name'' of
          Some (VText name) \<Rightarrow> if name \<noteq> [] then ''name: '' @ name @ nl else lookup_failed errs ''name'' ''name''
        | _ \<Rightarrow> lookup_failed errs ''name'' ''name'') @
       (case data ''type'' of
          Some (VTypeAt t) \<Rightarrow>
            if ta_HasType t then
              ''type: '' @ ta_Type t @ ''  ['' @ typeKindStr t @ '', '' @ u32_dec (ta_Size t) @ '' bytes]'' @ nl
            else lookup_failed errs ''type'' ''type''
        | _ \<Rightarrow> lookup_failed errs ''type'' ''type'') @
       (case data ''comment'' of
          Some (VText comment) \<Rightarrow> if comment \<noteq> [] then ''comment: '' @ comment @ nl else lookup_failed errs ''comment'' ''comment''
        | _ \<Rightarrow> lookup_failed errs ''comment'' ''comment'') @
       (case data ''func_info'' of
          Some (VFunctionInfo info) \<Rightarrow> bounds_text info
        | _ \<Rightarrow> lookup_failed errs ''func_info'' ''func_info'') @
       (case data ''insn_len'' of
          Some (VLength n) \<Rightarrow> if 0 < n then ''insn: '' @ u32_dec n @ '' bytes'' @ nl else lookup_failed errs ''insn_len'' ''insn''
        | _ \<Rightarrow> lookup_failed errs ''insn_len'' ''insn''))"

definition inspect :: "'db env \<Rightarrow> 'db wait_env \<Rightarrow> InspectRequest \<Rightarrow> ('db server, tool_result) step" where
  "inspect E W args =
     and_then (resolveClientWait E W (isp_SessionID args) ''inspect'') (\<lambda>(_, client).
     and_then (lift (parseAddr (isp_Address args))) (\<lambda>addr.
     and_then (runLabeled (sch_tasks (ev_sched E)) (inspect_tasks E client addr)) (\<lambda>(data, errs).
       if (\<forall>(k, _) \<in> set (inspect_tasks E client addr). data k = None) then
         fail (Msg (''all inspect RPCs failed '' @ emdash @ '' worker may be unhealthy''))
       else ret (TextContent (inspect_text addr data errs)))))"

section \<open>set_metadata, set_type, import_metadata\<close>

definition setMetadata :: "'db env \<Rightarrow> 'db wait_env \<Rightarrow> SetMetadataRequest \<Rightarrow> ('db server, tool_result) step" where
  "setMetadata E W args =
     and_then (lift (parseAddr (sm_Address args))) (\<lambda>addr.
       if sm_Action args = ''set_name'' then
         if TrimSpace (sm_Name args) = [] then fail (Msg ''name is required for action set_name'')
         else setName E W \<lparr>sn_SessionID = sm_SessionID args, sn_Address = addr, sn_Name = sm_Name args\<rparr>
       else if sm_Action args = ''delete_name'' then
         deleteName E W \<lparr>dn_SessionID = sm_SessionID args, dn_Address = addr\<rparr>
       else if sm_Action args = ''set_comment'' then
         and_then (lift (parseAddrDefault (sm_FunctionAddress args) 0)) (\<lambda>funcAddr.
           setComment E W \<lparr>sc_SessionID = sm_SessionID args, sc_Address = addr, sc_Comment = sm_Comment args,
             sc_Scope = sm_Scope args, sc_Repeatable = sm_Repeatable args, sc_FunctionAddress = funcAddr\<rparr>)
       else fail (Quoted ''invalid action '' (sm_Action args) '': use set_name, delete_name, or set_comment''))"

definition address_for :: "string \<Rightarrow> string \<Rightarrow> ('db server, u64) step" where
  "address_for context address =
     catching (lift (parseAddr address)) (\<lambda>r. case r of Inl e \<Rightarrow> fail (Ctx context e) | Inr a \<Rightarrow> ret a)"

definition setType :: "'db env \<Rightarrow> 'db wait_env \<Rightarrow> SetTypeRequest \<Rightarrow> ('db server, tool_result) step" where
  "setType E W args =
     (if sty_Target args = ''function'' then
        and_then (address_for ''address is required for target function'' (sty_Address args)) (\<lambda>addr.
          if TrimSpace (sty_Prototype args) = [] then
            fail (Msg (''prototype is required for target function (e.g. '' @ [CHR 0x22] @ ''int __fastcall foo(int a)'' @ [CHR 0x22] @ '')''))
          else setFunctionType E W
            \<lparr>sft_SessionID = sty_SessionID args, sft_Address = addr, sft_Prototype = sty_Prototype args\<rparr>)
      else if sty_Target args = ''global'' then
        and_then (address_for ''address is required for target global'' (sty_Address args)) (\<lambda>addr.
          if TrimSpace (sty_Type args) = [] then
            fail (Msg (''type is required for target global (C-style type, e.g. '' @ [CHR 0x22] @ ''int'' @ [CHR 0x22] @ '')''))
          else setGlobalType E W \<lparr>sgt_SessionID = sty_SessionID args, sgt_Address = addr, sgt_Type = sty_Type args\<rparr>)
      else if sty_Target args = ''lvar'' then
        and_then (address_for ''function_address is required for target lvar'' (sty_FunctionAddress args)) (\<lambda>faddr.
          if TrimSpace (sty_LvarName args) = [] then fail (Msg ''lvar_name is required for target lvar'')
          else if TrimSpace (sty_Type args) = [] then
            fail (Msg (''type is required for target lvar (C-style type, e.g. '' @ [CHR 0x22] @ ''int'' @ [CHR 0x22] @ '')''))
          else setLvarType E W
            \<lparr>slt_SessionID = sty_SessionID args, slt_FunctionAddress = faddr, slt_LvarName = sty_LvarName args,
             slt_LvarType = sty_Type args\<rparr>)
      else fail (Quoted ''invalid target '' (sty_Target args) '': use function, global, or lvar''))"

definition importMetadata :: "'db env \<Rightarrow> 'db wait_env \<Rightarrow> ImportMetadataRequest \<Rightarrow> ('db server, tool_result) step" where
  "importMetadata E W args =
     (if im_Format args = ''il2cpp'' then
        importIl2cpp E W \<lparr>ii_SessionID = im_SessionID args, ii_ScriptPath = im_ScriptPath args,
          ii_Il2cppPath = im_Il2cppPath args, ii_Fields = im_Fields args\<rparr>
      else if im_Format args = ''flutter'' then
        importFlutter E W \<lparr>ifl_SessionID = im_SessionID args, ifl_MetaJsonPath = im_MetaJsonPath args\<rparr>
      else fail (Quoted ''invalid format '' (im_Format args) '': use il2cpp or flutter''))"

end
