(* ===== verification/Keeping.thy ===== *)
theory Keeping
  imports Dispatch
begin

text \<open>
  What every tool keeps: the contract of an invariant with the operations the handlers are built
  from, and one lemma per handler, proved once against the contract. The providers are in Tools, Confined and Exposure.
\<close>

locale tool_state = stable_session +
  assumes promote: "I s \<Longrightarrow> I (promoteToTier t s)"
    and outputs: "I s \<Longrightarrow> (outputs_inv (sv_outputs s) \<Longrightarrow> outputs_inv out) \<Longrightarrow> I (s\<lparr>sv_outputs := out\<rparr>)"

text \<open>The other goroutines keep the invariant while a request waits.\<close>

definition quiet :: "('db server \<Rightarrow> bool) \<Rightarrow> 'db wait_env \<Rightarrow> bool" where
  "quiet I W \<longleftrightarrow> (\<forall>t s. t \<in> set (we_ticks W) \<longrightarrow> I s \<longrightarrow> I (t s))"

lemma keeps_at: "keeps I m \<Longrightarrow> (\<And>s. I s \<Longrightarrow> I (f s)) \<Longrightarrow> keeps I (\<lambda>s. m (f s))"
  by (simp add: keeps_def)

lemma keeps_of: "(\<And>s. I s \<Longrightarrow> keeps I (m s)) \<Longrightarrow> keeps I (\<lambda>s. m s s)"
  by (simp add: keeps_def)

lemma keeps_const: "(\<And>s. I s \<Longrightarrow> I (f s)) \<Longrightarrow> keeps I (\<lambda>s. (r s, f s))"
  by (simp add: keeps_def)

context tool_state
begin

lemma keeps_wait: "quiet I W \<Longrightarrow> keeps I (resolveClientWait E W sid tool)"
  by (rule keeps_resolveClientWait) (auto simp: quiet_def)

lemma keeps_client:
  assumes "quiet I W" and "\<And>sess client. keeps I (k (sess, client))"
  shows "keeps I (and_then (resolveClientWait E W sid tool) k)"
  using assms(2) by (intro keeps_and_then keeps_wait assms(1)) auto

lemmas pointwise = and_then_keeps catching_keeps

section \<open>Write tools\<close>

lemma keeps_fetchName: "keeps I (fetchName E client addr)"
  unfolding fetchName_def by (auto intro!: keeps_intros keeps_call split: sum.splits)

lemma keeps_writes:
  assumes "quiet I W"
  shows "keeps I (setName E W a1)" "keeps I (deleteName E W a2)" "keeps I (makeFunction E W a3)"
    "keeps I (setComment E W a4)" "keeps I (setLvarType E W a5)" "keeps I (setGlobalType E W a6)"
    "keeps I (setFunctionType E W a7)"
  by (rule keepsI; auto simp: setName_def deleteName_def makeFunction_def setComment_def setLvarType_def setGlobalType_def
      setFunctionType_def Let_def upd_def ret_def fail_def
      intro!: pointwise keeps_wait [OF assms] keeps_fetchName keeps_call_success keeps_call_logged keeps_lift cache split: prod.splits)+

section \<open>Read tools\<close>

lemma keeps_call_named: "keeps I (call_named c1 c2 f q client)"
  unfolding call_named_def by (auto intro!: keeps_intros keeps_call split: sum.splits)

lemma keeps_page_text: "keeps I (page_text fmt o' l filtered)"
  unfolding page_text_def by (auto intro!: keeps_intros split: prod.splits)

lemma keeps_cached_list:
  "keeps I load \<Longrightarrow> (\<And>d. keeps I (k d)) \<Longrightarrow> keeps I (cached_list E tool noun p sid load k)"
  unfolding cached_list_def
  by (auto intro!: keeps_intros keeps_emitProgress split: sum.splits prod.splits)

lemmas keeps_lists = keeps_cached_list keeps_page_text keeps_loads keeps_fetchAll keeps_fetchAllStrings keeps_call_checked

lemma keeps_list_tools:
  assumes "quiet I W"
  shows "keeps I (getFunctions E W a1)" "keeps I (getImports E W a2)" "keeps I (getExports E W a3)"
    "keeps I (getStrings E W a4)" "keeps I (getSegments E W a5)"
  by (rule keepsI; auto simp: getFunctions_def getImports_def getExports_def getStrings_def getSegments_def Let_def
      ret_def fail_def intro!: pointwise keeps_wait [OF assms] keepsD [OF keeps_cached_list] keeps_lists keeps_getSessionCache
      split: prod.splits sum.splits)+

lemma keeps_one_call:
  assumes "quiet I W"
  shows "keeps I (getDisasm E W a1)" "keeps I (getDataRefs E W a2)" "keeps I (getStringXRefs E W a3)"
    "keeps I (getEntryPoint E W a4)" "keeps I (findBinary E W a5)" "keeps I (findText E W a6)"
  by (rule keepsI; auto simp: getDisasm_def getDataRefs_def getStringXRefs_def getEntryPoint_def findBinary_def findText_def
      ret_def intro!: pointwise keeps_wait [OF assms] keeps_call_named keeps_call_logged keeps_lift split: prod.splits)+

lemma keeps_memory_fetcher: "memory_fetcher E client addr sz fmt = Some f \<Longrightarrow> keeps I f"
  by (auto simp: memory_fetcher_def Let_def intro!: keeps_intros keeps_call split: if_splits)

lemma keeps_readMemory: "quiet I W \<Longrightarrow> keeps I (readMemory E W args)"
  unfolding readMemory_def
  by (auto intro!: keeps_wait keeps_intros keeps_memory_fetcher simp: Let_def split: option.splits sum.splits prod.splits)

lemma keeps_xrefs: "keeps I (xrefs_to E client addr)" "keeps I (xrefs_from E client addr)"
  unfolding xrefs_to_def xrefs_from_def by (auto intro!: keeps_intros keeps_call_checked)

lemma keeps_run_channel: "(\<And>k f. (k, f) \<in> set ts \<Longrightarrow> keeps I f) \<Longrightarrow> keeps I (run_channel ts)"
proof (induction ts)
  case (Cons t ts)
  obtain k f where t: "t = (k, f)" by (cases t)
  show ?case unfolding t run_channel.simps using Cons t by (intro keeps_intros) auto
qed (simp add: keeps_ret)

lemma keeps_getXRefs:
  assumes "quiet I W"
  shows "keeps I (getXRefs E W args)"
proof -
  have chan: "keeps I (run_channel (in_schedule order [(''to'', xrefs_to E client addr), (''from'', xrefs_from E client addr)]))"
    for order client addr
    by (rule keeps_run_channel) (auto simp: in_schedule_perm keeps_xrefs)
  show ?thesis
    by (rule keepsI) (auto simp: getXRefs_def Let_def ret_def fail_def
      intro!: pointwise keeps_wait [OF assms] chan keeps_lift keeps_call_named keeps_upd cache keeps_getSessionCache
      split: prod.splits option.splits sum.splits)
qed

section \<open>Types, cross-session tools, imports\<close>

lemma keeps_type_tools:
  assumes "quiet I W"
  shows "keeps I (getGlobals E W a1)" "keeps I (getStructs E W a2)" "keeps I (getEnums E W a3)"
  unfolding getGlobals_def getStructs_def getEnums_def
  by (auto intro!: keeps_client [OF assms] keeps_intros keeps_call_logged)

lemma keeps_best_effort: "keeps I (best_effort f q client)" "keeps I (best_effort_strings E client)"
  unfolding best_effort_def best_effort_strings_def
  by (auto intro!: keeps_intros keeps_call keeps_fetchAllStrings split: sum.splits)

lemma keeps_symbol: "keeps I (symbol_at E client addr)" "keeps I (symbol_matches E client symbol)"
  unfolding symbol_at_def symbol_matches_def
  by (auto intro!: keeps_intros keeps_call keeps_best_effort split: sum.splits)

lemma keeps_crossReference: "quiet I W \<Longrightarrow> keeps I (crossReference E W args)"
  by (rule keepsI) (auto simp: crossReference_def Let_def ret_def intro!: pointwise keeps_wait keeps_lift keeps_symbol
      split: prod.splits)

lemma keeps_search_items: "keeps I (search_items E client mode wanted)"
  unfolding search_items_def by (auto intro!: keeps_intros keeps_best_effort)

lemma keeps_search_sessions: "quiet I W \<Longrightarrow> keeps I (search_sessions E W mode wanted limit sids)"
proof (induction sids)
  case (Cons sid sids)
  show ?case
    by (rule keepsI) (auto simp: Let_def ret_def intro!: pointwise keeps_catching keeps_wait [OF Cons.prems] keepsI
        keeps_search_items keepsD [OF Cons.IH [OF Cons.prems]] split: sum.splits prod.splits)
qed (simp add: keeps_ret)

lemma keeps_crossSearch: "quiet I W \<Longrightarrow> keeps I (crossSearch E W args)"
  by (rule keepsI) (auto simp: crossSearch_def Let_def ret_def intro!: pointwise keeps_search_sessions split: go.splits)

lemma keeps_imports:
  assumes "quiet I W"
  shows "keeps I (importIl2cpp E W a1)" "keeps I (importFlutter E W a2)"
proof -
  have p: "keeps I (checked_path E tool label q)" for tool label q
    by (auto simp: keeps_def checked_path_def split: go.splits)
  have r: "keeps I (import_result tool ok obj x)" for tool ok obj and x :: "gerr + 'z reply"
    unfolding import_result_def by (auto intro!: keeps_intros split: sum.splits)
  show "keeps I (importIl2cpp E W a1)" "keeps I (importFlutter E W a2)"
    unfolding importIl2cpp_def importFlutter_def
    by (auto intro!: keeps_intros keeps_client [OF assms] keeps_call p r)
qed

section \<open>Composite tools\<close>

lemma keeps_task: "keeps I m \<Longrightarrow> keeps I (task con m)"
  unfolding task_def by (auto intro!: keeps_intros)

lemma keeps_survey_tasks: "(k, f) \<in> set (survey_tasks E sid client) \<Longrightarrow> keeps I f"
  by (auto simp: survey_tasks_def survey_strings_def
      intro!: keeps_task keeps_lists keeps_call keeps_and_then keeps_ret split: prod.splits)

lemma keeps_surveyBinary: "quiet I W \<Longrightarrow> keeps I (surveyBinary E W args)"
  by (rule keepsI) (auto simp: surveyBinary_def Let_def ret_def intro!: pointwise keeps_wait keeps_runLabeled keeps_survey_tasks
      keeps_upd promote keeps_getSessionCache split: prod.splits)

lemma keeps_analyze_tasks: "(k, f) \<in> set (analyze_tasks E sid client addr) \<Longrightarrow> keeps I f"
proof -
  have d: "keeps I (analyze_decompiled E sid client addr)"
    by (rule keepsI) (auto simp: analyze_decompiled_def Let_def ret_def intro!: pointwise keeps_call_checked keeps_upd cache
        split: option.splits)
  have tt: "keeps I (runLabeled order [(''to'', task VTuples (xrefs_to E client addr)), (''from'', task VTuples (xrefs_from E client addr))])"
    for order
    by (rule keeps_runLabeled) (auto intro!: keeps_task keeps_xrefs)
  have x: "keeps I (analyze_xrefs E sid client addr)"
    by (rule keepsI) (auto simp: analyze_xrefs_def Let_def ret_def fail_def intro!: pointwise tt keeps_upd cache
        split: option.splits prod.splits)
  assume "(k, f) \<in> set (analyze_tasks E sid client addr)"
  then show ?thesis
    by (auto simp: analyze_tasks_def intro!: keeps_task keeps_call_checked keeps_call d x)
qed

lemma keeps_analyzeSingleFunction: "keeps I (analyzeSingleFunction E sess client addr)"
  by (rule keepsI) (auto simp: analyzeSingleFunction_def Let_def ret_def intro!: pointwise keeps_runLabeled keeps_analyze_tasks
      keeps_upd cache keeps_getSessionCache split: prod.splits)

lemma keeps_analyzeFunction: "quiet I W \<Longrightarrow> keeps I (analyzeFunction E W args)"
  unfolding analyzeFunction_def
  by (auto intro!: keeps_wait keeps_intros keeps_analyzeSingleFunction promote)

lemma keeps_analyze_item: "keeps I (analyze_item E sess client a)"
  unfolding analyze_item_def by (auto intro!: keeps_intros keeps_analyzeSingleFunction split: sum.splits)

lemma keeps_analyze_batch: "I s \<Longrightarrow> I (snd (parallelMap order z (analyze_item E sess client) xs s))"
  by (rule parallelMap_keeps) (auto intro: keepsD [OF keeps_analyze_item])

lemma keeps_analyzeFunctions: "quiet I W \<Longrightarrow> keeps I (analyzeFunctions E W args)"
  by (rule keepsI) (auto simp: analyzeFunctions_def Let_def ret_def case_prod_unfold
      intro!: pointwise keeps_wait keeps_lift keeps_analyze_batch)

lemma keeps_workerPOST: "keeps I (workerPOST E client path payload label)"
  by (auto simp: keeps_def workerPOST_def intro: db split: prod.splits sum.splits go.splits)

lemma cache_op_annotate: "cache_op (\<lambda>c. invalidateDecomp addr (if b then invalidateFunctions c else c))"
  using cache_ops(1) cache_ops(2) [of addr] by (auto simp: cache_op_def)

lemma cache_op_py: "cache_op (\<lambda>c. invalidateAllXRefs (invalidateAllDecomp (invalidateFunctions c)))"
  using cache_ops(1,3,4) by (auto simp: cache_op_def)

lemma keeps_annotate_eval:
  assumes "quiet I W"
  shows "keeps I (annotateFunction E W a1)" "keeps I (pyEval E W a2)"
  by (rule keepsI; auto simp: annotateFunction_def pyEval_def Let_def ret_def
      intro!: pointwise keeps_wait [OF assms] keeps_lift keeps_workerPOST keeps_upd cache cache_op_annotate cache_op_py
      split: prod.splits)+

lemma cache_op_prune: "cache_op (\<lambda>c. snd (pruneNotedFunctions order c))"
proof -
  have one: "cache_inv (snd p) \<Longrightarrow> cache_inv (snd (prune_one a nt p))" for a nt p
    by (auto simp: prune_one_def cache_inv_def Let_def case_prod_unfold decomp_inv_delete split: option.splits)
  have "cache_inv (snd p) \<Longrightarrow>
      cache_inv (snd (fold (\<lambda>addr p. case visited_map c addr of Some note \<Rightarrow> prune_one addr note p | None \<Rightarrow> p) xs p))" for c xs p
    by (induction xs arbitrary: p) (auto simp: one split: option.splits)
  then show ?thesis by (simp add: cache_op_def pruneNotedFunctions_def)
qed

lemma outputs_inv_cleared: "outputs_clear out = (n, out') \<Longrightarrow> outputs_inv out'"
  using outputs_inv_clear [of out] by simp

lemma keeps_context_tools: "keeps I (setAnalysisNote E a1)" "keeps I (getAnalysisContext E a2)" "keeps I (pruneContext E a3)"
  by (rule keepsI; auto simp: setAnalysisNote_def getAnalysisContext_def pruneContext_def Let_def
      intro!: pointwise keeps_resolveSession keeps_lift cache touch outputs keeps_getSessionCache cache_op_prune outputs_inv_cleared
      split: prod.splits)+

section \<open>Dispatch\<close>

lemma keeps_inspect: "quiet I W \<Longrightarrow> keeps I (inspect E W args)"
proof -
  have "keeps I f" if "(k, f) \<in> set (inspect_tasks E client addr)" for k f client addr
    using that by (auto simp: inspect_tasks_def intro!: keeps_task keeps_call_checked)
  then show "quiet I W \<Longrightarrow> ?thesis"
    unfolding inspect_def by (auto intro!: keeps_wait keeps_intros)
qed

lemma keeps_dispatch:
  assumes "quiet I W"
  shows "keeps I (query E W a1)" "keeps I (getReferences E W a2)" "keeps I (search E W a3)" "keeps I (setMetadata E W a4)"
    "keeps I (setType E W a5)" "keeps I (importMetadata E W a6)"
  unfolding query_def getReferences_def search_def setMetadata_def setType_def importMetadata_def address_for_def Let_def
  by (auto intro!: keeps_intros keeps_list_tools [OF assms] keeps_one_call [OF assms] keeps_type_tools [OF assms]
      keeps_getXRefs [OF assms] keeps_writes [OF assms] keeps_imports [OF assms] split: sum.splits)

end

end
