(* ===== verification/Opening.thy ===== *)
theory Opening
  imports Lifecycle
begin

text \<open>
  What open_binary leaves behind (openBinary of internal/server/session.go): everything or nothing. A
  new path is opened in two steps, up to the launch of the worker and from the launch on, each with
  a lemma for what it changes.
\<close>

section \<open>The worker of a new session\<close>

lemma enrich_step:
  "enrichSessionResult E sid result s = (res, s') \<Longrightarrow> s' = s \<or> (\<exists>client db. s' = db_step client db s)"
  by (auto simp: enrichSessionResult_def call_cases split: go.splits sum.splits prod.splits)

lemma on_session_same: "on_registry (on_session sess (\<lambda>_. session_of s sess)) s = s"
  by (simp add: on_registry_def on_session_def session_of_def)

lemma workers_Start_cases:
  "workers_Start E sess path s =
     (case os_launch (ev_os E) (se_ID (session_of s sess)) of
        Err e \<Rightarrow> (Err e, s)
      | Panic p \<Rightarrow> (Panic p, s)
      | Ret result \<Rightarrow>
          (Ret (), on_registry (on_session sess (\<lambda>x. x\<lparr>se_WorkerPID := lr_PID result\<rparr>))
             (s\<lparr>sv_workers := fst (snd (manager_Start (Ret result) path (sv_workers s, session_of s sess)))\<rparr>)))"
  by (simp add: workers_Start_def manager_Start_def Let_def on_session_same on_registry_def on_session_def session_of_def
      split: go.splits)

lemma manager_Start_client:
  "mg_sessions (fst (snd (manager_Start (Ret result) path (m, sess)))) = (mg_sessions m)(se_ID sess \<mapsto> mg_next m)"
  by (simp add: manager_Start_def Let_def newWorkerClient_def)

text \<open>The session object of a new session, and its registration undone.\<close>

definition new_session :: "draw \<Rightarrow> string \<Rightarrow> int \<Rightarrow> session" where
  "new_session d path timeout =
     \<lparr>se_ID = dr_id d, se_BinaryPath = Clean path, se_CreatedAt = dr_now d, se_LastActivity = dr_now' d,
      se_Timeout = timeout, se_SocketPath = socket_path d, se_WorkerPID = 0, se_inFlight = 0, se_analysisActive = False\<rparr>"

lemma new_session_simps [simp]: "se_ID (new_session d path timeout) = dr_id d" "se_BinaryPath (new_session d path timeout) = Clean path"
  by (simp_all add: new_session_def)

lemma Create_new:
  "registry_Create d path timeout r =
     (if rg_maxSessions r > 0 \<and> int (map_len (rg_sessions r)) \<ge> rg_maxSessions r then (Err (max_reached r), r)
      else (Ret (rg_next r), snd (registry_insert (new_session d path timeout) r)))"
  by (simp add: registry_Create_cases new_session_def)

lemma insert_simps:
  "rg_sessions (snd (registry_insert x r)) = (rg_sessions r)(se_ID x \<mapsto> rg_next r)"
  "rg_binaryIndex (snd (registry_insert x r)) = (rg_binaryIndex r)(se_BinaryPath x \<mapsto> rg_next r)"
  "rg_heap (snd (registry_insert x r)) (rg_next r) = x"
  by (simp_all add: registry_insert_def)

lemma insert_Delete:
  assumes "rg_sessions r (se_ID x) = None" and "rg_binaryIndex r (se_BinaryPath x) = None"
  shows "rg_sessions (registry_Delete (se_ID x) (snd (registry_insert x r))) = rg_sessions r"
    and "rg_binaryIndex (registry_Delete (se_ID x) (snd (registry_insert x r))) = rg_binaryIndex r"
  using assms by (auto simp: registry_Delete_def registry_insert_def fun_upd_idem)

section \<open>open_binary before and after the launch\<close>

definition open_begin :: "'db env \<Rightarrow> OpenBinaryRequest \<Rightarrow> ('db server, nat) step" where
  "open_begin E args s =
     (case registry_Create (ev_draw E) (ob_Path args) (sv_sessionTimeout s) (sv_registry s) of
        (Err e, reg) \<Rightarrow> (Err (Ctx ''open_binary session creation'' e), s\<lparr>sv_registry := reg\<rparr>)
      | (Panic p, reg) \<Rightarrow> (Panic p, s\<lparr>sv_registry := reg\<rparr>)
      | (Ret sess, reg) \<Rightarrow>
          let s = s\<lparr>sv_registry := reg\<rparr>
          in (Ret sess, recordProgress (ev_now E) (se_ID (session_of s sess)) ''starting'' ''Starting worker'' 0 4 s))"

definition open_launch :: "'db env \<Rightarrow> OpenBinaryRequest \<Rightarrow> nat \<Rightarrow> ('db server, tool_result \<times> background list) step" where
  "open_launch E args sess s =
     (let sid = se_ID (session_of s sess);
          undo = (\<lambda>s. clearProgress sid (deleteSessionCache sid (on_registry (registry_Delete sid) s)))
      in case workers_Start E sess (ob_Path args) s of
           (Err e, s) \<Rightarrow> (Err (Ctx ''open_binary worker start'' e), undo s)
         | (Panic p, s) \<Rightarrow> (Panic p, s)
         | (Ret _, s) \<Rightarrow>
             (case manager_GetClient sid (sv_workers s) of
                Err e \<Rightarrow> (Err (Ctx ''open_binary worker client'' e), undo (snd (workers_Stop E sid s)))
              | Panic p \<Rightarrow> (Panic p, s)
              | Ret client \<Rightarrow> let (r, s) = open_started E sess client args s in (Ret r, s)))"

text \<open>With nothing in between the two steps are those of the handler.\<close>

lemma open_new_launch: "open_new E args s = and_then (open_begin E args) (open_launch E args) s"
  by (simp add: open_new_def open_begin_def open_launch_def and_then_def Let_def session_of_def recordProgress_def
      split: go.splits prod.splits)

lemma open_begin_effect:
  assumes "open_begin E args s = (Ret sess, s1)" and "dr_id (ev_draw E) \<noteq> []"
  shows "sess = rg_next (sv_registry s)"
    and "sv_registry s1 = snd (registry_insert (new_session (ev_draw E) (ob_Path args) (sv_sessionTimeout s)) (sv_registry s))"
    and "sv_workers s1 = sv_workers s" and "sv_store s1 = sv_store s"
    and "session_of s1 sess = new_session (ev_draw E) (ob_Path args) (sv_sessionTimeout s)"
  using assms by (auto simp: open_begin_def Create_new Let_def recordProgress_def session_of_def insert_simps split: if_splits)

lemma open_begin_full:
  "rg_maxSessions (sv_registry s) > 0 \<and> int (map_len (rg_sessions (sv_registry s))) \<ge> rg_maxSessions (sv_registry s) \<Longrightarrow>
   open_begin E args s = (Err (Ctx ''open_binary session creation'' (max_reached (sv_registry s))), s)"
  by (simp add: open_begin_def Create_new)

lemma open_begin_room:
  "\<not> (rg_maxSessions (sv_registry s) > 0 \<and> int (map_len (rg_sessions (sv_registry s))) \<ge> rg_maxSessions (sv_registry s)) \<Longrightarrow>
   open_begin E args s = (Ret (rg_next (sv_registry s)), recordProgress (ev_now E) (dr_id (ev_draw E)) ''starting'' ''Starting worker'' 0 4
     (s\<lparr>sv_registry := snd (registry_insert (new_session (ev_draw E) (ob_Path args) (sv_sessionTimeout s)) (sv_registry s))\<rparr>))"
  by (simp add: open_begin_def Create_new Let_def session_of_def insert_simps)

section \<open>All or nothing\<close>

text \<open>What is kept of a server apart from session objects nothing refers to and the databases.\<close>

definition server_view :: "'db server \<Rightarrow>
    (string \<rightharpoonup> nat) \<times> (string \<rightharpoonup> nat) \<times> (string \<rightharpoonup> nat) \<times> (string \<rightharpoonup> sessionCache) \<times>
    (string \<rightharpoonup> sessionProgress) \<times> (string \<Rightarrow> dirent option) option \<times> int \<times> string list" where
  "server_view s =
     (rg_sessions (sv_registry s), rg_binaryIndex (sv_registry s), mg_sessions (sv_workers s), sv_cache s,
      sv_progress s, sv_store s, sv_tier s, sv_tools s)"

lemma undo_view:
  assumes "rg_sessions (sv_registry s) (se_ID x) = None" and "rg_binaryIndex (sv_registry s) (se_BinaryPath x) = None"
    and "sv_cache s (se_ID x) = None" and "sv_progress s (se_ID x) = None"
  shows "server_view (clearProgress (se_ID x) (deleteSessionCache (se_ID x) (on_registry (registry_Delete (se_ID x))
           (recordProgress now (se_ID x) st msg a b (s\<lparr>sv_registry := snd (registry_insert x (sv_registry s))\<rparr>))))) = server_view s"
  using assms(3,4) insert_Delete [OF assms(1,2)]
  by (auto simp: server_view_def clearProgress_def deleteSessionCache_def recordProgress_def on_registry_def
      fun_upd_idem)

text \<open>A fresh id: nothing is kept under it yet.\<close>

definition fresh_id :: "string \<Rightarrow> 'db server \<Rightarrow> bool" where
  "fresh_id sid s \<longleftrightarrow> sid \<noteq> [] \<and> rg_sessions (sv_registry s) sid = None \<and> sv_cache s sid = None \<and>
     sv_progress s sid = None \<and> mg_sessions (sv_workers s) sid = None"

lemma open_started_effects:
  assumes "open_started E sess client args s = ((res, jobs), s')" and "se_ID (session_of s sess) \<noteq> []"
  shows "jobs = [BackgroundOpen sess client (ob_Path args) (\<not> ob_SkipAnalysis args)] \<and>
    sv_registry s' = sv_registry s \<and> sv_workers s' = sv_workers s \<and> 1 \<le> sv_tier s' \<and>
    readinessError (se_ID (session_of s sess)) s' \<noteq> None"
proof -
  let ?sid = "se_ID (session_of s sess)"
  define s1 where "s1 = recordProgress (ev_now E) ?sid ''opening'' ''Loading binary into IDA'' 1 4
      (promoteToTier 1 (persistSession E sess s))"
  have prog: "getProgress ?sid s1 = Some \<lparr>pg_Stage = ''opening'', pg_Message = ''Loading binary into IDA'',
      pg_Progress = 1, pg_Total = 4, pg_UpdatedAt = ev_now E\<rparr>"
    using assms(2) by (simp add: s1_def getProgress_def recordProgress_def)
  have s1: "sv_registry s1 = sv_registry s" "sv_workers s1 = sv_workers s" "1 \<le> sv_tier s1"
    "readinessError ?sid s1 \<noteq> None"
  proof -
    show "sv_registry s1 = sv_registry s" "sv_workers s1 = sv_workers s"
      by (simp_all add: s1_def promote_same persistSession_def split: option.splits)
    show "1 \<le> sv_tier s1" by (simp add: s1_def promoteToTier_def Let_def)
    show "readinessError ?sid s1 \<noteq> None" by (simp add: readinessError_None prog inProgressStages_def)
  qed
  have sid: "se_ID (session_of (promoteToTier 1 (persistSession E sess s)) sess) = ?sid"
    by (simp add: persistSession_def promote_same session_of_def split: option.splits)
  obtain result s2 where e: "enrichSessionResult E ?sid
        [(''session_id'', JString ?sid), (''binary_path'', JString (ob_Path args)),
         (''created_at'', JInt (unix (se_CreatedAt (session_of s1 sess)))), (''status'', JString ''opening''),
         (''analysis_pending'', JBool (\<not> ob_SkipAnalysis args)), (''auto_running'', JBool True),
         (''message'', JString (open_message (\<not> ob_SkipAnalysis args)))] s1 = (result, s2)" by force
  have "session_of s1 sess = session_of s sess" using s1(1) by (simp add: session_of_def)
  moreover have "session_of (promoteToTier 1 (persistSession E sess s)) sess = session_of s sess"
    by (simp add: persistSession_def promote_same session_of_def split: option.splits)
  ultimately have r: "jobs = [BackgroundOpen sess client (ob_Path args) (\<not> ob_SkipAnalysis args)]" "s' = s2"
    using assms(1) e by (simp_all add: open_started_def Let_def s1_def [symmetric] split: prod.splits)
  have "readinessError ?sid s2 = readinessError ?sid s1"
    using enrich_step [OF e] by (auto simp: readinessError_def getProgress_def)
  then show ?thesis using r enrich_step [OF e] s1 by auto
qed

lemma persist_writes:
  assumes "sv_store s = Some d" and "os_io (ev_os E) = io_ok" and "os_encode (ev_os E) (session_Metadata (session_of s sess)) = Ret data"
  shows "\<exists>d'. sv_store (persistSession E sess s) = Some d' \<and> d' (se_ID (session_of s sess) @ ''.json'') = Some (File data)"
  using assms by (simp add: persistSession_def store_Save_def store_WriteFile_def store_Rename_def io_ok_def and_then_def Let_def)

lemma open_started_store: "sv_store (snd (open_started E sess client args s)) = sv_store (persistSession E sess s)"
proof -
  have "sv_store (snd (enrichSessionResult E sid res t)) = sv_store t" for sid res and t :: "'a server"
    using enrich_step [of E sid res t] by (metis db_step_simps prod.collapse)
  then show ?thesis by (simp add: open_started_def Let_def case_prod_unfold promote_same)
qed

lemma open_launch_effect:
  fixes s :: "'db server" and sess :: nat
  defines "sid \<equiv> se_ID (session_of s sess)"
  assumes launch: "os_launch (ev_os E) sid = Ret l" and id: "sid \<noteq> []" and run: "open_launch E args sess s = (r, s')"
  obtains result where "r = Ret (result, [BackgroundOpen sess (mg_next (sv_workers s)) (ob_Path args) (\<not> ob_SkipAnalysis args)])"
    "sv_registry s' = on_session sess (\<lambda>x. x\<lparr>se_WorkerPID := lr_PID l\<rparr>) (sv_registry s)"
    "mg_sessions (sv_workers s') = (mg_sessions (sv_workers s))(sid \<mapsto> mg_next (sv_workers s))"
    "mg_next (sv_workers s') = Suc (mg_next (sv_workers s))"
    "1 \<le> sv_tier s'" "readinessError sid s' \<noteq> None"
    "\<And>d data. sv_store s = Some d \<Longrightarrow> os_io (ev_os E) = io_ok \<Longrightarrow>
       os_encode (ev_os E) (session_Metadata (session_of s sess)) = Ret data \<Longrightarrow>
       \<exists>d'. sv_store s' = Some d' \<and> d' (sid @ ''.json'') = Some (File data)"
proof -
  let ?client = "mg_next (sv_workers s)"
  define t where "t = on_registry (on_session sess (\<lambda>x. x\<lparr>se_WorkerPID := lr_PID l\<rparr>))
    (s\<lparr>sv_workers := fst (snd (manager_Start (Ret l) (ob_Path args) (sv_workers s, session_of s sess)))\<rparr>)"
  have start: "workers_Start E sess (ob_Path args) s = (Ret (), t)"
    using launch by (simp add: workers_Start_cases t_def sid_def)
  have t: "se_ID (session_of t sess) = sid" "session_Metadata (session_of t sess) = session_Metadata (session_of s sess)"
    "mg_sessions (sv_workers t) = (mg_sessions (sv_workers s))(sid \<mapsto> ?client)" "sv_store t = sv_store s"
    "sv_registry t = on_session sess (\<lambda>x. x\<lparr>se_WorkerPID := lr_PID l\<rparr>) (sv_registry s)"
    by (simp_all add: t_def session_of_def on_registry_def on_session_def session_Metadata_def manager_Start_client sid_def)
  have more: "mg_next (sv_workers t) = Suc ?client" by (simp add: t_def on_registry_def manager_Start_def Let_def)
  obtain result jobs s5 where o: "open_started E sess ?client args t = ((result, jobs), s5)" by (metis prod.collapse)
  have out: "r = Ret (result, jobs)" "s' = s5"
    using run start t(3) o by (simp_all add: open_launch_def Let_def manager_GetClient_def sid_def)
  note eff = open_started_effects [OF o, unfolded t(1), OF id]
  have "\<exists>d'. sv_store s' = Some d' \<and> d' (sid @ ''.json'') = Some (File data)"
    if "sv_store s = Some d" "os_io (ev_os E) = io_ok" "os_encode (ev_os E) (session_Metadata (session_of s sess)) = Ret data" for d data
    using persist_writes [of t d E sess data] that t(1,2,4) open_started_store [of E sess ?client args t] o out(2) by simp
  then show thesis using that out eff t(3,5) more by metis
qed

lemma open_launch_fails:
  "os_launch (ev_os E) (se_ID (session_of s sess)) = Err e \<Longrightarrow>
   open_launch E args sess s = (Err (Ctx ''open_binary worker start'' e),
     clearProgress (se_ID (session_of s sess)) (deleteSessionCache (se_ID (session_of s sess))
       (on_registry (registry_Delete (se_ID (session_of s sess))) s)))"
  "os_launch (ev_os E) (se_ID (session_of s sess)) = Panic p \<Longrightarrow> open_launch E args sess s = (Panic p, s)"
  by (simp_all add: open_launch_def workers_Start_cases Let_def)

text \<open>C10: open_binary of a binary that no session has open is all or nothing. When it fails, at the
  limit of sessions or because the worker does not start, the sessions, the path index, the worker
  clients, the caches, the progress, the store and the tools are what they were. When it succeeds,
  the path now finds a new session of the drawn id, that session has a worker client, exactly one
  background load of that session is started, the tools of tier 1 are visible, and the readiness
  gate of the session is closed until the load reports.\<close>

theorem openBinary_all_or_nothing:
  assumes path: "validatePath (ev_host E) (sv_allowedRoots s) ''path'' (ob_Path args) = Ret path"
    and new: "FindByBinaryPath (sv_registry s) path = None"
    and fresh: "fresh_id (dr_id (ev_draw E)) s"
    and run: "openBinary E args s = (r, s')"
  shows "(\<forall>e. r = Err e \<longrightarrow> server_view s' = server_view s) \<and>
    (\<forall>res jobs. r = Ret (res, jobs) \<longrightarrow>
       (\<exists>sess client. FindByBinaryPath (sv_registry s') path = Some sess \<and>
          registry_Get (sv_registry s') (dr_id (ev_draw E)) = Some sess \<and>
          se_ID (session_of s' sess) = dr_id (ev_draw E) \<and>
          client_of (dr_id (ev_draw E)) (sv_workers s') = Some client \<and>
          jobs = [BackgroundOpen sess client path (\<not> ob_SkipAnalysis args)] \<and> 1 \<le> sv_tier s' \<and>
          readinessError (dr_id (ev_draw E)) s' \<noteq> None))"
proof -
  let ?sid = "dr_id (ev_draw E)" and ?reg = "sv_registry s" and ?args = "args\<lparr>ob_Path := path\<rparr>"
  let ?x = "new_session (ev_draw E) path (sv_sessionTimeout s)"
  have none: "rg_sessions ?reg ?sid = None" "rg_binaryIndex ?reg (Clean path) = None" "sv_cache s ?sid = None"
    "sv_progress s ?sid = None" "?sid \<noteq> []"
    using new fresh by (simp_all add: FindByBinaryPath_def fresh_id_def)
  have phases: "and_then (open_begin E ?args) (open_launch E ?args) s = (r, s')"
    using run path new by (simp add: openBinary_def open_new_launch Let_def)
  show ?thesis
  proof (cases "rg_maxSessions ?reg > 0 \<and> int (map_len (rg_sessions ?reg)) \<ge> rg_maxSessions ?reg")
    case True
    then show ?thesis using phases by (auto simp: open_begin_full and_then_def)
  next
    case room: False
    define s1 where "s1 = recordProgress (ev_now E) ?sid ''starting'' ''Starting worker'' 0 4 (s\<lparr>sv_registry := snd (registry_insert ?x ?reg)\<rparr>)"
    have launch: "open_launch E ?args (rg_next ?reg) s1 = (r, s')"
      using phases by (simp add: open_begin_room [OF room] and_then_def s1_def)
    have s1: "session_of s1 (rg_next ?reg) = ?x" "sv_registry s1 = snd (registry_insert ?x ?reg)" "sv_workers s1 = sv_workers s"
      by (simp_all add: s1_def session_of_def insert_simps recordProgress_def)
    note undo = undo_view [of s ?x, simplified new_session_simps, OF none(1-4)]
    show ?thesis
    proof (cases "os_launch (ev_os E) ?sid")
      case (Ret l)
      then have l: "os_launch (ev_os E) (se_ID (session_of s1 (rg_next ?reg))) = Ret l" "se_ID (session_of s1 (rg_next ?reg)) \<noteq> []"
        using none(5) s1(1) by simp_all
      obtain result where
        "r = Ret (result, [BackgroundOpen (rg_next ?reg) (mg_next (sv_workers s)) path (\<not> ob_SkipAnalysis args)])"
        "sv_registry s' = on_session (rg_next ?reg) (\<lambda>x. x\<lparr>se_WorkerPID := lr_PID l\<rparr>) (snd (registry_insert ?x ?reg))"
        "mg_sessions (sv_workers s') = (mg_sessions (sv_workers s))(?sid \<mapsto> mg_next (sv_workers s))"
        "1 \<le> sv_tier s'" "readinessError ?sid s' \<noteq> None"
        by (rule open_launch_effect [OF l launch], rule that) (simp_all add: s1)
      then show ?thesis
        by (simp add: FindByBinaryPath_def registry_Get_def client_of_sessions session_of_def on_session_def insert_simps)
    qed (use launch undo s1(1) in \<open>auto simp: open_launch_fails s1_def\<close>)
  qed
qed

definition demo_launch :: "'db env \<Rightarrow> 'db env" where
  "demo_launch E =
     E\<lparr>ev_draw := \<lparr>dr_id = ''b'', dr_sock = ''s'', dr_now = 2, dr_now' = 2, dr_TempDir = ''/tmp''\<rparr>,
       ev_os := (ev_os E)\<lparr>os_launch := (\<lambda>_. Ret \<lparr>lr_PID = 7, lr_BaseURL = ''http://unix'', lr_Stop = True, lr_Wait = True\<rparr>)\<rparr>\<rparr>"

theorem openBinary_all_or_nothing_witness:
  "\<forall>E (dbs :: nat \<Rightarrow> 'db).
     \<exists>result sess client. fst (openBinary (demo_launch E) \<lparr>ob_Path = ''/y'', ob_SkipAnalysis = True\<rparr> (one_session dbs ''ready'')) =
       Ret (result, [BackgroundOpen sess client ''/y'' False]) \<and>
     readinessError ''b'' (snd (openBinary (demo_launch E) \<lparr>ob_Path = ''/y'', ob_SkipAnalysis = True\<rparr> (one_session dbs ''ready''))) \<noteq> None"
proof (intro allI)
  fix E :: "'db env" and dbs :: "nat \<Rightarrow> 'db"
  let ?args = "\<lparr>ob_Path = ''/y'', ob_SkipAnalysis = True\<rparr> :: OpenBinaryRequest"
  let ?E = "demo_launch E"
  define s where "s = one_session dbs ''ready''"
  have s: "rg_sessions (sv_registry s) = [''a'' \<mapsto> 0]" "rg_binaryIndex (sv_registry s) = [''/x'' \<mapsto> 0]"
    "mg_sessions (sv_workers s) = [''a'' \<mapsto> 0]" "sv_cache s = Map.empty" "sv_allowedRoots s = []"
    "rg_maxSessions (sv_registry s) = 0" "rg_next (sv_registry s) = 1" "mg_next (sv_workers s) = 0"
    by (simp_all add: s_def one_session_simps) (simp_all add: one_session_def recordProgress_def New_def NewManager_def)
  have p: "sv_progress s ''b'' = None" by (simp add: s_def one_session_def recordProgress_def New_def)
  have clean: "Clean ''/y'' = ''/y''" by code_simp
  have E: "dr_id (ev_draw ?E) = ''b''" "os_launch (ev_os ?E) x = Ret \<lparr>lr_PID = 7, lr_BaseURL = ''http://unix'', lr_Stop = True, lr_Wait = True\<rparr>" for x
    by (simp_all add: demo_launch_def)
  obtain r s' where run: "openBinary ?E ?args s = (r, s')" by (rule prod.exhaust)
  have "(\<forall>e. r = Err e \<longrightarrow> server_view s' = server_view s) \<and>
    (\<forall>res jobs. r = Ret (res, jobs) \<longrightarrow>
       (\<exists>sess client. FindByBinaryPath (sv_registry s') ''/y'' = Some sess \<and>
          registry_Get (sv_registry s') (dr_id (ev_draw ?E)) = Some sess \<and>
          se_ID (session_of s' sess) = dr_id (ev_draw ?E) \<and>
          client_of (dr_id (ev_draw ?E)) (sv_workers s') = Some client \<and>
          jobs = [BackgroundOpen sess client ''/y'' (\<not> ob_SkipAnalysis ?args)] \<and> 1 \<le> sv_tier s' \<and>
          readinessError (dr_id (ev_draw ?E)) s' \<noteq> None))"
  proof (rule openBinary_all_or_nothing [OF _ _ _ run])
    show "validatePath (ev_host ?E) (sv_allowedRoots s) ''path'' (ob_Path ?args) = Ret ''/y''"
      by (simp add: validatePath_def s)
    show "FindByBinaryPath (sv_registry s) ''/y'' = None" by (simp add: FindByBinaryPath_def clean s)
    show "fresh_id (dr_id (ev_draw ?E)) s" by (simp add: fresh_id_def E s p)
  qed
  moreover have "\<exists>res jobs. r = Ret (res, jobs)"
    using run
    by (simp add: openBinary_def open_new_def validatePath_def s FindByBinaryPath_def clean Create_new Let_def workers_Start_cases E
        manager_Start_client manager_GetClient_def session_of_on_registry session_of_def insert_simps on_registry_def
        split: prod.splits) auto
  ultimately show "\<exists>result sess client. fst (openBinary ?E ?args (one_session dbs ''ready'')) =
       Ret (result, [BackgroundOpen sess client ''/y'' False]) \<and>
     readinessError ''b'' (snd (openBinary ?E ?args (one_session dbs ''ready''))) \<noteq> None"
    using run by (auto simp: s_def E)
qed

section \<open>Opening again after a failed load\<close>

text \<open>C40: a failed load is not repaired by opening the binary again, although get_session_progress
  tells the client to do so. While the session stays registered, open_binary of its path finds it and
  reports it as reused: no worker and no background load is started, the registry, the workers and
  the failed stage stay as they were, and the readiness gate stays closed.\<close>

theorem reopen_keeps_failure:
  assumes path: "validatePath (ev_host E) (sv_allowedRoots s) ''path'' (ob_Path args) = Ret path"
    and found: "FindByBinaryPath (sv_registry s) path = Some sess"
    and failed: "getProgress (se_ID (session_of s sess)) s = Some p" "pg_Stage p = ''failed''"
  shows "next_step (progress_ready running auto (pg_Stage p)) (pg_Stage p) = ''re-open with open_binary or check the path'' \<and>
    (\<exists>result s'. openBinary E args s = (Ret (result, []), s') \<and>
       sv_registry s' = sv_registry s \<and> sv_workers s' = sv_workers s \<and>
       getProgress (se_ID (session_of s sess)) s' = Some p \<and> readinessError (se_ID (session_of s sess)) s' \<noteq> None)"
proof -
  obtain result s1 where r: "enrichSessionResult E (se_ID (session_of s sess))
      [(''session_id'', JString (se_ID (session_of s sess))), (''binary_path'', JString (se_BinaryPath (session_of s sess))),
       (''created_at'', JInt (unix (se_CreatedAt (session_of s sess)))), (''reused'', JBool True)] s = (result, s1)"
    by (rule prod.exhaust)
  have s1: "sv_registry s1 = sv_registry s" "sv_workers s1 = sv_workers s" "sv_progress s1 = sv_progress s"
    using enrich_step [OF r] by auto
  have "getProgress (se_ID (session_of s sess)) (promoteToTier 1 s1) = Some p" using failed(1) s1(3) by (simp add: getProgress_def)
  moreover have "readinessError (se_ID (session_of s sess)) (promoteToTier 1 s1) \<noteq> None"
    using calculation failed(2) by (simp add: readinessError_None)
  moreover have "openBinary E args s = (Ret (JsonContent (JObject result), []), promoteToTier 1 s1)"
    by (simp add: openBinary_def open_new_def path found open_reused_def Let_def r)
  ultimately show ?thesis
    using failed s1 by (simp add: next_step_def progress_ready_def getProgress_def)
qed

theorem reopen_keeps_failure_witness:
  "\<forall>E (dbs :: nat \<Rightarrow> 'db). \<exists>result s'.
     openBinary E \<lparr>ob_Path = ''/x'', ob_SkipAnalysis = False\<rparr> (one_session dbs ''failed'') = (Ret (result, []), s') \<and>
     readinessError ''a'' s' \<noteq> None"
proof (intro allI)
  fix E :: "'db env" and dbs :: "nat \<Rightarrow> 'db"
  have clean: "Clean ''/x'' = ''/x''" by code_simp
  have p: "getProgress (se_ID (session_of (one_session dbs ''failed'') 0)) (one_session dbs ''failed'') =
      Some \<lparr>pg_Stage = ''failed'', pg_Message = ''working'', pg_Progress = 1, pg_Total = 4, pg_UpdatedAt = 1\<rparr>"
    by (simp add: one_session_simps)
  have v: "validatePath (ev_host E) (sv_allowedRoots (one_session dbs ''failed'')) ''path'' (ob_Path \<lparr>ob_Path = ''/x'', ob_SkipAnalysis = False\<rparr>) = Ret ''/x''"
    by (simp add: validatePath_def) (simp add: one_session_def recordProgress_def New_def)
  have f: "FindByBinaryPath (sv_registry (one_session dbs ''failed'')) ''/x'' = Some 0"
    by (simp add: FindByBinaryPath_def clean one_session_simps)
  show "\<exists>result s'. openBinary E \<lparr>ob_Path = ''/x'', ob_SkipAnalysis = False\<rparr> (one_session dbs ''failed'') = (Ret (result, []), s') \<and>
     readinessError ''a'' s' \<noteq> None"
    using reopen_keeps_failure [OF v f p, of False False] by (auto simp: one_session_simps)
qed

end
