(* ===== verification/ToolTable.thy ===== *)
theory ToolTable
  imports Keeping Opening
begin

text \<open>
  The table of tools (registerTier0 and its siblings in internal/server/server.go) with the wrapper
  that caches long outputs (addToolWithCache of output_cache.go), and the steps of the whole server:
  requests, background jobs, ends of requests, the watchdog and the restore at the start.
\<close>

section \<open>The tools\<close>

datatype tool_call =
    OpenBinary OpenBinaryRequest
  | ListSessions
  | GetCachedOutput GetCachedOutputRequest
  | CloseBinary CloseBinaryRequest
  | SaveDatabase SaveDatabaseRequest
  | SurveyBinary SurveyBinaryRequest
  | AnalyzeFunction AnalyzeFunctionRequest
  | AnalyzeFunctions AnalyzeFunctionsRequest
  | SetAnalysisNote SetAnalysisNoteRequest
  | GetAnalysisContext GetAnalysisContextRequest
  | PruneContext PruneContextRequest
  | ReadMemory ReadMemoryRequest
  | GetDisasm GetDisasmRequest
  | Query QueryRequest
  | GetReferences GetReferencesRequest
  | Search SearchRequest
  | Inspect InspectRequest
  | CrossReference CrossReferenceRequest
  | CrossSearch CrossSearchRequest
  | RunAutoAnalysis RunAutoAnalysisRequest
  | WatchAutoAnalysis WatchAutoAnalysisRequest
  | GetSessionProgress GetSessionProgressRequest
  | PyEval PyEvalRequest
  | AnnotateFunction AnnotateFunctionRequest
  | SetMetadata SetMetadataRequest
  | SetType SetTypeRequest
  | MakeFunction MakeFunctionRequest
  | ImportMetadata ImportMetadataRequest

fun tool_name :: "tool_call \<Rightarrow> string" where
  "tool_name (OpenBinary _) = ''open_binary''"
| "tool_name ListSessions = ''list_sessions''"
| "tool_name (GetCachedOutput _) = ''get_cached_output''"
| "tool_name (CloseBinary _) = ''close_binary''"
| "tool_name (SaveDatabase _) = ''save_database''"
| "tool_name (SurveyBinary _) = ''survey_binary''"
| "tool_name (AnalyzeFunction _) = ''analyze_function''"
| "tool_name (AnalyzeFunctions _) = ''analyze_functions''"
| "tool_name (SetAnalysisNote _) = ''set_analysis_note''"
| "tool_name (GetAnalysisContext _) = ''get_analysis_context''"
| "tool_name (PruneContext _) = ''prune_context''"
| "tool_name (ReadMemory _) = ''read_memory''"
| "tool_name (GetDisasm _) = ''get_disasm''"
| "tool_name (Query _) = ''query''"
| "tool_name (GetReferences _) = ''get_references''"
| "tool_name (Search _) = ''search''"
| "tool_name (Inspect _) = ''inspect''"
| "tool_name (CrossReference _) = ''cross_reference''"
| "tool_name (CrossSearch _) = ''cross_search''"
| "tool_name (RunAutoAnalysis _) = ''run_auto_analysis''"
| "tool_name (WatchAutoAnalysis _) = ''watch_auto_analysis''"
| "tool_name (GetSessionProgress _) = ''get_session_progress''"
| "tool_name (PyEval _) = ''py_eval''"
| "tool_name (AnnotateFunction _) = ''annotate_function''"
| "tool_name (SetMetadata _) = ''set_metadata''"
| "tool_name (SetType _) = ''set_type''"
| "tool_name (MakeFunction _) = ''make_function''"
| "tool_name (ImportMetadata _) = ''import_metadata''"

text \<open>A handler that starts no goroutine.\<close>

definition plain :: "('db server, tool_result) step \<Rightarrow> ('db server, tool_result \<times> background list) step" where
  "plain m = and_then m (\<lambda>r. ret (r, []))"

text \<open>The handler of a tool. \<open>turns\<close> are the turns of the loop of watch_auto_analysis.\<close>

definition handler ::
  "'db env \<Rightarrow> 'db wait_env \<Rightarrow> (int \<times> rat) list \<Rightarrow> tool_call \<Rightarrow> ('db server, tool_result \<times> background list) step" where
  "handler E W turns c =
     (case c of
        OpenBinary a \<Rightarrow> openBinary E a
      | ListSessions \<Rightarrow> plain (listSessions E)
      | GetCachedOutput a \<Rightarrow> plain (\<lambda>s. (getCachedOutput (ev_now E) a (sv_outputs s), s))
      | CloseBinary a \<Rightarrow> plain (closeBinary E a)
      | SaveDatabase a \<Rightarrow> plain (saveDatabase E a)
      | SurveyBinary a \<Rightarrow> plain (surveyBinary E W a)
      | AnalyzeFunction a \<Rightarrow> plain (analyzeFunction E W a)
      | AnalyzeFunctions a \<Rightarrow> plain (analyzeFunctions E W a)
      | SetAnalysisNote a \<Rightarrow> plain (setAnalysisNote E a)
      | GetAnalysisContext a \<Rightarrow> plain (getAnalysisContext E a)
      | PruneContext a \<Rightarrow> plain (pruneContext E a)
      | ReadMemory a \<Rightarrow> plain (readMemory E W a)
      | GetDisasm a \<Rightarrow> plain (getDisasm E W a)
      | Query a \<Rightarrow> plain (query E W a)
      | GetReferences a \<Rightarrow> plain (getReferences E W a)
      | Search a \<Rightarrow> plain (search E W a)
      | Inspect a \<Rightarrow> plain (inspect E W a)
      | CrossReference a \<Rightarrow> plain (crossReference E W a)
      | CrossSearch a \<Rightarrow> plain (crossSearch E W a)
      | RunAutoAnalysis a \<Rightarrow> runAutoAnalysis E a
      | WatchAutoAnalysis a \<Rightarrow> plain (watchAutoAnalysis E (we_token W) turns a)
      | GetSessionProgress a \<Rightarrow> plain (getSessionProgress E a)
      | PyEval a \<Rightarrow> plain (pyEval E W a)
      | AnnotateFunction a \<Rightarrow> plain (annotateFunction E W a)
      | SetMetadata a \<Rightarrow> plain (setMetadata E W a)
      | SetType a \<Rightarrow> plain (setType E W a)
      | MakeFunction a \<Rightarrow> plain (makeFunction E W a)
      | ImportMetadata a \<Rightarrow> plain (importMetadata E W a))"

section \<open>addToolWithCache\<close>

text \<open>json.Unmarshal of a text into a map; \<open>null\<close> leaves it empty.\<close>

definition parse_object :: "'db env \<Rightarrow> string \<Rightarrow> (string \<times> json) list option" where
  "parse_object E t =
     (case ev_unmarshal E t of Inl _ \<Rightarrow> None | Inr None \<Rightarrow> Some [] | Inr (Some obj) \<Rightarrow> Some obj)"

text \<open>An error of the handler passes; a result goes through maybeCacheResult under the name of the
  tool. get_cached_output is registered without the wrapper.\<close>

definition addToolWithCache ::
  "'db env \<Rightarrow> string \<Rightarrow> ('db server, tool_result \<times> 'j) step \<Rightarrow> ('db server, tool_result \<times> 'j) step" where
  "addToolWithCache E name m =
     and_then m (\<lambda>(result, jobs) s.
       let (result, out) = maybeCacheResult (ev_marshal E) (parse_object E) (ev_cacheID E) (ev_now E) name result (sv_outputs s)
       in (Ret (result, jobs), s\<lparr>sv_outputs := out\<rparr>))"

definition serve ::
  "'db env \<Rightarrow> 'db wait_env \<Rightarrow> (int \<times> rat) list \<Rightarrow> tool_call \<Rightarrow> ('db server, tool_result \<times> background list) step" where
  "serve E W turns c =
     (if tool_name c = ''get_cached_output'' then handler E W turns c
      else addToolWithCache E (tool_name c) (handler E W turns c))"

section \<open>The steps of the server\<close>

definition run_background :: "'db env \<Rightarrow> background \<Rightarrow> 'db server \<Rightarrow> 'db server" where
  "run_background E j s =
     (case j of
        BackgroundOpen sess client path auto \<Rightarrow> backgroundOpen E sess client path auto None s
      | BackgroundAnalysis sess client \<Rightarrow> snd (analysis_job E sess client s))"

text \<open>What a random draw gives: a session id that is not registered, a cache id that is not in
  use when the output is stored.\<close>

definition fresh_draws :: "'db env \<Rightarrow> 'db wait_env \<Rightarrow> (int \<times> rat) list \<Rightarrow> tool_call \<Rightarrow> 'db server \<Rightarrow> bool" where
  "fresh_draws E W turns c s \<longleftrightarrow>
     rg_sessions (sv_registry s) (dr_id (ev_draw E)) = None \<and>
     ev_cacheID E \<notin> dom (os_entries (sv_outputs (snd (handler E W turns c s))))"

text \<open>A tool is served when it is registered; while it waits for a session, other steps run.\<close>

inductive server_step :: "'db server \<Rightarrow> 'db server \<Rightarrow> bool" where
  step_tool: "tool_name c \<in> set (sv_tools s) \<Longrightarrow> fresh_draws E W turns c s \<Longrightarrow>
    (\<And>t s1. t \<in> set (we_ticks W) \<Longrightarrow> server_step\<^sup>*\<^sup>* s1 (t s1)) \<Longrightarrow>
    serve E W turns c s = (r, s') \<Longrightarrow> server_step s s'"
| step_background: "server_step s (run_background E j s)"
| step_request_ends: "server_step s (end_request now s)"
| step_watchdog: "server_step s (Watchdog E s)"
| step_restore: "server_step s (snd (RestoreSessions E s))"

text \<open>A server that is up: the sessions of the store are restored before it serves, and what requests
  meet outside satisfies \<open>ok\<close>.\<close>

inductive serving_step :: "('db env \<Rightarrow> bool) \<Rightarrow> 'db server \<Rightarrow> 'db server \<Rightarrow> bool" for ok :: "'db env \<Rightarrow> bool" where
  serves_tool: "ok E \<Longrightarrow> tool_name c \<in> set (sv_tools s) \<Longrightarrow> fresh_draws E W turns c s \<Longrightarrow>
    (\<And>t s1. t \<in> set (we_ticks W) \<Longrightarrow> (serving_step ok)\<^sup>*\<^sup>* s1 (t s1)) \<Longrightarrow>
    serve E W turns c s = (r, s') \<Longrightarrow> serving_step ok s s'"
| serves_background: "serving_step ok s (run_background E j s)"
| serves_request_ends: "serving_step ok s (end_request now s)"
| serves_watchdog: "serving_step ok s (Watchdog E s)"

end
