(* ===== verification/Serving.thy ===== *)
theory Serving
  imports ToolTable
begin

text \<open>
  What it takes for an invariant to hold of the whole server: the contract with the operations on
  sessions, workers and the store, over the one of the tools (Keeping), and the steps of the server,
  each proved once against it. The providers are in Tools, Confined and Exposure.
\<close>

lemma outputs_inv_maybe:
  "outputs_inv out \<Longrightarrow> cid \<notin> dom (os_entries out) \<Longrightarrow>
   outputs_inv (snd (maybeCacheResult marshal unmarshal cid now name r out))"
  by (auto simp: maybeCacheResult_def Let_def outputs_inv_put split: option.splits)

text \<open>\<open>path_ok\<close> is what the invariant wants of the path of a new session, \<open>env_ok\<close> what it needs of the
  outside for a validated path to be such a path.\<close>

locale serving = tool_state I for I :: "'db server \<Rightarrow> bool" +
  fixes env_ok :: "'db env \<Rightarrow> bool" and path_ok :: "string \<Rightarrow> bool"
  assumes unregister: "I s \<Longrightarrow> I (on_registry (registry_Delete sid) s)"
    and drop_cache: "I s \<Longrightarrow> I (deleteSessionCache sid s)"
    and clear_progress: "I s \<Longrightarrow> I (clearProgress sid s)"
    and delete_state: "I s \<Longrightarrow> I (deleteSessionState E sid s)"
    and persist: "I s \<Longrightarrow> I (persistSession E sess s)"
    and stop: "I s \<Longrightarrow> I (snd (workers_Stop E sid s))"
    and demote: "I s \<Longrightarrow> I (demoteToTier0 s)"
    and leases: "I s \<Longrightarrow> I (s\<lparr>sv_leases := ls\<rparr>)"
    and session: "I s \<Longrightarrow> (\<And>x. se_ID (f x) = se_ID x \<and> se_BinaryPath (f x) = se_BinaryPath x) \<Longrightarrow>
      I (on_registry (on_session sess f) s)"
    and launched: "I s \<Longrightarrow> path_ok path \<Longrightarrow>
      I (s\<lparr>sv_workers := fst (snd (manager_Start (Ret result) path (sv_workers s, sess0)))\<rparr>)"
    and created: "I s \<Longrightarrow> path_ok path \<Longrightarrow> rg_sessions (sv_registry s) (dr_id d) = None \<Longrightarrow>
      I (s\<lparr>sv_registry := snd (registry_Create d path timeout (sv_registry s))\<rparr>)"
    and restored: "I s \<Longrightarrow> path_ok (md_BinaryPath meta) \<Longrightarrow>
      I (s\<lparr>sv_registry := snd (registry_Restore d meta (sv_registry s))\<rparr>)"
    and validated: "I s \<Longrightarrow> env_ok E \<Longrightarrow> validatePath (ev_host E) (sv_allowedRoots s) ''path'' p = Ret q \<Longrightarrow> path_ok q"
begin

section \<open>Sessions, leases and analyses\<close>

lemma keeps_acquire: "I s \<Longrightarrow> I (acquire sess s)"
  unfolding acquire_def by (rule session) (simp_all add: session_ops_keep_key)

lemma keeps_release: "I s \<Longrightarrow> I (release now sess s)"
  unfolding release_def by (rule session) (simp_all add: session_ops_keep_key)

lemma keeps_end_analysis: "I s \<Longrightarrow> I (end_analysis sess s)"
  unfolding end_analysis_def by (rule session) (simp_all add: session_ops_keep_key)

lemma keeps_claim: "I s \<Longrightarrow> I (snd (claim_analysis sess s))"
proof -
  have "snd (claim_analysis sess s) = on_registry (on_session sess (\<lambda>x. snd (TryBeginAnalysis x))) s"
    by (simp add: claim_analysis_def case_prod_unfold Let_def on_registry_def on_session_def session_of_def)
  then show "I s \<Longrightarrow> ?thesis" using session [of s "\<lambda>x. snd (TryBeginAnalysis x)" sess] by (simp add: session_ops_keep_key)
qed

lemma keeps_claim_eq: "I s \<Longrightarrow> claim_analysis sess s = (b, s') \<Longrightarrow> I s'"
  using keeps_claim [of s sess] by simp

lemma keeps_Start: "I s \<Longrightarrow> path_ok path \<Longrightarrow> workers_Start E sess path s = (r, s') \<Longrightarrow> I s'"
  by (auto simp: workers_Start_cases intro!: session launched split: go.splits)

lemma keeps_enrich: "I s \<Longrightarrow> enrichSessionResult E sid result s = (res, s') \<Longrightarrow> I s'"
  using enrich_step [of E sid result s res s'] db by auto

section \<open>Opening and closing\<close>

lemma keeps_open_reused: "I s \<Longrightarrow> I (snd (open_reused E existing s))"
  by (auto simp: open_reused_def Let_def split: prod.splits intro: promote keeps_enrich)

lemma keeps_open_started: "I s \<Longrightarrow> I (snd (open_started E sess client args s))"
  by (auto simp: open_started_def Let_def split: prod.splits elim!: keeps_enrich [rotated] intro!: progress promote persist)

lemma keeps_open_started_eq: "open_started E sess client args s = (out, s') \<Longrightarrow> I s \<Longrightarrow> I s'"
  using keeps_open_started [of s E sess client args] by simp

lemma keeps_undo: "I s \<Longrightarrow> I (clearProgress sid (deleteSessionCache sid (on_registry (registry_Delete sid) s)))"
  by (intro unregister drop_cache clear_progress)

lemma keeps_drop: "I s \<Longrightarrow> I (deleteSessionCache sid (deleteSessionState E sid (on_registry (registry_Delete sid) s)))"
  by (intro unregister drop_cache delete_state)

lemma keeps_open_new:
  assumes s: "I s" and path: "path_ok (ob_Path args)" and new: "rg_sessions (sv_registry s) (dr_id (ev_draw E)) = None"
  shows "I (snd (open_new E args s))"
proof -
  obtain r reg where c: "registry_Create (ev_draw E) (ob_Path args) (sv_sessionTimeout s) (sv_registry s) = (r, reg)"
    by (rule prod.exhaust)
  have reg: "I (s\<lparr>sv_registry := reg\<rparr>)" using created [OF s path new] c by (metis snd_conv)
  show ?thesis
  proof (cases r)
    case (Ret sess)
    define s1 where "s1 = recordProgress (ev_now E) (se_ID (session_of (s\<lparr>sv_registry := reg\<rparr>) sess)) ''starting''
        ''Starting worker'' 0 4 (s\<lparr>sv_registry := reg\<rparr>)"
    obtain w s2 where w: "workers_Start E sess (ob_Path args) s1 = (w, s2)" by (rule prod.exhaust)
    have s2: "I s2" using keeps_Start [OF progress [OF reg] path w [unfolded s1_def]] .
    show ?thesis
      using Ret c w s2
      by (auto simp: open_new_def Let_def s1_def [symmetric] keeps_undo stop dest: keeps_open_started_eq split: go.splits prod.splits)
  qed (use reg c in \<open>simp_all add: open_new_def\<close>)
qed

lemma keeps_openBinary:
  assumes "I s" and "env_ok E" and "rg_sessions (sv_registry s) (dr_id (ev_draw E)) = None"
  shows "I (snd (openBinary E args s))"
  using assms keeps_open_reused [OF assms(1), of E] keeps_open_new [OF assms(1) _ assms(3)] validated [OF assms(1,2)]
  by (auto simp: openBinary_def Let_def case_prod_unfold split: go.split option.split)

lemma keeps_closeBinary: "I s \<Longrightarrow> I (snd (closeBinary E args s))"
proof -
  assume s: "I s"
  have drop: "I (clearProgress sid (deleteSessionCache sid (deleteSessionState E sid (on_registry (registry_Delete sid) s'))))"
    if "I s'" for sid s'
    using that by (intro clear_progress keeps_drop)
  show ?thesis
    using s stop [OF s, of E]
    by (auto simp: closeBinary_def and_then_def Let_def case_prod_unfold intro!: drop demote
        dest: resolveSession_Ret split: prod.splits go.splits)
qed

section \<open>Session tools and background work\<close>

lemma keeps_session_tools:
  "keeps I (listSessions E)" "keeps I (saveDatabase E a2)" "keeps I (getSessionProgress E a3)"
proof -
  show "keeps I (listSessions E)" by (simp add: keeps_def listSessions_def)
  show "keeps I (saveDatabase E a2)"
    unfolding saveDatabase_def by (auto intro!: keeps_intros keeps_resolveClient keeps_call split: sum.splits prod.splits)
  have auto': "I (snd (auto_status E sess stage s))" if "I s" for sess stage s
    using that by (auto simp: auto_status_def Let_def call_cases intro: db split: go.splits prod.splits sum.splits)
  show "keeps I (getSessionProgress E a3)"
    by (rule keepsI) (auto simp: getSessionProgress_def Let_def case_prod_unfold
        intro!: and_then_keeps keeps_resolveSession auto' touch)
qed

lemma keeps_analysis_job: "I s \<Longrightarrow> I (snd (analysis_job E sess client s))"
proof -
  assume s: "I s"
  obtain res s1 where e: "executeAnalysisWithHeartbeat E sess client s = (res, s1)" by (rule prod.exhaust)
  have s1: "I s1" using keeps_executeAnalysis [OF s, of E sess client] e by simp
  then show ?thesis
    using e by (auto simp: analysis_job_def analysis_done_def Let_def intro!: drop_cache keeps_release keeps_end_analysis progress)
qed

lemma keeps_open_analyze: "I s \<Longrightarrow> I (snd (open_analyze E sess client s))"
  using keeps_executeAnalysis [of s E sess client]
  by (auto simp: open_analyze_def Let_def case_prod_unfold intro: keeps_end_analysis)

lemma keeps_backgroundOpen: "I s \<Longrightarrow> I (backgroundOpen E sess client path auto p s)"
proof -
  assume s: "I s"
  obtain b s1 where l: "open_load E sess client path (acquire sess s) = (b, s1)" by (rule prod.exhaust)
  have s1: "I s1" using keeps_open_load [OF keeps_acquire [OF s], of E sess client path sess] l by simp
  have fin: "I (open_finish E sess a w p s2)" if "I s2" for a w s2
    using that by (intro keeps_open_finish keeps_warmSessionCache)
  have "I (snd (open_analyze E sess client (snd (claim_analysis sess s1))))" by (intro keeps_open_analyze keeps_claim s1)
  then show ?thesis
    using l s1 keeps_claim [OF s1, of sess]
    by (auto simp: backgroundOpen_def Let_def case_prod_unfold intro!: keeps_release fin)
qed

lemma keeps_runAutoAnalysis: "keeps I (runAutoAnalysis E args)"
proof -
  have b: "I (snd (beginBackgroundAnalysis sess client s))" if "I s" for sess client s
    using keeps_claim [OF that, of sess]
    by (auto simp: beginBackgroundAnalysis_def Let_def case_prod_unfold intro: keeps_acquire)
  have "I (snd (case beginBackgroundAnalysis sess client s of
         (None, s) \<Rightarrow> (Ret (JsonContent (analysis_pending sid False), []), s)
       | (Some job, s) \<Rightarrow>
           if sch_done (ev_sched E) then (Ret (JsonContent (analysis_pending sid True), [job]), s)
           else let (res, s) = analysis_job E sess client s in (Ret (JsonContent (analysis_report sid res), []), s)))"
    if "I s" for sess client s sid
    using b [OF that, of sess client] keeps_analysis_job by (auto simp: Let_def case_prod_unfold split: option.splits)
  then show ?thesis
    by (intro keepsI) (auto simp: runAutoAnalysis_def Let_def intro!: and_then_keeps keeps_resolveClientDuringLoad split: prod.splits)
qed

lemma keeps_watch_loop: "I s \<Longrightarrow> I (snd (watch_loop E sess client p turns updates s))"
proof (induction turns arbitrary: updates s)
  case (Cons turn turns)
  obtain now elapsed where turn: "turn = (now, elapsed)" by (rule prod.exhaust)
  obtain r s1 where r: "call (w_GetSessionInfo (wa_session (ev_worker E))) () client s = (r, s1)" by (rule prod.exhaust)
  have "I s1" using keeps_call_eq [OF r Cons.prems] .
  then show ?case
    using r by (auto simp: turn Let_def split: go.splits intro!: Cons.IH keeps_emitProgress)
qed simp

lemma keeps_watch: "keeps I (watchAutoAnalysis E token turns args)"
  by (intro keepsI) (auto simp: watchAutoAnalysis_def Let_def
      intro!: and_then_keeps keeps_resolveClientDuringLoad keeps_watch_loop split: prod.splits)

section \<open>Requests\<close>

lemma keeps_plain: "keeps I m \<Longrightarrow> keeps I (plain m)"
  unfolding plain_def by (auto intro!: keeps_intros)

lemma keeps_handler:
  assumes "quiet I W" and "I s" and "env_ok E" and "rg_sessions (sv_registry s) (dr_id (ev_draw E)) = None"
  shows "I (snd (handler E W turns c s))"
proof (cases "\<exists>a. c = OpenBinary a")
  case True
  then show ?thesis using keeps_openBinary [OF assms(2-4)] by (auto simp: handler_def)
next
  case False
  have "keeps I (closeBinary E a)" for a by (simp add: keeps_def keeps_closeBinary)
  moreover have "keeps I (plain (\<lambda>s. (getCachedOutput (ev_now E) a (sv_outputs s), s)))" for a
    by (rule keeps_plain) (simp add: keeps_def)
  ultimately have "keeps I (handler E W turns c)"
    using False assms(1)
    by (cases c) (simp_all add: handler_def keeps_plain keeps_session_tools keeps_surveyBinary
        keeps_analyzeFunction keeps_analyzeFunctions keeps_context_tools keeps_readMemory
        keeps_one_call keeps_dispatch keeps_inspect keeps_crossReference keeps_crossSearch
        keeps_runAutoAnalysis keeps_watch keeps_annotate_eval keeps_writes)
  then show ?thesis using assms(2) by (simp add: keeps_def)
qed

lemma keeps_cached:
  assumes "I (snd (m s))" and "ev_cacheID E \<notin> dom (os_entries (sv_outputs (snd (m s))))"
  shows "I (snd (addToolWithCache E name m s))"
proof -
  obtain r s1 where r: "m s = (r, s1)" by (rule prod.exhaust)
  have "outputs_inv (sv_outputs s1) \<Longrightarrow>
      outputs_inv (snd (maybeCacheResult (ev_marshal E) (parse_object E) (ev_cacheID E) (ev_now E) name x (sv_outputs s1)))" for x
    using assms(2) r by (intro outputs_inv_maybe) simp_all
  then show ?thesis
    using assms(1) r
    by (auto simp: addToolWithCache_def and_then_def Let_def case_prod_unfold intro!: outputs split: go.splits)
qed

lemma keeps_serve:
  assumes "quiet I W" and "I s" and "env_ok E" and "fresh_draws E W turns c s"
  shows "I (snd (serve E W turns c s))"
  using keeps_handler [OF assms(1-3), of turns c] assms(4) by (auto simp: serve_def fresh_draws_def intro: keeps_cached)

section \<open>Watchdog, restore, end of a request\<close>

lemma keeps_cleanup: "I s \<Longrightarrow> I (snd (cleanupExpiredSessions E expired s))"
proof (induction expired arbitrary: s)
  case (Cons r expired)
  have "I (clearProgress sid (deleteSessionCache sid (deleteSessionState E sid (on_registry (registry_Delete sid) s'))))"
    if "I s'" for sid s'
    using that by (intro clear_progress keeps_drop)
  from this [OF stop [OF Cons.prems, of E]] Cons show ?case by (simp add: Let_def case_prod_unfold)
qed simp

lemma keeps_Watchdog: "I s \<Longrightarrow> I (Watchdog E s)"
  using keeps_cleanup [of s E] demote by (auto simp: Watchdog_def case_prod_unfold Let_def)

lemma keeps_restore_one: "I s \<Longrightarrow> path_ok (md_BinaryPath m) \<Longrightarrow> I (snd (restore_one E m s))"
proof -
  assume s: "I s" and path: "path_ok (md_BinaryPath m)"
  obtain r reg where c: "registry_Restore (os_draw (ev_os E) (md_ID m)) m (sv_registry s) = (r, reg)" by (rule prod.exhaust)
  have reg: "I (s\<lparr>sv_registry := reg\<rparr>)" using restored [OF s path] c by (metis snd_conv)
  show ?thesis
    using s reg c
    by (auto simp: restore_one_def Let_def intro!: delete_state keeps_drop stop progress
        dest: keeps_Start [OF reg path] split: go.splits prod.splits)
qed

lemma keeps_restore_all: "I s \<Longrightarrow> (\<And>m. m \<in> set metas \<Longrightarrow> path_ok (md_BinaryPath m)) \<Longrightarrow> I (snd (restore_all E metas s))"
  by (induction metas arbitrary: s) (simp_all add: Let_def case_prod_unfold keeps_restore_one)

lemma keeps_RestoreSessions:
  assumes "I s"
    and "\<And>d metas m. sv_store s = Some d \<Longrightarrow>
      store_Load (os_decode (ev_os E)) (os_io (ev_os E)) (os_listing (ev_os E)) d = Ret metas \<Longrightarrow>
      m \<in> set metas \<Longrightarrow> path_ok (md_BinaryPath m)"
  shows "I (snd (RestoreSessions E s))"
  using assms by (auto simp: RestoreSessions_def intro!: keeps_restore_all split: option.splits go.splits)

lemma keeps_end_request: "I s \<Longrightarrow> I (end_request now s)"
proof -
  assume s: "I s"
  have "I (fold (\<lambda>sess. on_registry (on_session sess (ReleaseInFlight now))) ls s')" if "I s'" for ls s'
    using that by (induction ls arbitrary: s') (simp_all add: session session_ops_keep_key)
  from leases [OF this [OF s]] show ?thesis by (simp add: end_request_def)
qed

lemma keeps_background: "I s \<Longrightarrow> I (run_background E j s)"
  by (simp add: run_background_def keeps_backgroundOpen keeps_analysis_job split: background.split)

section \<open>Steps\<close>

lemma quiet_if_closed:
  assumes "\<And>t s. t \<in> set (we_ticks W) \<Longrightarrow> (\<lambda>x y. R x y \<and> (I x \<longrightarrow> I y))\<^sup>*\<^sup>* s (t s)"
  shows "quiet I W"
proof -
  have "I (t s)" if "t \<in> set (we_ticks W)" "I s" for t s
    using assms [OF that(1), of s] by (induction rule: rtranclp_induct) (use that(2) in auto)
  then show ?thesis by (simp add: quiet_def)
qed

lemma keeps_serving_step: "serving_step env_ok s s' \<Longrightarrow> I s \<Longrightarrow> I s'"
proof (induction rule: serving_step.induct)
  case (serves_tool E c s W turns r s')
  have "quiet I W" by (rule quiet_if_closed) (rule serves_tool.IH)
  from keeps_serve [OF this serves_tool.prems serves_tool.hyps(1,3)] serves_tool.hyps(4) show ?case by simp
qed (simp_all add: keeps_background keeps_end_request keeps_Watchdog)

lemma keeps_serving: "(serving_step env_ok)\<^sup>*\<^sup>* s0 s \<Longrightarrow> I s0 \<Longrightarrow> I s"
  by (induction rule: rtranclp_induct) (auto intro: keeps_serving_step)

end

end
