(* ===== verification/Tools.thy ===== *)
theory Tools
  imports Serving
begin

text \<open>
  The invariant of the whole server, in every state it reaches: the registry, the visible tools, the
  truncated outputs and the session caches. It satisfies the contract of Serving.
\<close>

section \<open>The invariant\<close>

definition caches_ok :: "'db server \<Rightarrow> bool" where
  "caches_ok s \<longleftrightarrow> (\<forall>sid c. sv_cache s sid = Some c \<longrightarrow> cache_inv c)"

definition server_inv :: "bool \<Rightarrow> 'db server \<Rightarrow> bool" where
  "server_inv py s \<longleftrightarrow> registry_inv (sv_registry s) \<and> tools_ok s \<and> outputs_inv (sv_outputs s) \<and> caches_ok s \<and>
     sv_enablePyEval s = py"

lemma tools_ok_same:
  "sv_tools s' = sv_tools s \<Longrightarrow> sv_tier s' = sv_tier s \<Longrightarrow> sv_enablePyEval s' = sv_enablePyEval s \<Longrightarrow> tools_ok s' = tools_ok s"
  by (simp add: tools_ok_def tier1Tools_def)

lemma server_inv_same:
  "server_inv py s \<Longrightarrow> sv_tools s' = sv_tools s \<Longrightarrow> sv_tier s' = sv_tier s \<Longrightarrow> sv_enablePyEval s' = sv_enablePyEval s \<Longrightarrow>
   registry_inv (sv_registry s') \<Longrightarrow> outputs_inv (sv_outputs s') \<Longrightarrow> caches_ok s' \<Longrightarrow> server_inv py s'"
  using tools_ok_same [of s' s] by (simp add: server_inv_def)

lemma enablePyEval_same [simp]:
  "sv_enablePyEval (db_step client d s) = sv_enablePyEval s" "sv_enablePyEval (on_cache sid f s) = sv_enablePyEval s"
  "sv_enablePyEval (promoteToTier t s) = sv_enablePyEval s" "sv_enablePyEval (demoteToTier0 s) = sv_enablePyEval s"
  by (simp_all add: db_step_def on_cache_def promoteToTier_def demoteToTier0_def RemoveTools_def registerTier_simps Let_def)

lemma session_cache_ok: "caches_ok s \<Longrightarrow> cache_inv (session_cache sid s)"
  by (auto simp: caches_ok_def session_cache_def empty_cache_def cache_inv_def split: option.splits)

lemma caches_ok_on_cache: "caches_ok s \<Longrightarrow> cache_op f \<Longrightarrow> caches_ok (on_cache sid f s)"
  using session_cache_ok [of s sid] by (auto simp: caches_ok_def on_cache_def cache_op_def split: if_splits)

lemma server_inv_on_session:
  "(\<And>x. se_ID (f x) = se_ID x \<and> se_BinaryPath (f x) = se_BinaryPath x) \<Longrightarrow> server_inv py s \<Longrightarrow>
   server_inv py (on_registry (on_session sess f) s)"
  by (rule server_inv_same [of py s])
    (auto simp: server_inv_def caches_ok_def on_registry_def intro!: registry_inv_on_session)

interpretation server: serving "server_inv py" "\<lambda>_. True" "\<lambda>_. True" for py
proof unfold_locales
  fix s :: "'a server" and E :: "'a env" and client db now sid stage msg cur tot f g sess l t out d path timeout meta p q result sess0
  assume s: "server_inv py s"
  note same = server_inv_same [OF s]
  have reg: "registry_inv (sv_registry s)" and out: "outputs_inv (sv_outputs s)" and caches: "caches_ok s"
    using s by (simp_all add: server_inv_def)
  have registry: "server_inv py (s\<lparr>sv_registry := r\<rparr>)" if "registry_inv r" for r
    by (rule same; use that s in \<open>simp add: server_inv_def caches_ok_def\<close>)
  show "server_inv py (db_step client db s)" and "server_inv py (recordProgress now sid stage msg cur tot s)"
    by (rule same; use s in \<open>simp add: server_inv_def caches_ok_def\<close>)+
  show "cache_op f \<Longrightarrow> server_inv py (on_cache sid f s)"
    by (rule same; use s in \<open>simp add: server_inv_def caches_ok_on_cache\<close>)
  show "server_inv py (on_registry (on_session sess (Touch now)) s)"
    by (rule server_inv_on_session [OF _ s]) (simp add: Touch_def)
  have leased: "server_inv py (on_registry (on_session sess AcquireInFlight) s)"
    by (rule server_inv_on_session [OF _ s]) (simp add: AcquireInFlight_def)
  show "server_inv py (on_registry (on_session sess AcquireInFlight) s\<lparr>sv_leases := l\<rparr>)"
    by (rule server_inv_same [OF leased]; use leased in \<open>simp add: server_inv_def caches_ok_def\<close>)
  show "server_inv py (promoteToTier t s)"
    using s tools_ok_promote [of s t] by (simp add: server_inv_def caches_ok_def)
  show "(outputs_inv (sv_outputs s) \<Longrightarrow> outputs_inv out) \<Longrightarrow> server_inv py (s\<lparr>sv_outputs := out\<rparr>)"
    by (rule same; use s in \<open>simp add: server_inv_def caches_ok_def\<close>)
  show "server_inv py (on_registry (registry_Delete sid) s)"
    using registry [OF registry_inv_Delete(1) [OF reg]] by (simp add: on_registry_def)
  show "server_inv py (deleteSessionCache sid s)"
    using out caches reg by (auto intro!: same simp: deleteSessionCache_def caches_ok_def)
  show "server_inv py (clearProgress sid s)"
    using out caches reg by (auto intro!: same simp: clearProgress_def caches_ok_def)
  show "server_inv py (deleteSessionState E sid s)"
    using out caches reg s by (auto intro!: same simp: deleteSessionState_def caches_ok_def split: option.splits)
  show "server_inv py (persistSession E sess s)"
    using out caches reg s by (auto intro!: same simp: persistSession_def caches_ok_def split: option.splits)
  show "server_inv py (snd (workers_Stop E sid s))"
    using out caches reg by (auto intro!: same simp: workers_Stop_cases caches_ok_def split: prod.splits)
  show "server_inv py (demoteToTier0 s)"
    using s tools_ok_demote [of s] by (simp add: server_inv_def caches_ok_def)
  show "server_inv py (s\<lparr>sv_leases := l\<rparr>)"
    "server_inv py (s\<lparr>sv_workers := fst (snd (manager_Start (Ret result) path (sv_workers s, sess0)))\<rparr>)"
    by (rule same; use s in \<open>simp add: server_inv_def caches_ok_def\<close>)+
  show "(\<And>x. se_ID (g x) = se_ID x \<and> se_BinaryPath (g x) = se_BinaryPath x) \<Longrightarrow> server_inv py (on_registry (on_session sess g) s)"
    by (rule server_inv_on_session [OF _ s])
  show "rg_sessions (sv_registry s) (dr_id d) = None \<Longrightarrow>
      server_inv py (s\<lparr>sv_registry := snd (registry_Create d path timeout (sv_registry s))\<rparr>)"
    by (intro registry registry_inv_Create [OF reg])
  show "server_inv py (s\<lparr>sv_registry := snd (registry_Restore d meta (sv_registry s))\<rparr>)"
    by (intro registry registry_inv_Restore reg)
qed auto

section \<open>Every state\<close>

lemma server_inv_step: "server_step s s' \<Longrightarrow> server_inv py s \<Longrightarrow> server_inv py s'"
proof (induction rule: server_step.induct)
  case (step_tool c s E W turns r s')
  have "quiet (server_inv py) W" by (rule server.quiet_if_closed) (rule step_tool.IH)
  from server.keeps_serve [OF this step_tool.prems _ step_tool.hyps(2)] step_tool.hyps(3) show ?case by simp
qed (simp_all add: server.keeps_background server.keeps_end_request server.keeps_Watchdog server.keeps_RestoreSessions)

lemma server_inv_start: "server_inv py (RegisterTools (SetSecurity h bind py roots (New (NewRegistry m) NewManager dbs timeout store)))"
proof -
  let ?s0 = "SetSecurity h bind py roots (New (NewRegistry m) NewManager dbs timeout store)"
  have same: "sv_registry (fold add_tool ns s) = sv_registry s \<and> sv_outputs (fold add_tool ns s) = sv_outputs s \<and>
      sv_cache (fold add_tool ns s) = sv_cache s" for ns and s :: "'a server"
    by (induction ns arbitrary: s) (simp_all add: add_tool_same)
  have "tools_ok (RegisterTools ?s0)" "sv_enablePyEval (RegisterTools ?s0) = py"
    unfolding RegisterTools_def registerTier0_def tier0ToolNames_def [symmetric]
    by (simp_all add: tools_ok_def add_tools) (simp_all add: SetSecurity_def New_def)
  moreover have "sv_registry (RegisterTools ?s0) = NewRegistry m" "sv_outputs (RegisterTools ?s0) = newOutputStore"
    "sv_cache (RegisterTools ?s0) = Map.empty"
    unfolding RegisterTools_def registerTier0_def by (simp_all only: same) (simp_all add: SetSecurity_def New_def)
  ultimately show ?thesis by (simp add: server_inv_def registry_inv_New outputs_inv_new caches_ok_def)
qed

lemma server_inv_reachable: "server_step\<^sup>*\<^sup>* s0 s \<Longrightarrow> server_inv py s0 \<Longrightarrow> server_inv py s"
  by (induction rule: rtranclp_induct) (auto intro: server_inv_step)

lemma server_inv_facts:
  assumes "server_inv py s"
  shows "(\<forall>sid sess. registry_Get (sv_registry s) sid = Some sess \<longrightarrow> se_ID (session_of s sess) = sid) \<and>
    (\<forall>path sess. FindByBinaryPath (sv_registry s) path = Some sess \<longrightarrow>
       se_BinaryPath (session_of s sess) = Clean path \<and> registry_Get (sv_registry s) (se_ID (session_of s sess)) = Some sess) \<and>
    (0 < rg_maxSessions (sv_registry s) \<longrightarrow> int (map_len (rg_sessions (sv_registry s))) \<le> rg_maxSessions (sv_registry s)) \<and>
    set (sv_tools s) = set tier0ToolNames \<union> (if 1 \<le> sv_tier s then set (tier1Tools s) else {}) \<union>
       (if 2 \<le> sv_tier s then set tier2ToolNames else {}) \<and>
    (''py_eval'' \<in> set (sv_tools s) \<longrightarrow> py) \<and>
    outputs_inv (sv_outputs s) \<and> (\<forall>sid c. sv_cache s sid = Some c \<longrightarrow> cache_inv c)"
proof -
  note inv = assms
  have "''py_eval'' \<notin> set tier0ToolNames" "''py_eval'' \<notin> set tier1ToolNames" "''py_eval'' \<notin> set tier2ToolNames"
    by (auto simp: tier0ToolNames_def tier1ToolNames_def tier2ToolNames_def)
  then have "''py_eval'' \<in> set (sv_tools s) \<longrightarrow> py"
    using inv by (auto simp: server_inv_def tools_ok_def tier1Tools_def split: if_splits)
  moreover have "set (sv_tools s) = set tier0ToolNames \<union> (if 1 \<le> sv_tier s then set (tier1Tools s) else {}) \<union>
       (if 2 \<le> sv_tier s then set tier2ToolNames else {})"
    using inv unfolding server_inv_def tools_ok_def by blast
  moreover have "registry_inv (sv_registry s)" using inv by (simp add: server_inv_def)
  ultimately show ?thesis
    using inv registry_invD registry_inv_indexD registry_inv_limitD
    by (simp add: server_inv_def caches_ok_def registry_Get_def FindByBinaryPath_def session_of_def)
qed

text \<open>The same from a server that has restored nothing.\<close>

theorem reachable_server_ok:
  assumes "server_step\<^sup>*\<^sup>* (RegisterTools (SetSecurity h bind py roots (New (NewRegistry m) NewManager dbs timeout store))) s"
  shows "(\<forall>sid sess. registry_Get (sv_registry s) sid = Some sess \<longrightarrow> se_ID (session_of s sess) = sid) \<and>
    (\<forall>path sess. FindByBinaryPath (sv_registry s) path = Some sess \<longrightarrow>
       se_BinaryPath (session_of s sess) = Clean path \<and> registry_Get (sv_registry s) (se_ID (session_of s sess)) = Some sess) \<and>
    (0 < rg_maxSessions (sv_registry s) \<longrightarrow> int (map_len (rg_sessions (sv_registry s))) \<le> rg_maxSessions (sv_registry s)) \<and>
    set (sv_tools s) = set tier0ToolNames \<union> (if 1 \<le> sv_tier s then set (tier1Tools s) else {}) \<union>
       (if 2 \<le> sv_tier s then set tier2ToolNames else {}) \<and>
    (''py_eval'' \<in> set (sv_tools s) \<longrightarrow> py) \<and>
    outputs_inv (sv_outputs s) \<and> (\<forall>sid c. sv_cache s sid = Some c \<longrightarrow> cache_inv c)"
  by (rule server_inv_facts) (rule server_inv_reachable [OF assms server_inv_start])

theorem reachable_server_ok_witness:
  "\<forall>(E :: 'db env) h bind py roots m dbs timeout store.
     let s0 = RegisterTools (SetSecurity h bind py roots (New (NewRegistry m) NewManager dbs timeout store));
         s = snd (serve E \<lparr>we_token = False, we_ticks = []\<rparr> [] ListSessions s0)
     in set tier0ToolNames \<subseteq> set (sv_tools s) \<and> outputs_inv (sv_outputs s)"
proof (intro allI)
  fix E :: "'db env" and h bind py roots m dbs timeout store
  define s0 where "s0 = RegisterTools (SetSecurity h bind py roots (New (NewRegistry m) NewManager dbs timeout store) :: 'db server)"
  let ?W = "\<lparr>we_token = False, we_ticks = []\<rparr> :: 'db wait_env"
  obtain r s where r: "serve E ?W [] ListSessions s0 = (r, s)" by (rule prod.exhaust)
  have same: "sv_registry (fold add_tool ns s) = sv_registry s \<and> sv_outputs (fold add_tool ns s) = sv_outputs s"
    for ns and s :: "'db server"
    by (induction ns arbitrary: s) (simp_all add: add_tool_same)
  have s0: "sv_registry s0 = NewRegistry m" "sv_outputs s0 = newOutputStore"
    unfolding s0_def RegisterTools_def registerTier0_def by (simp_all only: same) (simp_all add: SetSecurity_def New_def)
  have "''list_sessions'' \<in> set (sv_tools s0)"
    unfolding s0_def RegisterTools_def registerTier0_def by (simp only: add_tools) simp
  moreover have "fresh_draws E ?W [] ListSessions s0"
    using s0 by (simp add: fresh_draws_def handler_def plain_def and_then_def listSessions_def ret_def NewRegistry_def newOutputStore_def)
  ultimately have "server_step s0 s" using r by (intro step_tool [where c = ListSessions]) simp_all
  then have "server_step\<^sup>*\<^sup>* s0 s" by (rule r_into_rtranclp)
  from reachable_server_ok [OF this [unfolded s0_def]]
  show "let s0 = RegisterTools (SetSecurity h bind py roots (New (NewRegistry m) NewManager dbs timeout store));
         s = snd (serve E ?W [] ListSessions s0)
     in set tier0ToolNames \<subseteq> set (sv_tools s) \<and> outputs_inv (sv_outputs s)"
    unfolding Let_def s0_def [symmetric] r snd_conv by blast
qed

end
