(* ===== verification/Http.thy ===== *)
theory Http
  imports ServerState
begin

text \<open>
  The guard in front of the HTTP endpoints (internal/server/http.go): isLoopbackHost,
  isLoopbackOrigin and localhostGuard, over a model of net.SplitHostPort, net.ParseIP and
  IP.IsLoopback on bytes. The host that url.Parse finds in an Origin header is an argument (none
  when the URL does not parse), as is strings.ToLower on text that is not ASCII. The lemmas say
  which Host headers pass.
\<close>

section \<open>Standard library: host and port\<close>

definition index_of :: "char \<Rightarrow> string \<Rightarrow> nat option" where
  "index_of c s = (let n = length (takeWhile (\<lambda>x. x \<noteq> c) s) in if n < length s then Some n else None)"

definition last_index_of :: "char \<Rightarrow> string \<Rightarrow> nat option" where
  "last_index_of c s = map_option (\<lambda>n. length s - 1 - n) (index_of c (rev s))"

text \<open>net.SplitHostPort: the host, or none for an error.\<close>

definition SplitHostPort :: "string \<Rightarrow> string option" where
  "SplitHostPort hostport =
     (case last_index_of CHR '':'' hostport of
        None \<Rightarrow> None
      | Some i \<Rightarrow>
          if hd hostport = CHR ''['' then
            (case index_of CHR '']'' hostport of
               None \<Rightarrow> None
             | Some e \<Rightarrow>
                 if e + 1 = i \<and> index_of CHR ''['' (drop 1 hostport) = None \<and>
                    index_of CHR '']'' (drop (e + 1) hostport) = None
                 then Some (take (e - 1) (drop 1 hostport)) else None)
          else
            let host = take i hostport
            in if CHR '':'' \<in> set host \<or> CHR ''['' \<in> set hostport \<or> CHR '']'' \<in> set hostport then None
               else Some host)"

section \<open>Standard library: IP addresses\<close>

text \<open>A decimal octet without leading zeros.\<close>

definition is_digit :: "char \<Rightarrow> bool" where
  "is_digit c \<longleftrightarrow> 48 \<le> (of_char c :: nat) \<and> of_char c \<le> (57 :: nat)"

definition dec_value :: "string \<Rightarrow> nat" where
  "dec_value s = foldl (\<lambda>v c. v * 10 + (of_char c - 48)) 0 s"

definition octet :: "string \<Rightarrow> nat option" where
  "octet s =
     (if s \<noteq> [] \<and> list_all is_digit s \<and> (hd s = CHR ''0'' \<longrightarrow> length s = 1) \<and> dec_value s \<le> 255
      then Some (dec_value s) else None)"

fun split_dot :: "string \<Rightarrow> string list" where
  "split_dot [] = [[]]"
| "split_dot (c # cs) =
     (if c = CHR ''.'' then [] # split_dot cs
      else (case split_dot cs of [] \<Rightarrow> [[c]] | e # es \<Rightarrow> (c # e) # es))"

definition parseIPv4 :: "string \<Rightarrow> (nat \<times> nat \<times> nat \<times> nat) option" where
  "parseIPv4 s =
     (case map octet (split_dot s) of
        [Some a, Some b, Some c, Some d] \<Rightarrow> Some (a, b, c, d)
      | _ \<Rightarrow> None)"

definition is_hex :: "char \<Rightarrow> bool" where
  "is_hex c \<longleftrightarrow> (case digit_of c of Some d \<Rightarrow> d < 16 | None \<Rightarrow> False)"

definition hex_value :: "string \<Rightarrow> nat" where
  "hex_value s = foldl (\<lambda>v c. v * 16 + (case digit_of c of Some d \<Rightarrow> d | None \<Rightarrow> 0)) 0 s"

text \<open>The loop of netip.parseIPv6 over the groups of 16 bits: the room that is left, the text that
  is left, the groups so far and the place of the ellipsis. An IPv4 address may end the text.\<close>

fun v6_groups :: "nat \<Rightarrow> string \<Rightarrow> nat list \<Rightarrow> nat option \<Rightarrow> (nat list \<times> nat option \<times> string) option" where
  "v6_groups 0 s acc ell = Some (acc, ell, s)"
| "v6_groups (Suc n) s acc ell =
     (let ds = takeWhile is_hex s; acc' = acc @ [hex_value ds] in
      if ds = [] \<or> 4 < length ds then None
      else case drop (length ds) s of
        [] \<Rightarrow> Some (acc', ell, [])
      | c # rest \<Rightarrow>
          if c = CHR ''.'' then
            if (ell = None \<and> n \<noteq> 1) \<or> n = 0 then None
            else (case parseIPv4 s of
                    None \<Rightarrow> None
                  | Some (a, b, c, d) \<Rightarrow> Some (acc @ [a * 256 + b, c * 256 + d], ell, []))
          else if c \<noteq> CHR '':'' \<or> rest = [] then None
          else if hd rest = CHR '':'' then
            if ell \<noteq> None then None
            else if tl rest = [] then Some (acc', Some (length acc'), [])
            else v6_groups n (tl rest) acc' (Some (length acc'))
          else v6_groups n rest acc' ell)"

definition parseIPv6 :: "string \<Rightarrow> nat list option" where
  "parseIPv6 s =
     (if s = ''::'' then Some (replicate 8 0)
      else
        let r = (if take 2 s = ''::'' then v6_groups 8 (drop 2 s) [] (Some 0) else v6_groups 8 s [] None)
        in case r of
             None \<Rightarrow> None
           | Some (gs, ell, rest) \<Rightarrow>
               if rest \<noteq> [] then None
               else if length gs < 8 then
                 map_option (\<lambda>e. take e gs @ replicate (8 - length gs) 0 @ drop e gs) ell
               else if ell \<noteq> None then None
               else Some gs)"

text \<open>net.ParseIP: the first dot, colon or percent sign decides; a zone is rejected. The result is
  the eight groups of the address, those of the mapped address for IPv4.\<close>

definition ParseIP :: "string \<Rightarrow> nat list option" where
  "ParseIP s =
     (case List.find (\<lambda>c. c \<in> {CHR ''.'', CHR '':'', CHR ''%''}) s of
        None \<Rightarrow> None
      | Some c \<Rightarrow>
          if c = CHR ''.'' then map_option (\<lambda>(a, b, c, d). [0, 0, 0, 0, 0, 65535, a * 256 + b, c * 256 + d]) (parseIPv4 s)
          else if c = CHR '':'' \<and> CHR ''%'' \<notin> set s then parseIPv6 s
          else None)"

definition IsLoopback :: "nat list \<Rightarrow> bool" where
  "IsLoopback gs \<longleftrightarrow>
     (if take 6 gs = [0, 0, 0, 0, 0, 65535] then (gs ! 6) div 256 = 127 else gs = [0, 0, 0, 0, 0, 0, 0, 1])"

section \<open>Standard library: trimming and lower case\<close>

definition TrimPrefix :: "string \<Rightarrow> string \<Rightarrow> string" where
  "TrimPrefix p s = (if prefix p s then drop (length p) s else s)"

definition TrimSuffix :: "string \<Rightarrow> string \<Rightarrow> string" where
  "TrimSuffix p s = (if suffix p s then take (length s - length p) s else s)"

definition ascii :: "string \<Rightarrow> bool" where
  "ascii s \<longleftrightarrow> list_all (\<lambda>c. of_char c < (128 :: nat)) s"

definition ascii_lower :: "char \<Rightarrow> char" where
  "ascii_lower c = (if 65 \<le> (of_char c :: nat) \<and> of_char c \<le> (90 :: nat) then char_of (of_char c + 32 :: nat) else c)"

definition ToLower :: "host \<Rightarrow> string \<Rightarrow> string" where
  "ToLower h s = (if ascii s then map ascii_lower s else h_ToLower h s)"

section \<open>http.go\<close>

definition isLoopbackHost :: "host \<Rightarrow> string \<Rightarrow> bool" where
  "isLoopbackHost h hostHeader =
     (let host = (case SplitHostPort hostHeader of Some x \<Rightarrow> x | None \<Rightarrow> hostHeader);
          host = ToLower h (TrimSuffix '']'' (TrimPrefix ''['' host))
      in host = ''localhost'' \<or> (case ParseIP host of Some ip \<Rightarrow> IsLoopback ip | None \<Rightarrow> False))"

text \<open>\<open>urlHost\<close> is the Host of url.Parse, none for an error.\<close>

definition isLoopbackOrigin :: "host \<Rightarrow> (string \<Rightarrow> string option) \<Rightarrow> string \<Rightarrow> bool" where
  "isLoopbackOrigin h urlHost origin =
     (case urlHost origin of None \<Rightarrow> False | Some host \<Rightarrow> host \<noteq> [] \<and> isLoopbackHost h host)"

record http_request =
  hr_Host :: string
  hr_Origin :: string

datatype guard_result = Forbidden string | Served

definition localhostGuard :: "host \<Rightarrow> (string \<Rightarrow> string option) \<Rightarrow> 'db server \<Rightarrow> http_request \<Rightarrow> guard_result" where
  "localhostGuard h urlHost s r =
     (let loopback = (sv_bind s = [] \<or> isLoopbackHost h (sv_bind s))
      in if \<not> loopback then Served
         else if hr_Host r \<noteq> [] \<and> \<not> isLoopbackHost h (hr_Host r) then
           Forbidden ''Host header not allowed; server is loopback-only''
         else if hr_Origin r \<noteq> [] \<and> \<not> isLoopbackOrigin h urlHost (hr_Origin r) then
           Forbidden ''Origin not allowed; server is loopback-only''
         else Served)"

section \<open>Dotted decimal addresses\<close>

lemma digit_char_value: "is_digit c \<Longrightarrow> digit_char (of_char c - 48) = c \<and> (of_char c :: nat) - 48 < 10"
  by (auto simp: is_digit_def digit_char_def)

lemma dec_value_snoc: "dec_value (s @ [c]) = dec_value s * 10 + (of_char c - 48)"
  by (simp add: dec_value_def)

lemma dec_value_pos: "list_all is_digit s \<Longrightarrow> s \<noteq> [] \<Longrightarrow> hd s \<noteq> CHR ''0'' \<Longrightarrow> 0 < dec_value s"
proof (induction s rule: rev_induct)
  case (snoc c s)
  show ?case
  proof (cases "s = []")
    case True
    then have "is_digit c" "c \<noteq> CHR ''0''" using snoc.prems by simp_all
    moreover have "CHR ''0'' = char_of (48 :: nat)" by code_simp
    ultimately have "(of_char c :: nat) \<noteq> 48" by (metis char_of_char)
    then show ?thesis using True \<open>is_digit c\<close> by (simp add: dec_value_def is_digit_def)
  next
    case False
    then show ?thesis using snoc by (simp add: dec_value_snoc)
  qed
qed simp

lemma show_dec_value:
  "list_all is_digit s \<Longrightarrow> s \<noteq> [] \<Longrightarrow> (hd s = CHR ''0'' \<longrightarrow> length s = 1) \<Longrightarrow> show_base 10 (dec_value s) = s"
proof (induction s rule: rev_induct)
  case (snoc c s)
  have c: "digit_char (of_char c - 48) = c" "(of_char c :: nat) - 48 < 10"
    using snoc.prems(1) digit_char_value [of c] by simp_all
  show ?case
  proof (cases "s = []")
    case True
    then show ?thesis using c by (simp add: dec_value_def show_base.simps)
  next
    case False
    then have hd: "hd s \<noteq> CHR ''0''" and "list_all is_digit s" using snoc.prems by auto
    then have "0 < dec_value s" and "show_base 10 (dec_value s) = s"
      using False dec_value_pos snoc.IH by auto
    then show ?thesis using c by (subst show_base.simps) (simp add: dec_value_snoc)
  qed
qed simp

lemma digit_of_char: "d < 10 \<Longrightarrow> (of_char (digit_char d) :: nat) = 48 + d"
  by (simp add: digit_char_def)

lemma show_base_10:
  "list_all is_digit (show_base 10 n) \<and> dec_value (show_base 10 n) = n \<and> show_base 10 n \<noteq> [] \<and>
   (hd (show_base 10 n) = CHR ''0'' \<longrightarrow> n = 0)"
proof (induction n rule: less_induct)
  case (less n)
  show ?case
  proof (cases "n < 10")
    case True
    have "digit_char n = CHR ''0'' \<longrightarrow> n = 0"
      using digit_of_char [OF True] by auto
    then show ?thesis
      using True digit_of_char [OF True] by (subst show_base.simps, simp)+ (simp add: show_base.simps is_digit_def dec_value_def)
  next
    case False
    then have IH: "list_all is_digit (show_base 10 (n div 10))" "dec_value (show_base 10 (n div 10)) = n div 10"
      "show_base 10 (n div 10) \<noteq> []" "hd (show_base 10 (n div 10)) = CHR ''0'' \<longrightarrow> n div 10 = 0"
      using less [of "n div 10"] by auto
    have e: "show_base 10 n = show_base 10 (n div 10) @ [digit_char (n mod 10)]"
      using False by (subst show_base.simps) simp
    have "n mod 10 < 10" by simp
    then have "is_digit (digit_char (n mod 10))" and "(of_char (digit_char (n mod 10)) :: nat) = 48 + n mod 10"
      by (simp_all only: is_digit_def digit_of_char) simp
    moreover have "n div 10 \<noteq> 0" using False by (simp add: div_eq_0_iff)
    ultimately show ?thesis using IH unfolding e by (simp add: dec_value_snoc)
  qed
qed

lemma octet_show: "v < 256 \<Longrightarrow> octet (show_base 10 v) = Some v"
  using show_base_10 [of v] by (auto simp: octet_def) (simp add: show_base.simps)

lemma octet_iff: "octet s = Some v \<longleftrightarrow> v < 256 \<and> s = show_base 10 v"
proof
  assume "octet s = Some v"
  then show "v < 256 \<and> s = show_base 10 v"
    using show_dec_value [of s] by (auto simp: octet_def split: if_splits)
qed (auto simp: octet_show)

lemma octet_digits: "octet s = Some v \<Longrightarrow> list_all is_digit s"
  by (simp add: octet_def split: if_splits)

lemma show_octet_digits: "v < 256 \<Longrightarrow> list_all is_digit (show_base 10 v)"
  using octet_digits octet_show by blast

fun join_dot :: "string list \<Rightarrow> string" where
  "join_dot [] = []"
| "join_dot [e] = e"
| "join_dot (e # es) = e @ CHR ''.'' # join_dot es"

lemma split_dot_nonempty: "split_dot s \<noteq> []"
  by (cases s) (auto split: list.splits)

lemma join_split_dot: "join_dot (split_dot s) = s"
proof (induction s)
  case (Cons c cs)
  obtain e es where e: "split_dot cs = e # es" using split_dot_nonempty by (cases "split_dot cs") auto
  then show ?case using Cons by (cases es) auto
qed simp

lemma split_dot_part: "CHR ''.'' \<notin> set w \<Longrightarrow> split_dot (w @ CHR ''.'' # s) = w # split_dot s"
  by (induction w) auto

lemma split_dot_last: "CHR ''.'' \<notin> set w \<Longrightarrow> split_dot w = [w]"
  by (induction w) auto

definition quad :: "nat \<Rightarrow> nat \<Rightarrow> nat \<Rightarrow> nat \<Rightarrow> string" where
  "quad a b c d = join_dot (map (show_base 10) [a, b, c, d])"

lemma no_dot_octet: "v < 256 \<Longrightarrow> CHR ''.'' \<notin> set (show_base 10 v)"
  using show_octet_digits [of v] by (auto simp: list_all_iff is_digit_def)

lemma parseIPv4_iff:
  "parseIPv4 s = Some (a, b, c, d) \<longleftrightarrow> a < 256 \<and> b < 256 \<and> c < 256 \<and> d < 256 \<and> s = quad a b c d"
proof
  assume "parseIPv4 s = Some (a, b, c, d)"
  then have "map octet (split_dot s) = [Some a, Some b, Some c, Some d]"
    by (simp add: parseIPv4_def split: list.splits option.splits)
  then obtain w x y z where p: "split_dot s = [w, x, y, z]"
    "octet w = Some a" "octet x = Some b" "octet y = Some c" "octet z = Some d" by auto
  then show "a < 256 \<and> b < 256 \<and> c < 256 \<and> d < 256 \<and> s = quad a b c d"
    using join_split_dot [of s] by (simp add: octet_iff quad_def)
next
  assume "a < 256 \<and> b < 256 \<and> c < 256 \<and> d < 256 \<and> s = quad a b c d"
  then show "parseIPv4 s = Some (a, b, c, d)"
    by (simp add: parseIPv4_def quad_def split_dot_part split_dot_last no_dot_octet octet_show)
qed

lemma quad_chars: "a < 256 \<Longrightarrow> b < 256 \<Longrightarrow> c < 256 \<Longrightarrow> d < 256 \<Longrightarrow> x \<in> set (quad a b c d) \<Longrightarrow> is_digit x \<or> x = CHR ''.''"
  using show_octet_digits by (auto simp: quad_def list_all_iff)

section \<open>Which Host headers pass\<close>

text \<open>A header that is a name or a dotted address, with or without a port.\<close>

definition plain_text :: "string \<Rightarrow> bool" where
  "plain_text s \<longleftrightarrow> ascii s \<and> CHR '':'' \<notin> set s \<and> CHR ''['' \<notin> set s \<and> CHR '']'' \<notin> set s"

definition names_host :: "string \<Rightarrow> string \<Rightarrow> bool" where
  "names_host name header \<longleftrightarrow>
     name \<noteq> [] \<and> plain_text name \<and> (header = name \<or> (\<exists>port. plain_text port \<and> header = name @ CHR '':'' # port))"

definition loopback_name :: "string \<Rightarrow> bool" where
  "loopback_name name \<longleftrightarrow>
     map ascii_lower name = ''localhost'' \<or> (\<exists>b c d. b < 256 \<and> c < 256 \<and> d < 256 \<and> name = quad 127 b c d)"

lemma takeWhile_first: "c \<notin> set s \<Longrightarrow> takeWhile (\<lambda>x. x \<noteq> c) (s @ c # t) = s"
  by (induction s) auto

lemma takeWhile_none: "c \<notin> set s \<Longrightarrow> takeWhile (\<lambda>x. x \<noteq> c) s = s"
  by (induction s) auto

lemma index_of_first: "c \<notin> set s \<Longrightarrow> index_of c (s @ c # t) = Some (length s)"
  by (simp add: index_of_def Let_def takeWhile_first)

lemma index_of_None: "index_of c s = None \<longleftrightarrow> c \<notin> set s"
proof (cases "c \<in> set s")
  case True
  then obtain ys zs where "s = ys @ c # zs" "c \<notin> set ys" by (meson split_list_first)
  then show ?thesis by (simp add: index_of_first)
qed (simp add: index_of_def Let_def takeWhile_none)

lemma split_named:
  assumes "names_host name header"
  shows "(case SplitHostPort header of Some x \<Rightarrow> x | None \<Rightarrow> header) = name"
proof (cases "header = name")
  case True
  then have "last_index_of CHR '':'' header = None"
    using assms by (simp add: last_index_of_def index_of_None names_host_def plain_text_def)
  then show ?thesis using True by (simp add: SplitHostPort_def)
next
  case False
  then obtain port where port: "plain_text port" "header = name @ CHR '':'' # port" and name: "name \<noteq> []" "plain_text name"
    using assms by (auto simp: names_host_def)
  have "index_of CHR '':'' (rev port @ CHR '':'' # rev name) = Some (length (rev port))"
    using port(1) by (intro index_of_first) (simp add: plain_text_def)
  then have "last_index_of CHR '':'' header = Some (length name)" by (simp add: last_index_of_def port(2))
  moreover have "hd name \<noteq> CHR ''[''" using name by (cases name) (auto simp: plain_text_def)
  ultimately show ?thesis using name port by (simp add: SplitHostPort_def plain_text_def)
qed

lemma trim_named: "plain_text name \<Longrightarrow> TrimSuffix '']'' (TrimPrefix ''['' name) = name"
  by (auto simp: plain_text_def TrimPrefix_def TrimSuffix_def prefix_def suffix_def)

lemma ascii_lower_other: "ascii_lower c = x \<Longrightarrow> (of_char x :: nat) < 97 \<Longrightarrow> c = x"
  by (auto simp: ascii_lower_def split: if_splits)

lemma quad_lower:
  assumes "a < 256" "b < 256" "c < 256" "d < 256"
  shows "map ascii_lower name = quad a b c d \<longleftrightarrow> name = quad a b c d"
proof -
  have small: "(of_char x :: nat) < 97" if "x \<in> set (quad a b c d)" for x
    using quad_chars [OF assms that] by (auto simp: is_digit_def)
  have low: "ascii_lower x = x" if "x \<in> set (quad a b c d)" for x
    using quad_chars [OF assms that] by (auto simp: is_digit_def ascii_lower_def)
  show ?thesis
  proof
    assume l: "map ascii_lower name = quad a b c d"
    have "ascii_lower x = x" if "x \<in> set name" for x
    proof -
      have "ascii_lower x \<in> set (quad a b c d)" using that l by (metis imageI set_map)
      then show ?thesis using ascii_lower_other [OF refl small] by metis
    qed
    then show "name = quad a b c d" using l by (metis map_idI)
  next
    assume "name = quad a b c d"
    then show "map ascii_lower name = quad a b c d" using low by (simp add: map_idI)
  qed
qed

lemma ParseIP_quad:
  assumes "CHR '':'' \<notin> set s"
  shows "(case ParseIP s of Some ip \<Rightarrow> IsLoopback ip | None \<Rightarrow> False) \<longleftrightarrow>
     (\<exists>b c d. b < 256 \<and> c < 256 \<and> d < 256 \<and> s = quad 127 b c d)"
proof
  assume l: "case ParseIP s of Some ip \<Rightarrow> IsLoopback ip | None \<Rightarrow> False"
  then obtain ip where ip: "ParseIP s = Some ip" "IsLoopback ip" by (auto split: option.splits)
  obtain x where x: "List.find (\<lambda>c. c \<in> {CHR ''.'', CHR '':'', CHR ''%''}) s = Some x"
    using ip(1) by (cases "List.find (\<lambda>c. c \<in> {CHR ''.'', CHR '':'', CHR ''%''}) s") (simp_all add: ParseIP_def)
  have "x \<noteq> CHR '':''" using x assms by (auto simp: find_Some_iff in_set_conv_nth)
  then have "map_option (\<lambda>(a, b, c, d). [0, 0, 0, 0, 0, 65535, a * 256 + b, c * 256 + d]) (parseIPv4 s) = Some ip"
    using ip(1) x by (simp add: ParseIP_def split: if_splits)
  then obtain a b c d where q: "parseIPv4 s = Some (a, b, c, d)" "ip = [0, 0, 0, 0, 0, 65535, a * 256 + b, c * 256 + d]"
    by auto
  have r: "b < 256" "c < 256" "d < 256" "s = quad a b c d" using q(1) by (simp_all add: parseIPv4_iff)
  have "a = 127" using ip(2) r(1) by (simp add: q(2) IsLoopback_def)
  then show "\<exists>b c d. b < 256 \<and> c < 256 \<and> d < 256 \<and> s = quad 127 b c d" using r by blast
next
  assume "\<exists>b c d. b < 256 \<and> c < 256 \<and> d < 256 \<and> s = quad 127 b c d"
  then obtain b c d where r: "b < 256" "c < 256" "d < 256" and s: "s = quad 127 b c d" by blast
  have p: "parseIPv4 s = Some (127, b, c, d)" using r s by (simp add: parseIPv4_iff)
  have "CHR ''.'' \<in> set s" by (simp add: s quad_def)
  then obtain x where x: "List.find (\<lambda>c. c \<in> {CHR ''.'', CHR '':'', CHR ''%''}) s = Some x"
    by (cases "List.find (\<lambda>c. c \<in> {CHR ''.'', CHR '':'', CHR ''%''}) s") (auto simp: find_None_iff)
  then have "x \<in> set s" "x \<in> {CHR ''.'', CHR '':'', CHR ''%''}" by (auto simp: find_Some_iff in_set_conv_nth)
  then have "x = CHR ''.''" using quad_chars [of 127 b c d x] r s by (auto simp: is_digit_def)
  then show "case ParseIP s of Some ip \<Rightarrow> IsLoopback ip | None \<Rightarrow> False"
    using p r(1) x by (simp add: ParseIP_def IsLoopback_def)
qed

lemma isLoopbackHost_named:
  assumes "names_host name header"
  shows "isLoopbackHost h header \<longleftrightarrow> loopback_name name"
proof -
  have name: "plain_text name" using assms by (simp add: names_host_def)
  have low: "ToLower h name = map ascii_lower name" using name by (simp add: ToLower_def plain_text_def)
  have "CHR '':'' \<notin> set (map ascii_lower name)"
    using name ascii_lower_other [of _ "CHR '':''"] by (fastforce simp: plain_text_def)
  from ParseIP_quad [OF this]
  have "(case ParseIP (map ascii_lower name) of Some ip \<Rightarrow> IsLoopback ip | None \<Rightarrow> False) \<longleftrightarrow>
      (\<exists>b c d. b < 256 \<and> c < 256 \<and> d < 256 \<and> name = quad 127 b c d)"
  proof -
    have "map ascii_lower name = quad 127 b c d \<longleftrightarrow> name = quad 127 b c d" if "b < 256" "c < 256" "d < 256" for b c d
      using that by (intro quad_lower) simp_all
    then show ?thesis unfolding \<open>(case ParseIP (map ascii_lower name) of Some ip \<Rightarrow> IsLoopback ip | None \<Rightarrow> False) \<longleftrightarrow> _\<close> by blast
  qed
  then show ?thesis
    unfolding isLoopbackHost_def split_named [OF assms] trim_named [OF name] Let_def low loopback_name_def by simp
qed

text \<open>C15: the guard of a server that is bound to a loopback address admits a request to a named host
  exactly if the name is localhost in any case or a dotted address of 127.0.0.0/8 written without
  leading zeros, whatever the port, and likewise for the host of the Origin, if there is one. So a
  page that reaches the server through a name of its own (DNS rebinding) or from another origin is
  answered with 403.\<close>

theorem guard_admits_loopback_names:
  assumes "sv_bind s = [] \<or> names_host b (sv_bind s) \<and> loopback_name b"
    and "names_host name (hr_Host r)"
    and "hr_Origin r = [] \<or> (\<exists>header. urlHost (hr_Origin r) = Some header \<and> names_host origin header)"
  shows "localhostGuard h urlHost s r = Served \<longleftrightarrow>
     loopback_name name \<and> (hr_Origin r = [] \<or> loopback_name origin)"
proof -
  have "sv_bind s = [] \<or> isLoopbackHost h (sv_bind s)" using assms(1) isLoopbackHost_named by blast
  moreover have "hr_Host r \<noteq> []" using assms(2) by (auto simp: names_host_def)
  moreover have "isLoopbackOrigin h urlHost (hr_Origin r) \<longleftrightarrow> loopback_name origin" if "hr_Origin r \<noteq> []"
  proof -
    obtain header where u: "urlHost (hr_Origin r) = Some header" "names_host origin header" using assms(3) \<open>hr_Origin r \<noteq> []\<close> by auto
    then have "header \<noteq> []" by (auto simp: names_host_def)
    then show ?thesis using u isLoopbackHost_named [OF u(2)] by (simp add: isLoopbackOrigin_def)
  qed
  ultimately show ?thesis
    using isLoopbackHost_named [OF assms(2), of h] by (auto simp: localhostGuard_def Let_def)
qed

theorem guard_admits_loopback_names_witness:
  "\<forall>h urlHost (s :: nat server). localhostGuard h urlHost (s\<lparr>sv_bind := ''127.0.0.1''\<rparr>)
       \<lparr>hr_Host = ''evil.example:17300'', hr_Origin = []\<rparr> \<noteq> Served"
proof (intro allI)
  fix h urlHost and s :: "nat server"
  let ?r = "\<lparr>hr_Host = ''evil.example:17300'', hr_Origin = []\<rparr>"
  have plain: "plain_text ''127.0.0.1'' \<and> plain_text ''evil.example'' \<and> plain_text ''17300''" by code_simp
  have dec: "show_base 10 0 = ''0''" "show_base 10 (Suc 0) = ''1''" "show_base 10 127 = ''127''" by code_simp+
  have "''127.0.0.1'' = quad 127 0 0 1" by (simp add: quad_def dec)
  then have bind: "loopback_name ''127.0.0.1''" unfolding loopback_name_def by (intro disjI2 exI conjI) simp_all
  have "''evil.example'' \<noteq> quad 127 b c d" for b c d by (simp add: quad_def dec)
  then have evil: "\<not> loopback_name ''evil.example''" by (simp add: loopback_name_def ascii_lower_def)
  have "localhostGuard h urlHost (s\<lparr>sv_bind := ''127.0.0.1''\<rparr>) ?r = Served \<longleftrightarrow>
     loopback_name ''evil.example'' \<and> (hr_Origin ?r = [] \<or> loopback_name [])"
  proof (rule guard_admits_loopback_names)
    show "sv_bind (s\<lparr>sv_bind := ''127.0.0.1''\<rparr>) = [] \<or>
        names_host ''127.0.0.1'' (sv_bind (s\<lparr>sv_bind := ''127.0.0.1''\<rparr>)) \<and> loopback_name ''127.0.0.1''"
      using plain bind by (simp add: names_host_def)
    show "names_host ''evil.example'' (hr_Host ?r)"
      using plain by (auto simp: names_host_def intro!: exI [of _ "''17300''"])
  qed simp
  then show "localhostGuard h urlHost (s\<lparr>sv_bind := ''127.0.0.1''\<rparr>) ?r \<noteq> Served" using evil by simp
qed

end
