(* ===== verification/Config.thy ===== *)
theory Config
  imports Http
begin

text \<open>
  The configuration of the server: LoadConfig, ensureConfigDefaults, ApplyEnvOverrides, parseBool
  and GetDefaultDBDir (internal/server/server.go), and the flags and checks of main
  (cmd/ida-pilot/main.go). The environment variables, the outcome of reading the file and of
  decoding its JSON onto a configuration, and os.Stat are arguments. The platform is Unix.
\<close>

section \<open>Standard library: numbers and lists\<close>

text \<open>strconv.Atoi; none for an error.\<close>

definition Atoi :: "string \<Rightarrow> int option" where
  "Atoi s =
     (let neg = (s \<noteq> [] \<and> hd s = CHR ''-'');
          t = (if s \<noteq> [] \<and> (hd s = CHR ''-'' \<or> hd s = CHR ''+'') then tl s else s)
      in if t = [] \<or> \<not> list_all is_digit t then None
         else let v = (if neg then - int (dec_value t) else int (dec_value t))
              in if is_int 64 v then Some v else None)"

text \<open>filepath.SplitList.\<close>

fun split_colon :: "string \<Rightarrow> string list" where
  "split_colon [] = [[]]"
| "split_colon (c # cs) =
     (if c = CHR '':'' then [] # split_colon cs
      else (case split_colon cs of [] \<Rightarrow> [[c]] | e # es \<Rightarrow> (c # e) # es))"

definition SplitList :: "string \<Rightarrow> string list" where
  "SplitList s = (if s = [] then [] else split_colon s)"

section \<open>server.go: Config\<close>

record Config =
  cfg_Bind :: string
  cfg_Port :: int
  cfg_SessionTimeoutMin :: int
  cfg_MaxConcurrentSession :: int
  cfg_DatabaseDirectory :: string
  cfg_PythonWorkerPath :: string
  cfg_Debug :: bool
  cfg_EnablePyEval :: bool
  cfg_AllowedRoots :: "string list"

definition DefaultBind :: string where "DefaultBind = ''127.0.0.1''"

definition DefaultPort :: int where "DefaultPort = 17300"

definition defaultSessionTimeoutMin :: int where "defaultSessionTimeoutMin = 240"

definition defaultMaxSessions :: int where "defaultMaxSessions = 0"

definition defaultWorkerPath :: string where "defaultWorkerPath = ''python/worker/server.py''"

text \<open>\<open>getenv\<close> gives the empty string for a variable that is not set.\<close>

definition GetDefaultDBDir :: "(string \<Rightarrow> string) \<Rightarrow> string" where
  "GetDefaultDBDir getenv =
     (let xdgData = getenv ''XDG_DATA_HOME''; home = getenv ''HOME''
      in if xdgData \<noteq> [] then Clean (xdgData @ ''/ida-pilot/sessions'')
         else if home \<noteq> [] then Clean (home @ ''/.local/share/ida-pilot/sessions'')
         else ''/tmp/ida_sessions'')"

definition ensureConfigDefaults :: "(string \<Rightarrow> string) \<Rightarrow> Config \<Rightarrow> Config" where
  "ensureConfigDefaults getenv cfg =
     (let cfg = (if cfg_Port cfg = 0 then cfg\<lparr>cfg_Port := DefaultPort\<rparr> else cfg);
          cfg = (if cfg_Bind cfg = [] then cfg\<lparr>cfg_Bind := DefaultBind\<rparr> else cfg);
          cfg = (if cfg_SessionTimeoutMin cfg = 0 then cfg\<lparr>cfg_SessionTimeoutMin := defaultSessionTimeoutMin\<rparr> else cfg);
          cfg = (if cfg_PythonWorkerPath cfg = [] then cfg\<lparr>cfg_PythonWorkerPath := defaultWorkerPath\<rparr> else cfg)
      in if cfg_DatabaseDirectory cfg = [] then cfg\<lparr>cfg_DatabaseDirectory := GetDefaultDBDir getenv\<rparr> else cfg)"

definition initial_config :: "(string \<Rightarrow> string) \<Rightarrow> Config" where
  "initial_config getenv =
     \<lparr>cfg_Bind = DefaultBind, cfg_Port = DefaultPort, cfg_SessionTimeoutMin = defaultSessionTimeoutMin,
      cfg_MaxConcurrentSession = defaultMaxSessions, cfg_DatabaseDirectory = GetDefaultDBDir getenv,
      cfg_PythonWorkerPath = defaultWorkerPath, cfg_Debug = False, cfg_EnablePyEval = False, cfg_AllowedRoots = []\<rparr>"

text \<open>os.ReadFile: the text, that the file does not exist, or another error.\<close>

datatype file_read = FileText string | FileMissing | FileError gerr

definition LoadConfig ::
  "(string \<Rightarrow> string) \<Rightarrow> (string \<Rightarrow> Config \<Rightarrow> gerr + Config) \<Rightarrow> file_read \<Rightarrow> Config go" where
  "LoadConfig getenv unmarshal f =
     (let cfg = initial_config getenv
      in case f of
           FileMissing \<Rightarrow> Ret cfg
         | FileError e \<Rightarrow> Err e
         | FileText data \<Rightarrow>
             (case unmarshal data cfg of
                Inl e \<Rightarrow> Err e
              | Inr cfg \<Rightarrow> Ret (ensureConfigDefaults getenv cfg)))"

definition parseBool :: "host \<Rightarrow> string \<Rightarrow> bool \<times> bool" where
  "parseBool h val =
     (let v = ToLower h (TrimSpace val)
      in if v \<in> {''1'', ''true'', ''t'', ''yes'', ''y'', ''on''} then (True, True)
         else if v \<in> {''0'', ''false'', ''f'', ''no'', ''n'', ''off''} then (False, True)
         else (False, False))"

text \<open>A variable that is empty changes nothing, one that does not parse neither.\<close>

definition override_text :: "string \<Rightarrow> ((string \<Rightarrow> string) \<Rightarrow> Config \<Rightarrow> Config) \<Rightarrow> Config \<Rightarrow> Config" where
  "override_text val put cfg = (if val \<noteq> [] then put (\<lambda>_. val) cfg else cfg)"

definition override_int :: "string \<Rightarrow> ((int \<Rightarrow> int) \<Rightarrow> Config \<Rightarrow> Config) \<Rightarrow> Config \<Rightarrow> Config" where
  "override_int val put cfg =
     (if val \<noteq> [] then (case Atoi val of Some n \<Rightarrow> put (\<lambda>_. n) cfg | None \<Rightarrow> cfg) else cfg)"

definition override_bool :: "host \<Rightarrow> string \<Rightarrow> ((bool \<Rightarrow> bool) \<Rightarrow> Config \<Rightarrow> Config) \<Rightarrow> Config \<Rightarrow> Config" where
  "override_bool h val put cfg =
     (if val \<noteq> [] then (let (parsed, ok) = parseBool h val in if ok then put (\<lambda>_. parsed) cfg else cfg) else cfg)"

definition ApplyEnvOverrides :: "host \<Rightarrow> (string \<Rightarrow> string) \<Rightarrow> Config \<Rightarrow> Config" where
  "ApplyEnvOverrides h getenv cfg =
     (let cfg = override_text (getenv ''IDA_PILOT_BIND'') cfg_Bind_update cfg;
          cfg = override_int (getenv ''IDA_PILOT_PORT'') cfg_Port_update cfg;
          cfg = override_int (getenv ''IDA_PILOT_SESSION_TIMEOUT_MIN'') cfg_SessionTimeoutMin_update cfg;
          cfg = override_int (getenv ''IDA_PILOT_MAX_SESSIONS'') cfg_MaxConcurrentSession_update cfg;
          cfg = override_text (getenv ''IDA_PILOT_WORKER'') cfg_PythonWorkerPath_update cfg;
          cfg = override_bool h (getenv ''IDA_PILOT_DEBUG'') cfg_Debug_update cfg;
          cfg = override_bool h (getenv ''IDA_PILOT_ENABLE_PY_EVAL'') cfg_EnablePyEval_update cfg;
          roots = getenv ''IDA_PILOT_ALLOWED_ROOTS''
      in if roots \<noteq> [] then cfg\<lparr>cfg_AllowedRoots := SplitList roots\<rparr> else cfg)"

section \<open>main.go: flags and checks\<close>

record flags =
  fl_bind :: string
  fl_port :: int
  fl_worker :: string
  fl_maxSessions :: int
  fl_timeout :: int
  fl_debug :: bool
  fl_enablePyEval :: bool
  fl_allowedRoots :: string

definition no_flags :: flags where
  "no_flags = \<lparr>fl_bind = [], fl_port = 0, fl_worker = [], fl_maxSessions = 0, fl_timeout = 0, fl_debug = False,
     fl_enablePyEval = False, fl_allowedRoots = []\<rparr>"

text \<open>The configuration and the session timeout in nanoseconds. A time.Duration wraps at 64 bits.\<close>

definition apply_flags :: "flags \<Rightarrow> Config \<Rightarrow> Config \<times> int" where
  "apply_flags f cfg =
     (let cfg = (if fl_bind f \<noteq> [] then cfg\<lparr>cfg_Bind := fl_bind f\<rparr> else cfg);
          cfg = (if fl_port f > 0 then cfg\<lparr>cfg_Port := fl_port f\<rparr> else cfg);
          cfg = (if fl_worker f \<noteq> [] then cfg\<lparr>cfg_PythonWorkerPath := fl_worker f\<rparr> else cfg);
          cfg = (if fl_maxSessions f > 0 then cfg\<lparr>cfg_MaxConcurrentSession := fl_maxSessions f\<rparr> else cfg);
          sessionTimeout = int64 (cfg_SessionTimeoutMin cfg * 60000000000);
          sessionTimeout = (if fl_timeout f > 0 then fl_timeout f else sessionTimeout);
          cfg = (if fl_debug f then cfg\<lparr>cfg_Debug := True\<rparr> else cfg);
          cfg = (if fl_enablePyEval f then cfg\<lparr>cfg_EnablePyEval := True\<rparr> else cfg);
          cfg = (if fl_allowedRoots f \<noteq> [] then cfg\<lparr>cfg_AllowedRoots := SplitList (fl_allowedRoots f)\<rparr> else cfg)
      in (cfg, sessionTimeout))"

definition isLoopbackBind :: "string \<Rightarrow> bool" where
  "isLoopbackBind bind =
     (if bind = [] then True
      else case ParseIP bind of Some ip \<Rightarrow> IsLoopback ip | None \<Rightarrow> bind = ''localhost'')"

text \<open>os.Stat gives whether the path is a directory, and the mode bits. The worker path becomes
  absolute.\<close>

definition validateConfig :: "host \<Rightarrow> (string \<Rightarrow> string) \<Rightarrow> gerr \<Rightarrow> (string \<Rightarrow> gerr + bool \<times> nat) \<Rightarrow> Config \<Rightarrow> Config go" where
  "validateConfig h quote wdErr stat cfg =
     (if cfg_MaxConcurrentSession cfg < 0 then
        Err (Msg (''max_concurrent_sessions must be non-negative, got '' @ show_dec (cfg_MaxConcurrentSession cfg) @
          '' (use 0 for unlimited)''))
      else if cfg_PythonWorkerPath cfg = [] then Err (Msg ''python_worker_path is required'')
      else
        case Abs (h_cwd h) (cfg_PythonWorkerPath cfg) of
          None \<Rightarrow> Err (Ctx (''invalid python_worker_path '' @ quote (cfg_PythonWorkerPath cfg)) wdErr)
        | Some absPath \<Rightarrow>
            (case stat absPath of
               Inl e \<Rightarrow> Err (Ctx (''python_worker_path '' @ quote absPath @ '' not found'') e)
             | Inr (isDir, mode) \<Rightarrow>
                 if isDir then Err (Msg (''python_worker_path '' @ quote absPath @ '' is a directory, expected a Python script''))
                 else if h_GOOS h \<noteq> ''windows'' \<and> and mode 73 = 0 then
                   Err (Msg (''python_worker_path '' @ quote absPath @ '' is not executable (try: chmod +x '' @ absPath @ '')''))
                 else Ret (cfg\<lparr>cfg_PythonWorkerPath := absPath\<rparr>)))"

end
