(* ===== verification/Startup.thy ===== *)
theory Startup
  imports Tools Config
begin

text \<open>
  main (cmd/ida-pilot/main.go): the configuration is loaded, overridden by the environment and the
  flags and checked; the registry, the worker manager, the session store and the server are made;
  the sessions of the store are restored, the tools registered, and the server promoted. A fatal
  log ends the process and is an error value. The lemmas carry the invariant of the server from
  this start to every state it reaches.
\<close>

section \<open>main.go\<close>

record start_env =
  st_host :: host
  st_getenv :: "string \<Rightarrow> string"
  st_readFile :: "string \<Rightarrow> file_read"
  st_unmarshal :: "string \<Rightarrow> Config \<Rightarrow> gerr + Config"
  st_quote :: "string \<Rightarrow> string"
  st_wdErr :: gerr
  st_stat :: "string \<Rightarrow> gerr + bool \<times> nat"
  st_mkdir :: "string \<Rightarrow> gerr option"
  st_files :: "string \<Rightarrow> store_dir"

definition load_configuration :: "start_env \<Rightarrow> flags \<Rightarrow> string \<Rightarrow> (Config \<times> int) go" where
  "load_configuration S f configPath =
     (case LoadConfig (st_getenv S) (st_unmarshal S) (st_readFile S configPath) of
        Err e \<Rightarrow> Err (Ctx ''failed to load config'' e)
      | Panic p \<Rightarrow> Panic p
      | Ret cfg \<Rightarrow>
          let (cfg, sessionTimeout) = apply_flags f (ApplyEnvOverrides (st_host S) (st_getenv S) cfg)
          in case validateConfig (st_host S) (st_quote S) (st_wdErr S) (st_stat S) cfg of
               Err e \<Rightarrow> Err (Ctx ''invalid configuration'' e)
             | Panic p \<Rightarrow> Panic p
             | Ret cfg \<Rightarrow> Ret (cfg, sessionTimeout))"

text \<open>The server before its tools are registered: its sessions are restored.\<close>

definition boot :: "host \<Rightarrow> (nat \<Rightarrow> 'db) \<Rightarrow> Config \<Rightarrow> int \<Rightarrow> store_dir \<Rightarrow> 'db server" where
  "boot h dbs cfg sessionTimeout d =
     SetSecurity h (cfg_Bind cfg) (cfg_EnablePyEval cfg) (cfg_AllowedRoots cfg)
       (New (NewRegistry (cfg_MaxConcurrentSession cfg)) NewManager dbs sessionTimeout (Some d))"

definition main_start ::
  "start_env \<Rightarrow> 'db env \<Rightarrow> (nat \<Rightarrow> 'db) \<Rightarrow> flags \<Rightarrow> string \<Rightarrow> (Config \<times> 'db server \<times> background list) go" where
  "main_start S E dbs f configPath =
     (case load_configuration S f configPath of
        Err e \<Rightarrow> Err e
      | Panic p \<Rightarrow> Panic p
      | Ret (cfg, sessionTimeout) \<Rightarrow>
          let stateDir = Join (cfg_DatabaseDirectory cfg) ''sessions''
          in case NewStore (st_mkdir S stateDir) of
               Err e \<Rightarrow> Err (Ctx ''failed to initialize session store'' e)
             | Panic p \<Rightarrow> Panic p
             | Ret _ \<Rightarrow>
                 let (jobs, s) = RestoreSessions E (boot (st_host S) dbs cfg sessionTimeout (st_files S stateDir))
                 in Ret (cfg, PromoteIfSessions (ev_order E) (RegisterTools s), jobs))"

text \<open>The handler of an interrupt: the worker of every session is stopped, errors are logged.\<close>

definition shutdown_workers :: "'db env \<Rightarrow> 'db server \<Rightarrow> 'db server" where
  "shutdown_workers E s =
     fold (\<lambda>sess s. snd (workers_Stop E (se_ID (session_of s sess)) s)) (registry_List (ev_order E) (sv_registry s)) s"

section \<open>Restoring keeps what the configuration set\<close>

definition boot_inv :: "string \<Rightarrow> bool \<Rightarrow> string list \<Rightarrow> int \<Rightarrow> 'db server \<Rightarrow> bool" where
  "boot_inv bind py roots m s \<longleftrightarrow>
     registry_inv (sv_registry s) \<and> outputs_inv (sv_outputs s) \<and> caches_ok s \<and> sv_tools s = [] \<and> sv_tier s = 0 \<and>
     sv_enablePyEval s = py \<and> sv_bind s = bind \<and> sv_allowedRoots s = roots \<and> rg_maxSessions (sv_registry s) = m"

lemma boot_inv_boot:
  "boot_inv (cfg_Bind cfg) (cfg_EnablePyEval cfg) (normalizeRoots (h_cwd h) (h_EvalSymlinks h) (cfg_AllowedRoots cfg))
     (cfg_MaxConcurrentSession cfg) (boot h dbs cfg t d)"
  unfolding boot_def boot_inv_def
  by (simp add: SetSecurity_def New_def registry_inv_New outputs_inv_new caches_ok_def) (simp add: NewRegistry_def)

lemma boot_inv_parts:
  assumes "boot_inv b py roots m s"
  shows "boot_inv b py roots m (on_registry (registry_Delete sid) s)" "boot_inv b py roots m (deleteSessionCache sid s)"
    "boot_inv b py roots m (deleteSessionState E sid s)" "boot_inv b py roots m (snd (workers_Stop E sid s))"
    "boot_inv b py roots m (recordProgress now sid st msg x y s)"
proof -
  have reg: "registry_inv (sv_registry s)" using assms by (simp add: boot_inv_def)
  show "boot_inv b py roots m (on_registry (registry_Delete sid) s)"
    using assms registry_inv_Delete(1) [OF reg]
    by (simp add: boot_inv_def on_registry_def caches_ok_def) (simp add: registry_Delete_def split: option.splits)
  show "boot_inv b py roots m (deleteSessionCache sid s)" "boot_inv b py roots m (deleteSessionState E sid s)"
    "boot_inv b py roots m (snd (workers_Stop E sid s))" "boot_inv b py roots m (recordProgress now sid st msg x y s)"
    using assms
    by (auto simp: boot_inv_def deleteSessionCache_def deleteSessionState_def workers_Stop_cases recordProgress_def caches_ok_def
        split: option.splits prod.splits)
qed

lemma boot_inv_Start:
  assumes "boot_inv b py roots m s" and "workers_Start E sess path s = (r, s')"
  shows "boot_inv b py roots m s'"
proof -
  have pid: "boot_inv b py roots m (on_registry (on_session sess (\<lambda>x. x\<lparr>se_WorkerPID := n\<rparr>)) t)" if "boot_inv b py roots m t" for n t
    using that registry_inv_on_session [of "\<lambda>x. x\<lparr>se_WorkerPID := n\<rparr>" "sv_registry t" sess]
    by (simp add: boot_inv_def on_registry_def caches_ok_def) (simp add: on_session_def)
  have "boot_inv b py roots m (s\<lparr>sv_workers := w\<rparr>)" for w using assms(1) by (simp add: boot_inv_def caches_ok_def)
  then show ?thesis using assms pid by (auto simp: workers_Start_cases split: go.splits)
qed

lemma boot_inv_restore_one:
  assumes s: "boot_inv b py roots m s"
  shows "boot_inv b py roots m (snd (restore_one E meta s))"
proof -
  obtain r reg where c: "registry_Restore (os_draw (ev_os E) (md_ID meta)) meta (sv_registry s) = (r, reg)" by (rule prod.exhaust)
  have "registry_inv reg"
    using registry_inv_Restore [of "sv_registry s" "os_draw (ev_os E) (md_ID meta)" meta] s c by (simp add: boot_inv_def)
  moreover have "rg_maxSessions reg = rg_maxSessions (sv_registry s)"
    using c by (auto simp: registry_Restore_def fail_def Let_def registry_insert_def split: if_splits prod.splits)
  ultimately have reg: "boot_inv b py roots m (s\<lparr>sv_registry := reg\<rparr>)" using s by (simp add: boot_inv_def caches_ok_def)
  have drop: "boot_inv b py roots m (deleteSessionCache sid (deleteSessionState E sid (on_registry (registry_Delete sid) s')))"
    if "boot_inv b py roots m s'" for sid s'
    using that by (intro boot_inv_parts(1-3))
  show ?thesis
    using s reg c
    by (auto simp: restore_one_def Let_def intro!: boot_inv_parts(3) drop boot_inv_parts(4,5)
        dest: boot_inv_Start [OF reg] split: go.splits prod.splits)
qed

lemma boot_inv_restore: "boot_inv b py roots m s \<Longrightarrow> boot_inv b py roots m (snd (RestoreSessions E s))"
proof -
  have "boot_inv b py roots m s \<Longrightarrow> boot_inv b py roots m (snd (restore_all E metas s))" for metas
    by (induction metas arbitrary: s) (simp_all add: Let_def case_prod_unfold boot_inv_restore_one)
  then show "boot_inv b py roots m s \<Longrightarrow> ?thesis" by (auto simp: RestoreSessions_def split: option.splits go.splits)
qed

lemma add_tools_keep:
  "sv_bind (add_tool n s) = sv_bind s" "sv_allowedRoots (add_tool n s) = sv_allowedRoots s"
  "sv_bind (fold add_tool ns s) = sv_bind s" "sv_allowedRoots (fold add_tool ns s) = sv_allowedRoots s"
proof -
  show one: "sv_bind (add_tool n s) = sv_bind s" "sv_allowedRoots (add_tool n s) = sv_allowedRoots s" for n and s :: "'a server"
    by (simp_all add: add_tool_def)
  show "sv_bind (fold add_tool ns s) = sv_bind s" "sv_allowedRoots (fold add_tool ns s) = sv_allowedRoots s"
    by (induction ns arbitrary: s) (simp_all add: one)
qed

lemma registerTier_keep:
  "sv_bind (registerTier1 s) = sv_bind s" "sv_allowedRoots (registerTier1 s) = sv_allowedRoots s"
  "sv_bind (registerTier2 s) = sv_bind s" "sv_allowedRoots (registerTier2 s) = sv_allowedRoots s"
  unfolding registerTier1_def registerTier2_def Let_def if_distrib [of sv_bind] if_distrib [of sv_allowedRoots]
  by (simp_all only: add_tools_keep if_cancel)

lemma tools_keep_settings:
  "sv_bind (RegisterTools s) = sv_bind s" "sv_allowedRoots (RegisterTools s) = sv_allowedRoots s"
  "sv_bind (PromoteIfSessions order s) = sv_bind s" "sv_allowedRoots (PromoteIfSessions order s) = sv_allowedRoots s"
  unfolding RegisterTools_def registerTier0_def
  by (simp_all only: add_tools_keep) (simp_all add: PromoteIfSessions_def promoteToTier_def Let_def registerTier_keep)

lemma server_inv_registered:
  assumes "boot_inv b py roots m s"
  shows "server_inv py (PromoteIfSessions order (RegisterTools s)) \<and>
     sv_registry (PromoteIfSessions order (RegisterTools s)) = sv_registry s"
proof -
  have same: "sv_registry (fold add_tool ns s) = sv_registry s \<and> sv_outputs (fold add_tool ns s) = sv_outputs s \<and>
      sv_cache (fold add_tool ns s) = sv_cache s" for ns and s :: "'a server"
    by (induction ns arbitrary: s) (simp_all add: add_tool_same)
  have reg: "sv_registry (RegisterTools s) = sv_registry s" "sv_outputs (RegisterTools s) = sv_outputs s"
    "sv_cache (RegisterTools s) = sv_cache s"
    unfolding RegisterTools_def registerTier0_def by (simp_all only: same)
  have "tools_ok (RegisterTools s)" "sv_enablePyEval (RegisterTools s) = py"
    using assms unfolding RegisterTools_def registerTier0_def tier0ToolNames_def [symmetric]
    by (simp_all add: tools_ok_def add_tools boot_inv_def)
  then have "server_inv py (RegisterTools s)" using assms reg by (simp add: server_inv_def boot_inv_def caches_ok_def)
  then show ?thesis using reg by (simp add: PromoteIfSessions_def server.promote)
qed

section \<open>The server that main starts\<close>

lemma main_start_boot:
  assumes "main_start S E dbs f configPath = Ret (cfg, s, jobs)"
  shows "\<exists>t. load_configuration S f configPath = Ret (cfg, t) \<and>
     (let restored = RestoreSessions E (boot (st_host S) dbs cfg t (st_files S (Join (cfg_DatabaseDirectory cfg) ''sessions'')))
      in jobs = fst restored \<and> s = PromoteIfSessions (ev_order E) (RegisterTools (snd restored)))"
proof -
  obtain cfg' t where l: "load_configuration S f configPath = Ret (cfg', t)"
    using assms by (cases "load_configuration S f configPath") (auto simp: main_start_def)
  show ?thesis
    using assms l
    by (cases "NewStore (st_mkdir S (Join (cfg_DatabaseDirectory cfg') ''sessions''))")
      (auto simp: main_start_def Let_def case_prod_unfold)
qed

lemma main_start_inv:
  assumes "main_start S E dbs f configPath = Ret (cfg, s, jobs)"
  shows "server_inv (cfg_EnablePyEval cfg) s \<and> sv_bind s = cfg_Bind cfg \<and> sv_enablePyEval s = cfg_EnablePyEval cfg \<and>
     sv_allowedRoots s = normalizeRoots (h_cwd (st_host S)) (h_EvalSymlinks (st_host S)) (cfg_AllowedRoots cfg) \<and>
     rg_maxSessions (sv_registry s) = cfg_MaxConcurrentSession cfg"
proof -
  obtain t d where s: "s = PromoteIfSessions (ev_order E) (RegisterTools (snd (RestoreSessions E (boot (st_host S) dbs cfg t d))))"
    using main_start_boot [OF assms] by (auto simp: Let_def)
  have b: "boot_inv (cfg_Bind cfg) (cfg_EnablePyEval cfg)
      (normalizeRoots (h_cwd (st_host S)) (h_EvalSymlinks (st_host S)) (cfg_AllowedRoots cfg)) (cfg_MaxConcurrentSession cfg)
      (snd (RestoreSessions E (boot (st_host S) dbs cfg t d)))"
    by (intro boot_inv_restore boot_inv_boot)
  from server_inv_registered [OF this, of "ev_order E"] b show ?thesis
    unfolding s by (simp add: tools_keep_settings boot_inv_def) (simp add: server_inv_def)
qed

text \<open>C1: the invariant of the whole server, from its start by main with any configuration and any
  store of sessions to restore, through any tools, background loads and analyses, ends of requests,
  watchdog ticks and restores in any order, with other steps in between while a request waits; tools
  only run when they are registered, and a drawn id is new. Every registered session is found under
  its own id and by its own path, the limit on sessions holds, the visible tools are those of the
  tier, py_eval is registered only if the configuration enables it, the store of truncated outputs
  is consistent and bounded, and every session cache is consistent.\<close>

theorem started_server_ok:
  assumes "main_start S E dbs f configPath = Ret (cfg, s0, jobs)" and "server_step\<^sup>*\<^sup>* s0 s"
  shows "(\<forall>sid sess. registry_Get (sv_registry s) sid = Some sess \<longrightarrow> se_ID (session_of s sess) = sid) \<and>
    (\<forall>path sess. FindByBinaryPath (sv_registry s) path = Some sess \<longrightarrow>
       se_BinaryPath (session_of s sess) = Clean path \<and> registry_Get (sv_registry s) (se_ID (session_of s sess)) = Some sess) \<and>
    (0 < rg_maxSessions (sv_registry s) \<longrightarrow> int (map_len (rg_sessions (sv_registry s))) \<le> rg_maxSessions (sv_registry s)) \<and>
    set (sv_tools s) = set tier0ToolNames \<union> (if 1 \<le> sv_tier s then set (tier1Tools s) else {}) \<union>
       (if 2 \<le> sv_tier s then set tier2ToolNames else {}) \<and>
    (''py_eval'' \<in> set (sv_tools s) \<longrightarrow> cfg_EnablePyEval cfg) \<and>
    outputs_inv (sv_outputs s) \<and> (\<forall>sid c. sv_cache s sid = Some c \<longrightarrow> cache_inv c)"
  by (rule server_inv_facts) (rule server_inv_reachable [OF assms(2) main_start_inv [OF assms(1), THEN conjunct1]])

text \<open>A start without file, variables and flags, on a machine that has the worker script.\<close>

definition bare_start :: start_env where
  "bare_start =
     \<lparr>st_host = \<lparr>h_GOOS = ''linux'', h_ToLower = (\<lambda>s. s), h_cwd = Some ''/srv'', h_EvalSymlinks = (\<lambda>_. None)\<rparr>,
      st_getenv = (\<lambda>_. []), st_readFile = (\<lambda>_. FileMissing), st_unmarshal = (\<lambda>_ _. Inl (Msg ''no JSON'')),
      st_quote = (\<lambda>s. s), st_wdErr = Msg ''no directory'', st_stat = (\<lambda>_. Inr (False, 73)),
      st_mkdir = (\<lambda>_. None), st_files = (\<lambda>_. Map.empty)\<rparr>"

lemma bare_load:
  assumes "fl_bind f = [] \<and> fl_worker f = [] \<and> fl_maxSessions f = 0 \<and> \<not> fl_enablePyEval f"
  shows "\<exists>cfg t. load_configuration bare_start f configPath = Ret (cfg, t) \<and> cfg_MaxConcurrentSession cfg = 0 \<and>
     cfg_AllowedRoots cfg = SplitList (fl_allowedRoots f) \<and> \<not> cfg_EnablePyEval cfg \<and> cfg_Bind cfg = DefaultBind"
proof -
  have db: "GetDefaultDBDir (\<lambda>_. []) = ''/tmp/ida_sessions''" by (simp add: GetDefaultDBDir_def)
  have path: "\<exists>p. Abs (Some ''/srv'') defaultWorkerPath = Some p" by (simp add: Abs_def)
  then show ?thesis
    using assms
    by (auto simp: load_configuration_def bare_start_def LoadConfig_def initial_config_def db ApplyEnvOverrides_def Let_def
        override_text_def override_int_def override_bool_def apply_flags_def validateConfig_def
        defaultMaxSessions_def defaultWorkerPath_def SplitList_def)
qed

lemma bare_main_start:
  assumes "os_listing (ev_os E) = []" and "os_io (ev_os E) = io_ok" and "ev_order E = []"
  shows "\<exists>cfg s. main_start bare_start E dbs (no_flags\<lparr>fl_allowedRoots := roots\<rparr>) configPath = Ret (cfg, s, []) \<and>
     cfg_AllowedRoots cfg = SplitList roots \<and> \<not> cfg_EnablePyEval cfg \<and> cfg_Bind cfg = DefaultBind"
proof -
  obtain cfg t where l: "load_configuration bare_start (no_flags\<lparr>fl_allowedRoots := roots\<rparr>) configPath = Ret (cfg, t)"
    "cfg_AllowedRoots cfg = SplitList roots" "\<not> cfg_EnablePyEval cfg" "cfg_Bind cfg = DefaultBind"
    using bare_load [of "no_flags\<lparr>fl_allowedRoots := roots\<rparr>" configPath] by (auto simp: no_flags_def)
  have store: "NewStore (st_mkdir bare_start d) = Ret ()" for d by (simp add: NewStore_def bare_start_def)
  have "fst (RestoreSessions E (boot h dbs cfg t d)) = []" for h d
    using assms by (simp add: RestoreSessions_def boot_def SetSecurity_def New_def store_Load_def io_ok_def)
  then show ?thesis using l store by (simp add: main_start_def Let_def case_prod_unfold)
qed

lemma env_exists: "\<exists>E :: 'db env. os_listing (ev_os E) = [] \<and> os_io (ev_os E) = io_ok \<and> ev_order E = []"
proof -
  have "os_listing (ev_os (E\<lparr>ev_os := (ev_os E)\<lparr>os_listing := [], os_io := io_ok\<rparr>, ev_order := []\<rparr>)) = [] \<and>
    os_io (ev_os (E\<lparr>ev_os := (ev_os E)\<lparr>os_listing := [], os_io := io_ok\<rparr>, ev_order := []\<rparr>)) = io_ok \<and>
    ev_order (E\<lparr>ev_os := (ev_os E)\<lparr>os_listing := [], os_io := io_ok\<rparr>, ev_order := []\<rparr>) = []" for E :: "'db env" by simp
  then show ?thesis by blast
qed

theorem started_server_ok_witness:
  "\<exists>(E :: nat env) cfg s. main_start bare_start E (\<lambda>_. 0) no_flags ''config.json'' = Ret (cfg, s, []) \<and>
     \<not> cfg_EnablePyEval cfg \<and> set tier0ToolNames \<subseteq> set (sv_tools s) \<and> ''py_eval'' \<notin> set (sv_tools s) \<and> outputs_inv (sv_outputs s)"
proof -
  obtain E :: "nat env" where "os_listing (ev_os E) = []" "os_io (ev_os E) = io_ok" "ev_order E = []" using env_exists by blast
  from bare_main_start [OF this, of "\<lambda>_. 0" "[]" "''config.json''"] obtain cfg s
    where m: "main_start bare_start E (\<lambda>_. 0) no_flags ''config.json'' = Ret (cfg, s, [])" and py: "\<not> cfg_EnablePyEval cfg"
    by (auto simp: no_flags_def)
  have step: "server_step\<^sup>*\<^sup>* s s" by simp
  show ?thesis using started_server_ok [OF m step] m py by blast
qed

section \<open>What the settings of the server come from\<close>

lemma normalizeRoots_blank: "normalizeRoots cwd links roots = [] \<longleftrightarrow> (\<forall>r \<in> set roots. TrimSpace r = [])"
  by (induction roots) (simp_all add: Let_def)

lemma parseBool_empty: "parseBool h [] = (False, False)"
proof -
  have "TrimSpace [] = []" by code_simp
  then show ?thesis by (simp add: parseBool_def ToLower_def ascii_def)
qed

lemma Atoi_empty: "Atoi [] = None"
  by (simp add: Atoi_def)

lemma override_fields:
  "cfg_Bind (override_text v cfg_Bind_update c) = (if v \<noteq> [] then v else cfg_Bind c)"
  "cfg_MaxConcurrentSession (override_int v cfg_MaxConcurrentSession_update c) =
     (case Atoi v of Some n \<Rightarrow> n | None \<Rightarrow> cfg_MaxConcurrentSession c)"
  "cfg_EnablePyEval (override_bool h v cfg_EnablePyEval_update c) =
     (case parseBool h v of (b, ok) \<Rightarrow> if ok then b else cfg_EnablePyEval c)"
  by (simp_all add: override_text_def override_int_def override_bool_def parseBool_empty Atoi_empty split: option.split prod.split)

lemma override_keeps:
  "cfg_Bind (override_text v cfg_PythonWorkerPath_update c) = cfg_Bind c"
  "cfg_Bind (override_int v cfg_Port_update c) = cfg_Bind c"
  "cfg_Bind (override_int v cfg_SessionTimeoutMin_update c) = cfg_Bind c"
  "cfg_Bind (override_int v cfg_MaxConcurrentSession_update c) = cfg_Bind c"
  "cfg_Bind (override_bool h v cfg_Debug_update c) = cfg_Bind c"
  "cfg_Bind (override_bool h v cfg_EnablePyEval_update c) = cfg_Bind c"
  "cfg_MaxConcurrentSession (override_text v cfg_PythonWorkerPath_update c) = cfg_MaxConcurrentSession c"
  "cfg_MaxConcurrentSession (override_text v cfg_Bind_update c) = cfg_MaxConcurrentSession c"
  "cfg_MaxConcurrentSession (override_int v cfg_Port_update c) = cfg_MaxConcurrentSession c"
  "cfg_MaxConcurrentSession (override_int v cfg_SessionTimeoutMin_update c) = cfg_MaxConcurrentSession c"
  "cfg_MaxConcurrentSession (override_bool h v cfg_Debug_update c) = cfg_MaxConcurrentSession c"
  "cfg_MaxConcurrentSession (override_bool h v cfg_EnablePyEval_update c) = cfg_MaxConcurrentSession c"
  "cfg_EnablePyEval (override_text v cfg_PythonWorkerPath_update c) = cfg_EnablePyEval c"
  "cfg_EnablePyEval (override_text v cfg_Bind_update c) = cfg_EnablePyEval c"
  "cfg_EnablePyEval (override_int v cfg_Port_update c) = cfg_EnablePyEval c"
  "cfg_EnablePyEval (override_int v cfg_SessionTimeoutMin_update c) = cfg_EnablePyEval c"
  "cfg_EnablePyEval (override_int v cfg_MaxConcurrentSession_update c) = cfg_EnablePyEval c"
  "cfg_EnablePyEval (override_bool h v cfg_Debug_update c) = cfg_EnablePyEval c"
  "cfg_AllowedRoots (override_text v cfg_PythonWorkerPath_update c) = cfg_AllowedRoots c"
  "cfg_AllowedRoots (override_text v cfg_Bind_update c) = cfg_AllowedRoots c"
  "cfg_AllowedRoots (override_int v cfg_Port_update c) = cfg_AllowedRoots c"
  "cfg_AllowedRoots (override_int v cfg_SessionTimeoutMin_update c) = cfg_AllowedRoots c"
  "cfg_AllowedRoots (override_int v cfg_MaxConcurrentSession_update c) = cfg_AllowedRoots c"
  "cfg_AllowedRoots (override_bool h v cfg_Debug_update c) = cfg_AllowedRoots c"
  "cfg_AllowedRoots (override_bool h v cfg_EnablePyEval_update c) = cfg_AllowedRoots c"
  by (simp_all add: override_text_def override_int_def override_bool_def split: option.split prod.split)

lemma cfg_if:
  "cfg_Bind (if b then c else c') = (if b then cfg_Bind c else cfg_Bind c')"
  "cfg_MaxConcurrentSession (if b then c else c') = (if b then cfg_MaxConcurrentSession c else cfg_MaxConcurrentSession c')"
  "cfg_EnablePyEval (if b then c else c') = (if b then cfg_EnablePyEval c else cfg_EnablePyEval c')"
  "cfg_AllowedRoots (if b then c else c') = (if b then cfg_AllowedRoots c else cfg_AllowedRoots c')"
  by simp_all

lemma ApplyEnvOverrides_fields:
  "cfg_Bind (ApplyEnvOverrides h getenv c) = (if getenv ''IDA_PILOT_BIND'' \<noteq> [] then getenv ''IDA_PILOT_BIND'' else cfg_Bind c)"
  "cfg_MaxConcurrentSession (ApplyEnvOverrides h getenv c) =
     (case Atoi (getenv ''IDA_PILOT_MAX_SESSIONS'') of Some n \<Rightarrow> n | None \<Rightarrow> cfg_MaxConcurrentSession c)"
  "cfg_EnablePyEval (ApplyEnvOverrides h getenv c) =
     (case parseBool h (getenv ''IDA_PILOT_ENABLE_PY_EVAL'') of (b, ok) \<Rightarrow> if ok then b else cfg_EnablePyEval c)"
  "cfg_AllowedRoots (ApplyEnvOverrides h getenv c) =
     (if getenv ''IDA_PILOT_ALLOWED_ROOTS'' \<noteq> [] then SplitList (getenv ''IDA_PILOT_ALLOWED_ROOTS'') else cfg_AllowedRoots c)"
  unfolding ApplyEnvOverrides_def Let_def by (simp_all add: cfg_if override_fields override_keeps split del: if_split cong: if_cong option.case_cong)

lemma apply_flags_fields:
  "cfg_Bind (fst (apply_flags f c)) = (if fl_bind f \<noteq> [] then fl_bind f else cfg_Bind c)"
  "cfg_MaxConcurrentSession (fst (apply_flags f c)) = (if 0 < fl_maxSessions f then fl_maxSessions f else cfg_MaxConcurrentSession c)"
  "cfg_EnablePyEval (fst (apply_flags f c)) = (fl_enablePyEval f \<or> cfg_EnablePyEval c)"
  "cfg_AllowedRoots (fst (apply_flags f c)) = (if fl_allowedRoots f \<noteq> [] then SplitList (fl_allowedRoots f) else cfg_AllowedRoots c)"
  unfolding apply_flags_def Let_def fst_conv by (simp_all add: cfg_if split del: if_split cong: if_cong) simp

text \<open>The value of a setting: the flag if it is given, else the variable if it parses, else the
  value of the file or its default.\<close>

lemma configured:
  assumes "load_configuration S f configPath = Ret (cfg, t)"
  shows "\<exists>file_cfg. LoadConfig (st_getenv S) (st_unmarshal S) (st_readFile S configPath) = Ret file_cfg \<and>
     cfg_Bind cfg = (if fl_bind f \<noteq> [] then fl_bind f
       else if st_getenv S ''IDA_PILOT_BIND'' \<noteq> [] then st_getenv S ''IDA_PILOT_BIND'' else cfg_Bind file_cfg) \<and>
     cfg_EnablePyEval cfg = (fl_enablePyEval f \<or>
       (case parseBool (st_host S) (st_getenv S ''IDA_PILOT_ENABLE_PY_EVAL'') of (v, ok) \<Rightarrow> if ok then v else cfg_EnablePyEval file_cfg)) \<and>
     cfg_MaxConcurrentSession cfg = (if 0 < fl_maxSessions f then fl_maxSessions f
       else case Atoi (st_getenv S ''IDA_PILOT_MAX_SESSIONS'') of Some n \<Rightarrow> n | None \<Rightarrow> cfg_MaxConcurrentSession file_cfg) \<and>
     0 \<le> cfg_MaxConcurrentSession cfg \<and>
     cfg_AllowedRoots cfg = (if fl_allowedRoots f \<noteq> [] then SplitList (fl_allowedRoots f)
       else if st_getenv S ''IDA_PILOT_ALLOWED_ROOTS'' \<noteq> [] then SplitList (st_getenv S ''IDA_PILOT_ALLOWED_ROOTS'')
       else cfg_AllowedRoots file_cfg)"
proof -
  obtain file_cfg where loaded: "LoadConfig (st_getenv S) (st_unmarshal S) (st_readFile S configPath) = Ret file_cfg"
    using assms by (cases "LoadConfig (st_getenv S) (st_unmarshal S) (st_readFile S configPath)") (auto simp: load_configuration_def)
  define c where "c = fst (apply_flags f (ApplyEnvOverrides (st_host S) (st_getenv S) file_cfg))"
  have v: "validateConfig (st_host S) (st_quote S) (st_wdErr S) (st_stat S) c = Ret cfg"
    using assms loaded unfolding c_def
    by (auto simp: load_configuration_def case_prod_unfold Let_def split: go.splits)
  then have same: "\<exists>p. cfg = c\<lparr>cfg_PythonWorkerPath := p\<rparr>" and "0 \<le> cfg_MaxConcurrentSession c"
    by (auto simp: validateConfig_def split: if_splits option.splits sum.splits prod.splits)
  then have "cfg_Bind cfg = cfg_Bind c" "cfg_EnablePyEval cfg = cfg_EnablePyEval c"
    "cfg_MaxConcurrentSession cfg = cfg_MaxConcurrentSession c" "cfg_AllowedRoots cfg = cfg_AllowedRoots c"
    "0 \<le> cfg_MaxConcurrentSession cfg" by auto
  then show ?thesis using loaded by (intro exI [of _ file_cfg]) (simp add: c_def apply_flags_fields ApplyEnvOverrides_fields)
qed

text \<open>C17: the settings that guard a running server. Its bind address is that of the flag, else of the
  variable, else of the file; py_eval is enabled by the flag, or as the variable says if it parses,
  or as the file says; the limit on sessions is never negative. A server confines paths exactly when
  some configured root is not blank: with a flag, variable or file that names only blank roots
  (a list separator alone, say), every path is accepted unchanged.\<close>

theorem main_start_config:
  assumes "main_start S E dbs f configPath = Ret (cfg, s, jobs)"
  shows "\<exists>file_cfg. LoadConfig (st_getenv S) (st_unmarshal S) (st_readFile S configPath) = Ret file_cfg \<and>
     sv_bind s = (if fl_bind f \<noteq> [] then fl_bind f
       else if st_getenv S ''IDA_PILOT_BIND'' \<noteq> [] then st_getenv S ''IDA_PILOT_BIND'' else cfg_Bind file_cfg) \<and>
     sv_enablePyEval s = (fl_enablePyEval f \<or>
       (case parseBool (st_host S) (st_getenv S ''IDA_PILOT_ENABLE_PY_EVAL'') of (v, ok) \<Rightarrow> if ok then v else cfg_EnablePyEval file_cfg)) \<and>
     0 \<le> rg_maxSessions (sv_registry s) \<and>
     (let roots = (if fl_allowedRoots f \<noteq> [] then SplitList (fl_allowedRoots f)
                   else if st_getenv S ''IDA_PILOT_ALLOWED_ROOTS'' \<noteq> [] then SplitList (st_getenv S ''IDA_PILOT_ALLOWED_ROOTS'')
                   else cfg_AllowedRoots file_cfg)
      in (sv_allowedRoots s \<noteq> [] \<longleftrightarrow> (\<exists>r \<in> set roots. TrimSpace r \<noteq> [])) \<and>
         ((\<forall>r \<in> set roots. TrimSpace r = []) \<longrightarrow> (\<forall>h label p. validatePath h (sv_allowedRoots s) label p = Ret p)))"
proof -
  obtain t where "load_configuration S f configPath = Ret (cfg, t)" using main_start_boot [OF assms] by blast
  from configured [OF this] obtain file_cfg where loaded: "LoadConfig (st_getenv S) (st_unmarshal S) (st_readFile S configPath) = Ret file_cfg"
    and c: "cfg_Bind cfg = (if fl_bind f \<noteq> [] then fl_bind f
       else if st_getenv S ''IDA_PILOT_BIND'' \<noteq> [] then st_getenv S ''IDA_PILOT_BIND'' else cfg_Bind file_cfg)"
    "cfg_EnablePyEval cfg = (fl_enablePyEval f \<or>
       (case parseBool (st_host S) (st_getenv S ''IDA_PILOT_ENABLE_PY_EVAL'') of (v, ok) \<Rightarrow> if ok then v else cfg_EnablePyEval file_cfg))"
    "0 \<le> cfg_MaxConcurrentSession cfg"
    "cfg_AllowedRoots cfg = (if fl_allowedRoots f \<noteq> [] then SplitList (fl_allowedRoots f)
       else if st_getenv S ''IDA_PILOT_ALLOWED_ROOTS'' \<noteq> [] then SplitList (st_getenv S ''IDA_PILOT_ALLOWED_ROOTS'')
       else cfg_AllowedRoots file_cfg)" by (elim exE conjE) (rule that)
  from main_start_inv [OF assms] have i: "sv_bind s = cfg_Bind cfg" "sv_enablePyEval s = cfg_EnablePyEval cfg"
    "rg_maxSessions (sv_registry s) = cfg_MaxConcurrentSession cfg" by simp_all
  have open_path: "validatePath h [] label p = Ret p" for h label p by (simp add: validatePath_def)
  have blank: "sv_allowedRoots s = [] \<longleftrightarrow> (\<forall>r \<in> set (cfg_AllowedRoots cfg). TrimSpace r = [])"
    using main_start_inv [OF assms] by (simp only: normalizeRoots_blank)
  have roots: "(sv_allowedRoots s \<noteq> [] \<longleftrightarrow> (\<exists>r \<in> set (cfg_AllowedRoots cfg). TrimSpace r \<noteq> [])) \<and>
     ((\<forall>r \<in> set (cfg_AllowedRoots cfg). TrimSpace r = []) \<longrightarrow> (\<forall>h label p. validatePath h (sv_allowedRoots s) label p = Ret p))"
    using blank open_path by metis
  show ?thesis
    unfolding Let_def using loaded i(1) [unfolded c(1)] i(2) [unfolded c(2)] c(3) [folded i(3)] roots [unfolded c(4)]
    by (intro exI [of _ file_cfg]) (elim conjE, intro conjI; assumption)
qed

theorem main_start_config_witness:
  "\<exists>(E :: nat env) cfg s. main_start bare_start E (\<lambda>_. 0) (no_flags\<lparr>fl_allowedRoots := '':''\<rparr>) ''config.json'' = Ret (cfg, s, []) \<and>
     cfg_AllowedRoots cfg \<noteq> [] \<and> validatePath (st_host bare_start) (sv_allowedRoots s) ''path'' ''/etc/passwd'' = Ret ''/etc/passwd'' \<and>
     sv_bind s = DefaultBind \<and> \<not> sv_enablePyEval s"
proof -
  obtain E :: "nat env" where "os_listing (ev_os E) = []" "os_io (ev_os E) = io_ok" "ev_order E = []" using env_exists by blast
  from bare_main_start [OF this, of "\<lambda>_. 0" "'':''" "''config.json''"] obtain cfg s
    where m: "main_start bare_start E (\<lambda>_. 0) (no_flags\<lparr>fl_allowedRoots := '':''\<rparr>) ''config.json'' = Ret (cfg, s, [])"
      and roots: "cfg_AllowedRoots cfg = SplitList '':''" by blast
  have blank: "SplitList '':'' = [[], []]" "TrimSpace [] = []" by code_simp+
  have load: "LoadConfig (st_getenv bare_start) (st_unmarshal bare_start) (st_readFile bare_start p) = Ret (initial_config (\<lambda>_. []))" for p
    by (simp add: LoadConfig_def bare_start_def)
  have none: "st_getenv bare_start = (\<lambda>_. [])" by (simp add: bare_start_def)
  have "validatePath (st_host bare_start) (sv_allowedRoots s) ''path'' ''/etc/passwd'' = Ret ''/etc/passwd''"
    "sv_bind s = DefaultBind" "\<not> sv_enablePyEval s"
    using main_start_config [OF m] load by (auto simp: no_flags_def none parseBool_empty blank initial_config_def Let_def)
  moreover have "cfg_AllowedRoots cfg \<noteq> []" using roots blank by simp
  ultimately show ?thesis using m by blast
qed

end
