(* ===== verification/Expiry.thy ===== *)
theory Expiry
  imports Lifecycle
begin

text \<open>
  What the watchdog does to the sessions (Watchdog and cleanupExpiredSessions of
  internal/server/session.go) and what a failed open_binary leaves behind.
\<close>

section \<open>The teardown of one session\<close>

text \<open>What the teardown of one session leaves alone: everything that is kept under another id.\<close>

definition drop_session :: "'db env \<Rightarrow> string \<Rightarrow> 'db server \<Rightarrow> 'db server" where
  "drop_session E sid s =
     clearProgress sid (deleteSessionCache sid (deleteSessionState E sid
       (on_registry (registry_Delete sid) (snd (workers_Stop E sid s)))))"

lemma cleanup_Cons:
  "cleanupExpiredSessions E (sess # expired) s =
     (if HasInFlight (session_of s sess) \<or> \<not> IsExpired (ev_now E) (session_of s sess)
      then cleanupExpiredSessions E expired s
      else apfst (\<lambda>n. n + 1) (cleanupExpiredSessions E expired (drop_session E (se_ID (session_of s sess)) s)))"
  by (simp add: drop_session_def Let_def split: prod.splits)

declare cleanupExpiredSessions.simps(2) [simp del]

lemma registry_Delete_simps:
  "rg_heap (registry_Delete sid r) = rg_heap r"
  "rg_sessions (registry_Delete sid r) = (rg_sessions r)(sid := None)"
  by (auto simp: registry_Delete_def fun_upd_idem split: option.splits)

lemma manager_Stop_other:
  "sid \<noteq> k \<Longrightarrow> mg_sessions (snd (manager_Stop io k m)) sid = mg_sessions m sid"
  by (auto simp: manager_Stop_def manager_GetClient_def stopWorker_def monitorWorker_def and_then_def
      split: option.splits go.splits)

lemma manager_Stop_removes: "st_error io = None \<Longrightarrow> mg_sessions (snd (manager_Stop io k m)) k = None"
  by (auto simp: manager_Stop_def manager_GetClient_def stopWorker_def monitorWorker_def and_then_def upd_def
      split: option.splits go.splits)

lemma drop_session_simps:
  "sv_registry (drop_session E k s) = registry_Delete k (sv_registry s)"
  "session_of (drop_session E k s) ref = session_of s ref"
  "sv_workers (drop_session E k s) = snd (manager_Stop (os_stop (ev_os E) k) k (sv_workers s))"
  "sv_cache (drop_session E k s) = (sv_cache s)(k := None)"
  "sv_progress (drop_session E k s) = (if k = [] then sv_progress s else (sv_progress s)(k := None))"
  "sid \<noteq> k \<Longrightarrow> getProgress sid (drop_session E k s) = getProgress sid s"
  "sv_store (drop_session E k s) = map_option (\<lambda>d. snd (store_Delete (os_io (ev_os E)) k d)) (sv_store s)"
  "sv_tier (drop_session E k s) = sv_tier s"
  by (auto simp: drop_session_def clearProgress_def deleteSessionCache_def deleteSessionState_def workers_Stop_cases
      getProgress_def session_of_def registry_Delete_simps split: option.splits prod.splits)

lemma store_Delete_other:
  "sid \<noteq> k \<Longrightarrow> snd (store_Delete io k d) (sid @ ''.json'') = d (sid @ ''.json'')"
  by (auto simp: store_Delete_def Let_def split: option.splits)

text \<open>What is kept under the id of a session.\<close>

definition kept_of :: "string \<Rightarrow> nat \<Rightarrow> 'db server \<Rightarrow>
    nat option \<times> session \<times> nat option \<times> sessionCache option \<times> sessionProgress option \<times> dirent option option" where
  "kept_of sid sess s =
     (rg_sessions (sv_registry s) sid, session_of s sess, client_of sid (sv_workers s), sv_cache s sid,
      getProgress sid s, map_option (\<lambda>d. d (sid @ ''.json'')) (sv_store s))"

lemma drop_session_keeps: "sid \<noteq> k \<Longrightarrow> kept_of sid sess (drop_session E k s) = kept_of sid sess s"
  by (simp add: kept_of_def drop_session_simps registry_Delete_simps client_of_sessions manager_Stop_other
      store_Delete_other option.map_comp comp_def)

lemma cleanup_spares:
  assumes "HasInFlight (session_of s sess) \<or> \<not> IsExpired (ev_now E) (session_of s sess)"
    and "\<forall>r \<in> set expired. r \<noteq> sess \<longrightarrow> se_ID (session_of s r) \<noteq> sid"
  shows "kept_of sid sess (snd (cleanupExpiredSessions E expired s)) = kept_of sid sess s"
  using assms
proof (induction expired arbitrary: s)
  case (Cons r expired)
  show ?case
  proof (cases "HasInFlight (session_of s r) \<or> \<not> IsExpired (ev_now E) (session_of s r)")
    case True
    then show ?thesis using Cons by (simp add: cleanup_Cons)
  next
    case False
    then have "r \<noteq> sess" using Cons.prems(1) by blast
    then have other: "sid \<noteq> se_ID (session_of s r)" using Cons.prems(2) by auto
    let ?s = "drop_session E (se_ID (session_of s r)) s"
    have "kept_of sid sess (snd (cleanupExpiredSessions E expired ?s)) = kept_of sid sess ?s"
      using Cons.prems by (intro Cons.IH) (simp_all add: drop_session_simps(2))
    then show ?thesis using False by (simp add: cleanup_Cons drop_session_keeps [OF other])
  qed
qed simp

lemma cleanup_drops:
  assumes "sess \<in> set expired" and "\<not> HasInFlight (session_of s sess)" and "IsExpired (ev_now E) (session_of s sess)"
    and "sid = se_ID (session_of s sess)" and "sid \<noteq> []"
  shows "rg_sessions (sv_registry (snd (cleanupExpiredSessions E expired s))) sid = None \<and>
     sv_cache (snd (cleanupExpiredSessions E expired s)) sid = None \<and>
     getProgress sid (snd (cleanupExpiredSessions E expired s)) = None"
proof -
  let ?gone = "\<lambda>s. rg_sessions (sv_registry s) sid = None \<and> sv_cache s sid = None \<and> getProgress sid s = None"
  have drop: "?gone s \<Longrightarrow> ?gone (drop_session E k s)" for k and s :: "'a server"
    using assms(5) by (simp add: drop_session_simps registry_Delete_simps getProgress_def)
  have stays: "?gone s \<Longrightarrow> ?gone (snd (cleanupExpiredSessions E xs s))" for xs and s :: "'a server"
  proof (induction xs arbitrary: s)
    case (Cons r xs)
    show ?case
      using Cons.IH [OF Cons.prems] Cons.IH [OF drop [OF Cons.prems, of "se_ID (session_of s r)"]]
      by (simp add: cleanup_Cons)
  qed simp
  have "?gone (snd (cleanupExpiredSessions E expired s))"
    using assms(1-4)
  proof (induction expired arbitrary: s)
    case (Cons r expired)
    show ?case
    proof (cases "HasInFlight (session_of s r) \<or> \<not> IsExpired (ev_now E) (session_of s r)")
      case True
      then have "sess \<in> set expired" using Cons.prems by auto
      then show ?thesis using True Cons by (simp add: cleanup_Cons)
    next
      case False
      let ?s = "drop_session E (se_ID (session_of s r)) s"
      have "?gone (snd (cleanupExpiredSessions E expired ?s))"
      proof (cases "r = sess")
        case True
        have "?gone (drop_session E sid s)"
          using assms(5) by (simp add: drop_session_simps registry_Delete_simps getProgress_def)
        then show ?thesis using stays True Cons.prems(4) by simp
      next
        case False
        then show ?thesis using Cons.prems by (intro Cons.IH) (simp_all add: drop_session_simps(2))
      qed
      then show ?thesis using False by (simp add: cleanup_Cons)
    qed
  qed simp
  then show ?thesis .
qed

text \<open>The second half of a tick.\<close>

lemma tools_ok_drop: "tools_ok (drop_session E k s) = tools_ok s"
  by (simp add: drop_session_def clearProgress_def deleteSessionCache_def deleteSessionState_def workers_Stop_cases
      tools_ok_def tier1Tools_def split: option.splits prod.splits)

lemma tools_ok_cleanup: "tools_ok s \<Longrightarrow> tools_ok (snd (cleanupExpiredSessions E expired s))"
  by (induction expired arbitrary: s) (simp_all add: cleanup_Cons tools_ok_drop)

lemma kept_of_demote: "kept_of sid sess (demoteToTier0 s) = kept_of sid sess s"
  by (simp add: kept_of_def demoteToTier0_def Let_def RemoveTools_def session_of_def getProgress_def)

lemma Watchdog_cases:
  "Watchdog E s = snd (cleanupExpiredSessions E (registry_Expired (ev_now E) (ev_order E) (sv_registry s)) s) \<or>
   Watchdog E s = demoteToTier0 (snd (cleanupExpiredSessions E (registry_Expired (ev_now E) (ev_order E) (sv_registry s)) s))"
  by (simp add: Watchdog_def split: prod.splits)

lemma tools_ok_watchdog: "tools_ok s \<Longrightarrow> tools_ok (Watchdog E s)"
  using tools_ok_cleanup [of s E] tools_ok_demote Watchdog_cases [of E s] by (metis)

text \<open>C12: One tick of the session watchdog, whatever the order in which the registry lists the
  sessions. A session with a request or a background job in flight, or one that is not idle past its
  timeout, loses nothing: its registration and its object, its worker client, its caches, its
  progress and its persisted state are what they were, and so its lease protects a long call. An idle
  session past its timeout that the registry lists is unregistered, and its caches and its progress
  are gone. The visible tools still match the tier.\<close>

theorem watchdog_spares_busy:
  assumes inv: "registry_inv (sv_registry s)" and tools: "tools_ok s"
    and reg: "rg_sessions (sv_registry s) sid = Some sess" and sid: "sid \<noteq> []"
  shows "(HasInFlight (session_of s sess) \<or> \<not> IsExpired (ev_now E) (session_of s sess) \<longrightarrow>
            kept_of sid sess (Watchdog E s) = kept_of sid sess s) \<and>
         (\<not> HasInFlight (session_of s sess) \<and> IsExpired (ev_now E) (session_of s sess) \<and> sid \<in> set (ev_order E) \<longrightarrow>
            rg_sessions (sv_registry (Watchdog E s)) sid = None \<and> sv_cache (Watchdog E s) sid = None \<and>
            getProgress sid (Watchdog E s) = None) \<and>
         tools_ok (Watchdog E s)"
proof -
  let ?xs = "registry_Expired (ev_now E) (ev_order E) (sv_registry s)"
  let ?s = "snd (cleanupExpiredSessions E ?xs s)"
  have id: "sid = se_ID (session_of s sess)"
    using registry_invD [OF inv reg] by (simp add: session_of_def)
  have others: "\<forall>r \<in> set ?xs. r \<noteq> sess \<longrightarrow> se_ID (session_of s r) \<noteq> sid"
    using inv reg by (auto simp: set_registry_Expired session_of_def dest: registry_invD)
  have spared: "kept_of sid sess (Watchdog E s) = kept_of sid sess s"
    if "HasInFlight (session_of s sess) \<or> \<not> IsExpired (ev_now E) (session_of s sess)"
    using cleanup_spares [OF that others] Watchdog_cases [of E s] by (auto simp: kept_of_demote)
  have gone: "rg_sessions (sv_registry (Watchdog E s)) sid = None \<and> sv_cache (Watchdog E s) sid = None \<and>
      getProgress sid (Watchdog E s) = None"
    if "\<not> HasInFlight (session_of s sess)" "IsExpired (ev_now E) (session_of s sess)" "sid \<in> set (ev_order E)"
  proof -
    have "sess \<in> set ?xs" using that reg by (auto simp: set_registry_Expired session_of_def)
    from cleanup_drops [OF this that(1,2) id sid]
    have "rg_sessions (sv_registry ?s) sid = None" "sv_cache ?s sid = None" "getProgress sid ?s = None" by simp_all
    then show ?thesis
      using Watchdog_cases [of E s] kept_of_demote [of sid sess ?s] by (auto simp: kept_of_def)
  qed
  show ?thesis using spared gone tools_ok_watchdog [OF tools, of E] by simp
qed

theorem watchdog_spares_busy_witness:
  "\<forall>E (dbs :: nat \<Rightarrow> 'db). kept_of ''a'' 0 (Watchdog E (acquire 0 (registerTier0 (one_session dbs ''ready'')))) =
     kept_of ''a'' 0 (acquire 0 (registerTier0 (one_session dbs ''ready'')))"
proof (intro allI)
  fix E :: "'db env" and dbs :: "nat \<Rightarrow> 'db"
  define s0 where "s0 = registerTier0 (one_session dbs ''ready'')"
  have same: "sv_registry (fold add_tool ts t) = sv_registry t" for ts and t :: "'db server"
    by (induction ts arbitrary: t) (simp_all add: add_tool_def)
  have reg: "sv_registry s0 = sv_registry (one_session dbs ''ready'')"
    unfolding s0_def registerTier0_def by (rule same)
  have tools: "tools_ok s0"
  proof -
    have "sv_tier s0 = 0" "set (sv_tools s0) = set (sv_tools (one_session dbs ''ready'')) \<union> set tier0ToolNames"
      unfolding s0_def registerTier0_def tier0ToolNames_def by (simp_all only: add_tools one_session_simps)
    then show ?thesis by (simp add: tools_ok_def one_session_def recordProgress_def New_def)
  qed
  have "rg_maxSessions (sv_registry s0) = 0" "rg_next (sv_registry s0) = 1"
    "rg_sessions (sv_registry s0) = [''a'' \<mapsto> 0]" "rg_binaryIndex (sv_registry s0) = [''/x'' \<mapsto> 0]"
    "rg_heap (sv_registry s0) = (\<lambda>_. no_session\<lparr>se_ID := ''a'', se_BinaryPath := ''/x''\<rparr>)"
    by (simp_all add: reg one_session_simps) (simp_all add: one_session_def recordProgress_def New_def)
  note facts = this
  have inv: "registry_inv (sv_registry (acquire 0 s0))"
    by (auto simp: acquire_def on_registry_def on_session_def registry_inv_def facts AcquireInFlight_def)
  have "HasInFlight (session_of (acquire 0 s0) 0)"
    by (simp add: acquire_def session_of_def on_registry_def on_session_def facts HasInFlight_def AcquireInFlight_def no_session_def wrap_int_def)
  moreover have "tools_ok (acquire 0 s0)" using tools by (simp add: tools_ok_def acquire_def on_registry_def tier1Tools_def)
  moreover have "rg_sessions (sv_registry (acquire 0 s0)) ''a'' = Some 0"
    by (simp add: acquire_def on_registry_def on_session_def facts)
  ultimately show "kept_of ''a'' 0 (Watchdog E (acquire 0 (registerTier0 (one_session dbs ''ready'')))) =
     kept_of ''a'' 0 (acquire 0 (registerTier0 (one_session dbs ''ready'')))"
    using watchdog_spares_busy [OF inv, of "''a''" 0 E] unfolding s0_def [symmetric] by simp
qed

end
