(* ===== verification/Restart.thy ===== *)
theory Restart
  imports Startup Expiry
begin

text \<open>
  A restart of the server: what the sessions persisted by one process are in the next
  (persistSession and RestoreSessions of internal/server/session.go, the store, and main). The
  directory is the one a sequence of completed saves and deletes leaves.
\<close>

section \<open>Shutdown\<close>

lemma workers_Stop_effect:
  fixes s :: "'db server"
  assumes "st_error (os_stop (ev_os E) sid) = None"
  defines "s' \<equiv> snd (workers_Stop E sid s)"
  shows "mg_sessions (sv_workers s') = (mg_sessions (sv_workers s))(sid := None)"
    and "sv_registry s' = sv_registry s" "sv_store s' = sv_store s"
proof -
  have "mg_sessions (sv_workers s') k = ((mg_sessions (sv_workers s))(sid := None)) k" for k
    using manager_Stop_removes [OF assms(1)] manager_Stop_other [of k sid]
    by (simp add: s'_def workers_Stop_cases)
  then show "mg_sessions (sv_workers s') = (mg_sessions (sv_workers s))(sid := None)" ..
  show "sv_registry s' = sv_registry s" "sv_store s' = sv_store s" by (simp_all add: s'_def workers_Stop_cases)
qed

text \<open>A graceful end: when every stop succeeds, no registered session keeps a worker, and the stored
  sessions stay for the next start.\<close>

lemma shutdown_stops_workers:
  fixes s :: "'db server"
  assumes stops: "\<And>sid. st_error (os_stop (ev_os E) sid) = None"
    and inv: "registry_inv (sv_registry s)" and order: "is_order (ev_order E) (rg_sessions (sv_registry s))"
  shows "sid \<in> dom (rg_sessions (sv_registry s)) \<Longrightarrow> mg_sessions (sv_workers (shutdown_workers E s)) sid = None"
    and "sv_store (shutdown_workers E s) = sv_store s"
proof -
  let ?stop = "\<lambda>sess s. snd (workers_Stop E (se_ID (session_of s sess)) s)"
  have fold: "sv_registry (fold ?stop refs s) = sv_registry s \<and> sv_store (fold ?stop refs s) = sv_store s \<and>
      mg_sessions (sv_workers (fold ?stop refs s)) k =
        (if k \<in> (\<lambda>ref. se_ID (rg_heap (sv_registry s) ref)) ` set refs then None else mg_sessions (sv_workers s) k)" for refs k and s :: "'db server"
    by (induction refs arbitrary: s) (auto simp: workers_Stop_effect [OF stops] session_of_def)
  show "sv_store (shutdown_workers E s) = sv_store s" using fold by (simp add: shutdown_workers_def)
  assume "sid \<in> dom (rg_sessions (sv_registry s))"
  then obtain ref where "sid \<in> set (ev_order E)" "rg_sessions (sv_registry s) sid = Some ref" using order by (auto simp: is_order_def)
  then have "ref \<in> set (registry_List (ev_order E) (sv_registry s))" "se_ID (rg_heap (sv_registry s) ref) = sid"
    using registry_invD [OF inv] by (auto simp: set_registry_List)
  then show "mg_sessions (sv_workers (shutdown_workers E s)) sid = None" using fold by (force simp: shutdown_workers_def)
qed

section \<open>One restored session\<close>

text \<open>What restoring a metadata record means: the session is registered under its id with the saved
  times and the cleaned path, has a worker and nothing in flight, its load is the given job, and the
  readiness gate is closed until that job has run.\<close>

definition restored_as :: "'db server \<Rightarrow> Metadata \<Rightarrow> background \<Rightarrow> bool" where
  "restored_as s meta job \<longleftrightarrow>
     (\<exists>ref client. registry_Get (sv_registry s) (md_ID meta) = Some ref \<and>
        session_Metadata (session_of s ref) = meta\<lparr>md_BinaryPath := Clean (md_BinaryPath meta)\<rparr> \<and>
        \<not> HasInFlight (session_of s ref) \<and>
        manager_GetClient (md_ID meta) (sv_workers s) = Ret client \<and>
        job = BackgroundOpen ref client (md_BinaryPath meta) True \<and>
        readinessError (md_ID meta) s \<noteq> None)"

definition fresh_session :: "draw \<Rightarrow> Metadata \<Rightarrow> session" where
  "fresh_session d meta =
     \<lparr>se_ID = md_ID meta, se_BinaryPath = Clean (md_BinaryPath meta), se_CreatedAt = md_CreatedAt meta,
      se_LastActivity = md_LastActivity meta, se_Timeout = md_Timeout meta, se_SocketPath = socket_path d,
      se_WorkerPID = 0, se_inFlight = 0, se_analysisActive = False\<rparr>"

lemma restore_one_new:
  fixes s :: "'db server"
  assumes room: "\<not> (rg_maxSessions (sv_registry s) > 0 \<and> int (map_len (rg_sessions (sv_registry s))) \<ge> rg_maxSessions (sv_registry s))"
    and new: "rg_sessions (sv_registry s) (md_ID meta) = None" and id: "md_ID meta \<noteq> []"
    and stat: "os_stat (ev_os E) (md_BinaryPath meta) = None" and launch: "os_launch (ev_os E) (md_ID meta) = Ret l"
    and r: "restore_one E meta s = (jobs, s')"
  defines "ref \<equiv> rg_next (sv_registry s)" and "client \<equiv> mg_next (sv_workers s)"
  shows "jobs = [BackgroundOpen ref client (md_BinaryPath meta) True]"
    and "rg_sessions (sv_registry s') = (rg_sessions (sv_registry s))(md_ID meta \<mapsto> ref)"
    and "rg_heap (sv_registry s') = (rg_heap (sv_registry s))
      (ref := (fresh_session (os_draw (ev_os E) (md_ID meta)) meta)\<lparr>se_WorkerPID := lr_PID l\<rparr>)"
    and "mg_sessions (sv_workers s') = (mg_sessions (sv_workers s))(md_ID meta \<mapsto> client)"
    and "sv_progress s' = (sv_progress s)(md_ID meta \<mapsto>
      \<lparr>pg_Stage = ''opening'', pg_Message = ''Reloading binary into IDA'', pg_Progress = 1, pg_Total = 4, pg_UpdatedAt = ev_now E\<rparr>)"
    and "rg_maxSessions (sv_registry s') = rg_maxSessions (sv_registry s)"
proof -
  define reg where "reg = snd (registry_insert (fresh_session (os_draw (ev_os E) (md_ID meta)) meta) (sv_registry s))"
  define s1 where "s1 = s\<lparr>sv_registry := reg\<rparr>"
  have c: "registry_Restore (os_draw (ev_os E) (md_ID meta)) meta (sv_registry s) = (Ret ref, reg)"
    using room new by (simp add: registry_Restore_cases reg_def ref_def fresh_session_def)
  have sess: "session_of s1 ref = fresh_session (os_draw (ev_os E) (md_ID meta)) meta" "se_ID (session_of s1 ref) = md_ID meta"
    by (simp_all add: s1_def session_of_def reg_def registry_insert_def ref_def fresh_session_def)
  define s2 where "s2 = on_registry (on_session ref (\<lambda>x. x\<lparr>se_WorkerPID := lr_PID l\<rparr>))
    (s1\<lparr>sv_workers := fst (snd (manager_Start (Ret l) (md_BinaryPath meta) (sv_workers s1, session_of s1 ref)))\<rparr>)"
  have w: "workers_Start E ref (md_BinaryPath meta) s1 = (Ret (), s2)"
    using launch sess by (simp add: workers_Start_cases s2_def)
  have workers: "mg_sessions (sv_workers s2) = (mg_sessions (sv_workers s))(md_ID meta \<mapsto> client)"
    using sess by (simp add: s2_def on_registry_def manager_Start_client s1_def client_def)
  have get: "manager_GetClient (md_ID meta) (sv_workers s2) = Ret client" by (simp add: manager_GetClient_def workers)
  have eq: "jobs = [BackgroundOpen ref client (md_BinaryPath meta) True]"
    "s' = recordProgress (ev_now E) (md_ID meta) ''opening'' ''Reloading binary into IDA'' 1 4 s2"
    using r stat c w get sess by (simp_all add: restore_one_def Let_def s1_def [symmetric])
  show "jobs = [BackgroundOpen ref client (md_BinaryPath meta) True]" by (rule eq)
  show "rg_sessions (sv_registry s') = (rg_sessions (sv_registry s))(md_ID meta \<mapsto> ref)"
    "rg_maxSessions (sv_registry s') = rg_maxSessions (sv_registry s)"
    by (simp_all add: eq(2) recordProgress_def s2_def on_registry_def on_session_def s1_def reg_def registry_insert_def
        fresh_session_def ref_def)
  show "rg_heap (sv_registry s') = (rg_heap (sv_registry s))
      (ref := (fresh_session (os_draw (ev_os E) (md_ID meta)) meta)\<lparr>se_WorkerPID := lr_PID l\<rparr>)"
    by (simp add: eq(2) recordProgress_def s2_def on_registry_def on_session_def s1_def reg_def registry_insert_def ref_def)
  show "mg_sessions (sv_workers s') = (mg_sessions (sv_workers s))(md_ID meta \<mapsto> client)"
    by (simp add: eq(2) recordProgress_def workers)
  show "sv_progress s' = (sv_progress s)(md_ID meta \<mapsto>
      \<lparr>pg_Stage = ''opening'', pg_Message = ''Reloading binary into IDA'', pg_Progress = 1, pg_Total = 4, pg_UpdatedAt = ev_now E\<rparr>)"
    using id by (simp add: eq(2) recordProgress_def s2_def on_registry_def s1_def)
qed

lemma opening_in_progress:
  "pg_Stage \<lparr>pg_Stage = ''opening'', pg_Message = msg, pg_Progress = x, pg_Total = y, pg_UpdatedAt = now\<rparr> \<in> set inProgressStages"
  by (simp add: inProgressStages_def)

lemma restored_as_new:
  assumes "rg_sessions (sv_registry s) (md_ID meta) = Some ref"
    and "rg_heap (sv_registry s) ref = (fresh_session d meta)\<lparr>se_WorkerPID := n\<rparr>"
    and "mg_sessions (sv_workers s) (md_ID meta) = Some client"
    and "sv_progress s (md_ID meta) = Some p" and "pg_Stage p \<in> set inProgressStages" and "md_ID meta \<noteq> []"
  shows "restored_as s meta (BackgroundOpen ref client (md_BinaryPath meta) True)"
  using assms
  by (auto simp: restored_as_def registry_Get_def session_of_def manager_GetClient_def fresh_session_def session_Metadata_def
      HasInFlight_def readinessError_None getProgress_def)

lemma restored_as_cong:
  assumes "restored_as s meta job"
    and "\<And>ref. rg_sessions (sv_registry s) (md_ID meta) = Some ref \<Longrightarrow>
      rg_sessions (sv_registry s') (md_ID meta) = Some ref \<and> rg_heap (sv_registry s') ref = rg_heap (sv_registry s) ref"
    and "mg_sessions (sv_workers s') (md_ID meta) = mg_sessions (sv_workers s) (md_ID meta)"
    and "sv_progress s' (md_ID meta) = sv_progress s (md_ID meta)"
  shows "restored_as s' meta job"
proof -
  have "readinessError (md_ID meta) s' = readinessError (md_ID meta) s" by (simp add: readinessError_def getProgress_def assms(4))
  then show ?thesis
    using assms(1-3) by (fastforce simp: restored_as_def registry_Get_def session_of_def manager_GetClient_def)
qed

section \<open>All of them\<close>

definition restorable :: "'db env \<Rightarrow> Metadata \<Rightarrow> bool" where
  "restorable E meta \<longleftrightarrow>
     md_ID meta \<noteq> [] \<and> os_stat (ev_os E) (md_BinaryPath meta) = None \<and> (\<exists>l. os_launch (ev_os E) (md_ID meta) = Ret l)"

lemma restore_all_restores:
  fixes s :: "'db server"
  assumes "boot_inv b py roots k s" and "\<forall>m \<in> set metas. restorable E m" and "distinct (map md_ID metas)"
    and "md_ID ` set metas \<inter> dom (rg_sessions (sv_registry s)) = {}"
    and "k \<le> 0 \<or> int (map_len (rg_sessions (sv_registry s)) + length metas) \<le> k"
    and "restore_all E metas s = (jobs, s')"
  shows "list_all2 (restored_as s') metas jobs \<and>
     dom (rg_sessions (sv_registry s')) = dom (rg_sessions (sv_registry s)) \<union> md_ID ` set metas \<and>
     (\<forall>m j. restored_as s m j \<longrightarrow> md_ID m \<notin> md_ID ` set metas \<longrightarrow> restored_as s' m j)"
  using assms
proof (induction metas arbitrary: s jobs)
  case (Cons meta metas)
  let ?reg = "sv_registry s"
  obtain j1 s1 where one: "restore_one E meta s = (j1, s1)" by (rule prod.exhaust)
  obtain js where rest: "restore_all E metas s1 = (js, s')" and jobs: "jobs = j1 @ js"
    using Cons.prems(6) one by (auto split: prod.splits)
  obtain l where m: "md_ID meta \<noteq> []" "os_stat (ev_os E) (md_BinaryPath meta) = None" "os_launch (ev_os E) (md_ID meta) = Ret l"
    using Cons.prems(2) by (auto simp: restorable_def)
  have inv: "registry_inv ?reg" and k: "rg_maxSessions ?reg = k" using Cons.prems(1) by (simp_all add: boot_inv_def)
  have new: "rg_sessions ?reg (md_ID meta) = None" using Cons.prems(4) by auto
  have room: "\<not> (rg_maxSessions ?reg > 0 \<and> int (map_len (rg_sessions ?reg)) \<ge> rg_maxSessions ?reg)"
    using Cons.prems(5) k by auto
  note step = restore_one_new [OF room new m one]
  have boot: "boot_inv b py roots k s1" using boot_inv_restore_one [OF Cons.prems(1), of E meta] one by simp
  have len: "map_len (rg_sessions (sv_registry s1)) = Suc (map_len (rg_sessions ?reg))"
    using inv new by (simp add: step(2) map_len_def registry_inv_def card_insert_if domIff)
  have dom: "dom (rg_sessions (sv_registry s1)) = insert (md_ID meta) (dom (rg_sessions ?reg))" by (simp add: step(2))
  have ids: "md_ID ` set metas \<inter> dom (rg_sessions (sv_registry s1)) = {}" using Cons.prems(3,4) by (auto simp: dom)
  have limit: "k \<le> 0 \<or> int (map_len (rg_sessions (sv_registry s1)) + length metas) \<le> k" using Cons.prems(5) by (simp add: len)
  have rest_ok: "\<forall>m \<in> set metas. restorable E m" "distinct (map md_ID metas)" using Cons.prems(2,3) by simp_all
  note ih = Cons.IH [OF boot rest_ok ids limit rest]
  then have IH: "list_all2 (restored_as s') metas js"
    "dom (rg_sessions (sv_registry s')) = dom (rg_sessions (sv_registry s1)) \<union> md_ID ` set metas" by blast+
  have pass: "restored_as s' m j" if "restored_as s1 m j" "md_ID m \<notin> md_ID ` set metas" for m j using ih that by blast
  have "restored_as s1 meta (BackgroundOpen (rg_next ?reg) (mg_next (sv_workers s)) (md_BinaryPath meta) True)"
    by (rule restored_as_new [OF fun_cong [OF step(2), THEN trans] fun_cong [OF step(3), THEN trans] fun_cong [OF step(4), THEN trans]
          fun_cong [OF step(5), THEN trans] opening_in_progress m(1)]) simp_all
  then have here: "restored_as s' meta (BackgroundOpen (rg_next ?reg) (mg_next (sv_workers s)) (md_BinaryPath meta) True)"
    by (rule pass) (use Cons.prems(3) in simp)
  have kept: "restored_as s1 m j" if "restored_as s m j" "md_ID m \<noteq> md_ID meta" for m j
    by (rule restored_as_cong [OF that(1)]) (use that(2) registry_invD [OF inv] in \<open>auto simp: step\<close>)
  have "restored_as s' m j" if "restored_as s m j" "md_ID m \<notin> md_ID ` set (meta # metas)" for m j
    using that by (intro pass kept) auto
  then show ?case using IH here by (auto simp: jobs step(1) dom)
qed simp

section \<open>From one process to the next\<close>

lemma registered_same:
  "sv_registry (PromoteIfSessions order (RegisterTools s)) = sv_registry s"
  "sv_workers (PromoteIfSessions order (RegisterTools s)) = sv_workers s"
  "sv_progress (PromoteIfSessions order (RegisterTools s)) = sv_progress s"
proof -
  have "sv_registry (fold add_tool ns s) = sv_registry s \<and> sv_workers (fold add_tool ns s) = sv_workers s \<and>
      sv_progress (fold add_tool ns s) = sv_progress s" for ns
    by (induction ns arbitrary: s) (simp_all add: add_tool_same)
  then show "sv_registry (PromoteIfSessions order (RegisterTools s)) = sv_registry s"
    "sv_workers (PromoteIfSessions order (RegisterTools s)) = sv_workers s"
    "sv_progress (PromoteIfSessions order (RegisterTools s)) = sv_progress s"
    unfolding RegisterTools_def registerTier0_def PromoteIfSessions_def by (simp_all del: fold.simps)
qed

lemma restored_as_registered: "restored_as (PromoteIfSessions order (RegisterTools s)) m j = restored_as s m j"
  by (simp add: restored_as_def session_of_def readinessError_def getProgress_def registered_same)

lemma promoted_when_sessions:
  assumes "sv_tier s = 0" and "is_order order (rg_sessions (sv_registry s))" and "dom (rg_sessions (sv_registry s)) \<noteq> {}"
  shows "set tier1ToolNames \<subseteq> set (sv_tools (PromoteIfSessions order (RegisterTools s)))"
proof -
  have reg: "sv_registry (RegisterTools s) = sv_registry s" and tier: "sv_tier (RegisterTools s) = 0"
    using registered_same(1) [of order s] assms(1)
    by (simp_all only: PromoteIfSessions_def RegisterTools_def registerTier0_def add_tools(3) promote_same if_cancel if_distrib [of sv_registry])
  obtain k ref where "k \<in> set order" "rg_sessions (sv_registry s) k = Some ref" using assms(2,3) unfolding is_order_def by blast
  then have "ref \<in> set (registry_List order (sv_registry s))" by (auto simp: set_registry_List)
  then have "length (registry_List order (sv_registry (RegisterTools s))) > 0" by (auto simp: reg)
  then show ?thesis
    using registerTier_simps(3) [of "RegisterTools s"] tier
    by (auto simp: PromoteIfSessions_def promoteToTier_def tier1Tools_def Let_def split: if_splits)
qed

lemma restart_state:
  fixes E :: "'db env"
  defines "encode \<equiv> os_encode (ev_os E)" and "decode \<equiv> os_decode (ev_os E)"
  assumes start: "main_start S E dbs f configPath = Ret (cfg, s, jobs)"
    and dir: "st_files S (Join (cfg_DatabaseDirectory cfg) ''sessions'') = foldl (store_apply encode) Map.empty ops"
    and coded: "\<forall>x. OpSave x \<in> set ops \<longrightarrow>
      (\<exists>data. encode (session_Metadata x) = Ret data \<and> decode data = Some (session_Metadata x))"
    and files: "is_order (os_listing (ev_os E)) (foldl (store_apply encode) Map.empty ops)" "os_io (ev_os E) = io_ok"
    and fit: "\<forall>m \<in> ran (foldl live_apply Map.empty ops). restorable E m"
    and room: "cfg_MaxConcurrentSession cfg = 0 \<or>
      int (card (ran (foldl live_apply Map.empty ops))) \<le> cfg_MaxConcurrentSession cfg"
  shows "\<exists>s1. s = PromoteIfSessions (ev_order E) (RegisterTools s1) \<and> sv_tier s1 = 0 \<and>
    dom (rg_sessions (sv_registry s1)) = md_ID ` ran (foldl live_apply Map.empty ops) \<and>
    (\<forall>m \<in> ran (foldl live_apply Map.empty ops). \<exists>job \<in> set jobs. restored_as s1 m job) \<and>
    length jobs = card (ran (foldl live_apply Map.empty ops))"
proof -
  let ?live = "foldl live_apply Map.empty ops" and ?d = "foldl (store_apply encode) Map.empty ops"
  obtain metas where metas: "store_Load decode io_ok (os_listing (ev_os E)) ?d = Ret metas" "set metas = ran ?live"
    "distinct (map md_ID metas)"
    using stored_sessions [OF coded [rule_format] files(1)] by blast
  obtain t where s: "jobs = fst (RestoreSessions E (boot (st_host S) dbs cfg t ?d))"
    "s = PromoteIfSessions (ev_order E) (RegisterTools (snd (RestoreSessions E (boot (st_host S) dbs cfg t ?d))))"
    using main_start_boot [OF start] by (auto simp: dir Let_def)
  let ?b = "boot (st_host S) dbs cfg t ?d :: 'db server"
  have "sv_store ?b = Some ?d" by (simp add: boot_def SetSecurity_def New_def)
  then have all: "RestoreSessions E ?b = restore_all E metas ?b" using metas(1) files(2) by (simp add: RestoreSessions_def decode_def)
  obtain s1 where r: "restore_all E metas ?b = (jobs, s1)" using s(1) all by (metis prod.collapse)
  have boot: "boot_inv (cfg_Bind cfg) (cfg_EnablePyEval cfg) (normalizeRoots (h_cwd (st_host S)) (h_EvalSymlinks (st_host S))
      (cfg_AllowedRoots cfg)) (cfg_MaxConcurrentSession cfg) ?b" by (rule boot_inv_boot)
  have empty: "rg_sessions (sv_registry ?b) = Map.empty" by (simp add: boot_def SetSecurity_def New_def NewRegistry_def)
  have len: "length metas = card (ran ?live)"
    using metas(2) metas(3) distinct_card [of metas] by (simp add: distinct_map)
  have "\<forall>m \<in> set metas. restorable E m" using fit metas(2) by blast
  moreover have "md_ID ` set metas \<inter> dom (rg_sessions (sv_registry ?b)) = {}" by (simp add: empty)
  moreover have "cfg_MaxConcurrentSession cfg \<le> 0 \<or>
      int (map_len (rg_sessions (sv_registry ?b)) + length metas) \<le> cfg_MaxConcurrentSession cfg"
    using room by (auto simp: empty len)
  ultimately have res: "list_all2 (restored_as s1) metas jobs \<and>
      dom (rg_sessions (sv_registry s1)) = dom (rg_sessions (sv_registry ?b)) \<union> md_ID ` set metas"
    using restore_all_restores [OF boot _ metas(3) _ _ r] by blast
  then have all_done: "list_all2 (restored_as s1) metas jobs" "dom (rg_sessions (sv_registry s1)) = md_ID ` ran ?live"
    by (simp_all only: empty dom_empty Un_empty_left metas(2))
  have s1: "s = PromoteIfSessions (ev_order E) (RegisterTools s1)" using s(2) all r by simp
  have "sv_tier s1 = 0" using boot_inv_restore [OF boot, of E] all r by (simp add: boot_inv_def)
  moreover have "\<exists>job \<in> set jobs. restored_as s1 m job" if "m \<in> ran ?live" for m
    using that metas(2) all_done(1) by (metis in_set_conv_nth list_all2_conv_all_nth)
  ultimately show ?thesis
    using all_done(2) list_all2_lengthD [OF all_done(1)] len s1 by (intro exI [of _ s1] conjI) simp_all
qed

text \<open>C20: sessions outlive the process. A server is started on a directory that the saves and deletes
  of earlier processes left, in any order of the files; the binaries are still there, a worker starts
  for each, and the limit leaves room. Then exactly the sessions saved and not deleted are
  registered, each under its id with its last saved path, times and timeout, with a worker, one
  background load per session, and the readiness gate closed until that load is done; the read tools
  are registered at once. The JSON coding is assumed to be inverted on the metadata saved.\<close>

theorem restart_recovers_sessions:
  fixes E :: "'db env"
  defines "encode \<equiv> os_encode (ev_os E)" and "decode \<equiv> os_decode (ev_os E)"
  assumes start: "main_start S E dbs f configPath = Ret (cfg, s, jobs)"
    and dir: "st_files S (Join (cfg_DatabaseDirectory cfg) ''sessions'') = foldl (store_apply encode) Map.empty ops"
    and coded: "\<forall>x. OpSave x \<in> set ops \<longrightarrow>
      (\<exists>data. encode (session_Metadata x) = Ret data \<and> decode data = Some (session_Metadata x))"
    and files: "is_order (os_listing (ev_os E)) (foldl (store_apply encode) Map.empty ops)" "os_io (ev_os E) = io_ok"
    and fit: "\<forall>m \<in> ran (foldl live_apply Map.empty ops). restorable E m"
    and room: "cfg_MaxConcurrentSession cfg = 0 \<or>
      int (card (ran (foldl live_apply Map.empty ops))) \<le> cfg_MaxConcurrentSession cfg"
    and order: "is_order (ev_order E) (rg_sessions (sv_registry s))"
  shows "dom (rg_sessions (sv_registry s)) = md_ID ` ran (foldl live_apply Map.empty ops) \<and>
    (\<forall>m \<in> ran (foldl live_apply Map.empty ops). \<exists>job \<in> set jobs. restored_as s m job) \<and>
    length jobs = card (ran (foldl live_apply Map.empty ops)) \<and>
    (ran (foldl live_apply Map.empty ops) \<noteq> {} \<longrightarrow> set tier1ToolNames \<subseteq> set (sv_tools s))"
proof -
  obtain s1 where s1: "s = PromoteIfSessions (ev_order E) (RegisterTools s1)" "sv_tier s1 = 0"
    "dom (rg_sessions (sv_registry s1)) = md_ID ` ran (foldl live_apply Map.empty ops)"
    "\<forall>m \<in> ran (foldl live_apply Map.empty ops). \<exists>job \<in> set jobs. restored_as s1 m job"
    "length jobs = card (ran (foldl live_apply Map.empty ops))"
    using restart_state [OF start dir [unfolded encode_def] coded [unfolded encode_def decode_def] files [unfolded encode_def] fit room]
    by blast
  have "ran (foldl live_apply Map.empty ops) \<noteq> {} \<longrightarrow> set tier1ToolNames \<subseteq> set (sv_tools s)"
    using promoted_when_sessions [OF s1(2), of "ev_order E"] order s1(3) unfolding s1(1) registered_same by blast
  then show ?thesis using s1(3-5) unfolding s1(1) registered_same restored_as_registered by blast
qed

lemma load_other_files: "load_configuration (S\<lparr>st_files := d\<rparr>) f configPath = load_configuration S f configPath"
  by (simp add: load_configuration_def Let_def case_prod_unfold cong: go.case_cong)

theorem restart_recovers_sessions_witness:
  "\<exists>(E :: nat env) S cfg s job. main_start S E (\<lambda>_. 0) no_flags ''config.json'' = Ret (cfg, s, [job]) \<and>
     restored_as s (session_Metadata (no_session\<lparr>se_ID := ''a'', se_BinaryPath := ''/x''\<rparr>)) job \<and>
     ''query'' \<in> set (sv_tools s)"
proof -
  let ?x = "no_session\<lparr>se_ID := ''a'', se_BinaryPath := ''/x''\<rparr>" and ?ops = "[OpSave (no_session\<lparr>se_ID := ''a'', se_BinaryPath := ''/x''\<rparr>)]"
  obtain l :: LaunchResult where True by simp
  define E where "E = (\<lambda>E0 :: nat env. E0\<lparr>ev_os := (ev_os E0)\<lparr>os_stat := \<lambda>_. None, os_launch := \<lambda>_. Ret l, os_encode := enc_id,
    os_decode := \<lambda>_. Some (session_Metadata ?x), os_io := io_ok, os_listing := [''a.json'']\<rparr>, ev_order := [''a'']\<rparr>)"
  define e where "e = E undefined"
  have e: "os_stat (ev_os e) = (\<lambda>_. None)" "os_launch (ev_os e) = (\<lambda>_. Ret l)" "os_encode (ev_os e) = enc_id" "os_io (ev_os e) = io_ok"
    "os_decode (ev_os e) = (\<lambda>_. Some (session_Metadata ?x))" "os_listing (ev_os e) = [''a.json'']" "ev_order e = [''a'']"
    by (simp_all add: e_def E_def)
  let ?d = "foldl (store_apply enc_id) Map.empty ?ops" and ?S = "bare_start\<lparr>st_files := \<lambda>_. foldl (store_apply enc_id) Map.empty ?ops\<rparr>"
  have d: "?d = [''a.json'' \<mapsto> File ''a'']"
    by (rule ext) (simp add: store_apply_def store_Save_def store_WriteFile_def store_Rename_def
      io_ok_def Let_def and_then_def enc_id_def session_Metadata_def)
  have live: "ran (foldl live_apply Map.empty ?ops) = {session_Metadata ?x}"
    by (simp add: live_apply_def)
  obtain cfg t where l: "load_configuration ?S no_flags ''config.json'' = Ret (cfg, t)" "cfg_MaxConcurrentSession cfg = 0"
    unfolding load_other_files using bare_load [of no_flags "''config.json''"] by (auto simp: no_flags_def)
  have "NewStore (st_mkdir ?S p) = Ret ()" for p by (simp add: NewStore_def bare_start_def)
  then obtain s jobs where m: "main_start ?S e (\<lambda>_. 0) no_flags ''config.json'' = Ret (cfg, s, jobs)"
    using l by (simp add: main_start_def Let_def case_prod_unfold)
  have coded: "\<forall>x. OpSave x \<in> set ?ops \<longrightarrow>
      (\<exists>data. os_encode (ev_os e) (session_Metadata x) = Ret data \<and> os_decode (ev_os e) data = Some (session_Metadata x))"
    by (simp add: e enc_id_def)
  have files: "is_order (os_listing (ev_os e)) (foldl (store_apply (os_encode (ev_os e))) Map.empty ?ops)"
    using d by (simp add: e is_order_def)
  have fit: "\<forall>m \<in> ran (foldl live_apply Map.empty ?ops). restorable e m"
    unfolding live by (simp add: restorable_def e session_Metadata_def)
  have room: "cfg_MaxConcurrentSession cfg = 0 \<or> int (card (ran (foldl live_apply Map.empty ?ops))) \<le> cfg_MaxConcurrentSession cfg"
    using l(2) by simp
  have dir: "st_files ?S (Join (cfg_DatabaseDirectory cfg) ''sessions'') = foldl (store_apply (os_encode (ev_os e))) Map.empty ?ops"
    by (simp add: e)
  obtain s1 where "s = PromoteIfSessions (ev_order e) (RegisterTools s1)"
    "dom (rg_sessions (sv_registry s1)) = md_ID ` ran (foldl live_apply Map.empty ?ops)"
    using restart_state [OF m dir coded files e(4) fit room] by (elim exE conjE) (rule that)
  then have "dom (rg_sessions (sv_registry s)) = {''a''}" unfolding live by (simp add: registered_same session_Metadata_def)
  then have order: "is_order (ev_order e) (rg_sessions (sv_registry s))" by (simp add: e is_order_def)
  from restart_recovers_sessions [OF m dir coded files e(4) fit room order]
  have "\<exists>job \<in> set jobs. restored_as s (session_Metadata ?x) job" "length jobs = 1" "set tier1ToolNames \<subseteq> set (sv_tools s)"
    unfolding live by simp_all
  moreover from this(1,2) obtain job where "jobs = [job]" "restored_as s (session_Metadata ?x) job" by (auto simp: length_Suc_conv)
  moreover have "''query'' \<in> set tier1ToolNames" by (simp add: tier1ToolNames_def)
  ultimately show ?thesis using m by blast
qed

end
