(* ===== verification/Confined.thy ===== *)
theory Confined
  imports Restart
begin

text \<open>
  Which binaries a running server has open: the allow-list of validatePath (internal/server/pathguard.go)
  as an invariant of every step, for the sessions of the registry and for the workers. It satisfies
  the contract of Serving. RestoreSessions does not check the paths it restores, so the sessions of
  the store are an exception in the statement.
\<close>

section \<open>The invariant\<close>

definition accepted :: "host \<Rightarrow> string list \<Rightarrow> string set" where
  "accepted h roots = {q. \<exists>p. validatePath h roots ''path'' p = Ret q}"

definition binaries_from :: "string set \<Rightarrow> string list \<Rightarrow> 'db server \<Rightarrow> bool" where
  "binaries_from B roots s \<longleftrightarrow> sv_allowedRoots s = roots \<and>
     (\<forall>ref < rg_next (sv_registry s). se_BinaryPath (rg_heap (sv_registry s) ref) \<in> Clean ` B) \<and>
     (\<forall>ref \<in> ran (rg_sessions (sv_registry s)). ref < rg_next (sv_registry s)) \<and>
     (\<forall>c < mg_next (sv_workers s). wc_binaryPath (mg_clients (sv_workers s) c) \<in> B) \<and>
     (\<forall>c \<in> ran (mg_sessions (sv_workers s)). c < mg_next (sv_workers s))"

lemma binaries_same:
  "binaries_from B roots s \<Longrightarrow> sv_allowedRoots s' = sv_allowedRoots s \<Longrightarrow> sv_registry s' = sv_registry s \<Longrightarrow>
   sv_workers s' = sv_workers s \<Longrightarrow> binaries_from B roots s'"
  by (simp add: binaries_from_def)

lemma ran_upd_None: "ran (m(k := None)) \<subseteq> ran m"
  by (auto simp: ran_def split: if_splits)

lemma binaries_inserted:
  assumes "binaries_from B roots s" and "se_BinaryPath x \<in> Clean ` B"
  shows "binaries_from B roots (s\<lparr>sv_registry := snd (registry_insert x (sv_registry s))\<rparr>)"
proof -
  let ?m = "rg_sessions (sv_registry s)"
  have "ran (?m(se_ID x \<mapsto> rg_next (sv_registry s))) \<subseteq> insert (rg_next (sv_registry s)) (ran ?m)"
    by (auto simp: ran_def split: if_splits)
  then show ?thesis using assms by (fastforce simp: binaries_from_def registry_insert_def less_Suc_eq)
qed

lemma binaries_launched:
  assumes "binaries_from B roots s" and "path \<in> B"
  shows "binaries_from B roots (s\<lparr>sv_workers := fst (snd (manager_Start (Ret result) path (sv_workers s, x)))\<rparr>)"
proof -
  let ?m = "mg_sessions (sv_workers s)"
  have "ran (?m(k \<mapsto> mg_next (sv_workers s))) \<subseteq> insert (mg_next (sv_workers s)) (ran ?m)" for k
    by (auto simp: ran_def split: if_splits)
  then show ?thesis
    using assms by (fastforce simp: binaries_from_def manager_Start_def Let_def newWorkerClient_def less_Suc_eq)
qed

lemma binaries_registry:
  assumes "binaries_from B roots s" and "rg_next r = rg_next (sv_registry s)"
    and "\<And>ref. se_BinaryPath (rg_heap r ref) = se_BinaryPath (rg_heap (sv_registry s) ref)"
    and "ran (rg_sessions r) \<subseteq> ran (rg_sessions (sv_registry s))"
  shows "binaries_from B roots (s\<lparr>sv_registry := r\<rparr>)"
  using assms by (auto simp: binaries_from_def)

lemma Stop_clients:
  "mg_next (snd (manager_Stop io k m)) = mg_next m"
  "wc_binaryPath (mg_clients (snd (manager_Stop io k m)) c) = wc_binaryPath (mg_clients m c)"
  "ran (mg_sessions (snd (manager_Stop io k m))) \<subseteq> ran (mg_sessions m)"
  using ran_upd_None [of "mg_sessions m" k]
  by (auto simp: manager_Stop_def manager_GetClient_def stopWorker_def monitorWorker_def and_then_def upd_def
      split: option.splits go.splits)

lemma binaries_stopped:
  assumes "binaries_from B roots s"
  shows "binaries_from B roots (s\<lparr>sv_dbs := dbs, sv_workers := snd (manager_Stop io k (sv_workers s))\<rparr>)"
  using assms Stop_clients(3) [of io k "sv_workers s"] by (auto simp: binaries_from_def Stop_clients(1,2))

lemma promote_keeps_roots: "sv_allowedRoots (promoteToTier t s) = sv_allowedRoots s"
  by (simp add: promoteToTier_def Let_def registerTier_keep)

lemma demote_keeps: "sv_allowedRoots (demoteToTier0 s) = sv_allowedRoots s" "sv_workers (demoteToTier0 s) = sv_workers s"
  by (simp_all add: demoteToTier0_def RemoveTools_def Let_def)

interpretation confined: serving "binaries_from (accepted h roots \<union> X) roots" "\<lambda>E. ev_host E = h" "\<lambda>p. p \<in> accepted h roots \<union> X"
  for h roots X
proof unfold_locales
  fix s :: "'a server" and E :: "'a env" and client db now sid stage msg cur tot f g sess l t out d path timeout meta p q result sess0
  let ?B = "accepted h roots \<union> X"
  assume s: "binaries_from ?B roots s"
  note same = binaries_same [OF s]
  note reg = binaries_registry [OF s]
  have session: "binaries_from ?B roots (on_registry (on_session sess g) s)" if "\<And>x. se_BinaryPath (g x) = se_BinaryPath x" for g
    unfolding on_registry_def by (rule reg) (simp_all add: on_session_def that)
  show "binaries_from ?B roots (db_step client db s)" "binaries_from ?B roots (recordProgress now sid stage msg cur tot s)"
    "binaries_from ?B roots (deleteSessionCache sid s)" "binaries_from ?B roots (clearProgress sid s)"
    "binaries_from ?B roots (deleteSessionState E sid s)" "binaries_from ?B roots (persistSession E sess s)"
    "binaries_from ?B roots (s\<lparr>sv_leases := l\<rparr>)" "binaries_from ?B roots (s\<lparr>sv_outputs := out\<rparr>)"
    by (auto intro!: same simp: db_step_def recordProgress_def deleteSessionCache_def clearProgress_def deleteSessionState_def
        persistSession_def split: option.split)
  show "binaries_from ?B roots (on_cache sid f s)" by (rule same) (simp_all add: on_cache_def)
  show "binaries_from ?B roots (promoteToTier t s)" by (rule same) (simp_all add: promote_keeps_roots)
  show "binaries_from ?B roots (demoteToTier0 s)" by (rule same) (simp_all add: demote_keeps)
  show "binaries_from ?B roots (on_registry (on_session sess (Touch now)) s)" by (rule session) (simp add: Touch_def)
  have "binaries_from ?B roots (on_registry (on_session sess AcquireInFlight) s)" by (rule session) (simp add: AcquireInFlight_def)
  then show "binaries_from ?B roots (on_registry (on_session sess AcquireInFlight) s\<lparr>sv_leases := l\<rparr>)"
    by (rule binaries_same) simp_all
  show "(\<And>x. se_ID (g x) = se_ID x \<and> se_BinaryPath (g x) = se_BinaryPath x) \<Longrightarrow>
      binaries_from ?B roots (on_registry (on_session sess g) s)" by (rule session) simp
  show "binaries_from ?B roots (on_registry (registry_Delete sid) s)"
    unfolding on_registry_def using ran_upd_None [of "rg_sessions (sv_registry s)" sid]
    by (intro reg) (auto simp: registry_Delete_def split: option.splits)
  show "binaries_from ?B roots (snd (workers_Stop E sid s))" using binaries_stopped [OF s] by (simp add: workers_Stop_cases)
  show "path \<in> ?B \<Longrightarrow> binaries_from ?B roots (s\<lparr>sv_workers := fst (snd (manager_Start (Ret result) path (sv_workers s, sess0)))\<rparr>)"
    by (rule binaries_launched [OF s])
  show "path \<in> ?B \<Longrightarrow> binaries_from ?B roots (s\<lparr>sv_registry := snd (registry_Create d path timeout (sv_registry s))\<rparr>)"
    using s by (auto simp: Create_new intro!: binaries_inserted [OF s])
  show "md_BinaryPath meta \<in> ?B \<Longrightarrow> binaries_from ?B roots (s\<lparr>sv_registry := snd (registry_Restore d meta (sv_registry s))\<rparr>)"
    using s by (auto simp: registry_Restore_cases intro!: binaries_inserted [OF s])
  show "ev_host E = h \<Longrightarrow> validatePath (ev_host E) (sv_allowedRoots s) ''path'' p = Ret q \<Longrightarrow> q \<in> ?B"
    using s by (auto simp: binaries_from_def accepted_def)
qed

section \<open>From the start on\<close>

lemma binaries_boot: "binaries_from B (normalizeRoots (h_cwd h) (h_EvalSymlinks h) (cfg_AllowedRoots cfg)) (boot h dbs cfg t d)"
  by (simp add: binaries_from_def boot_def SetSecurity_def New_def NewRegistry_def NewManager_def)

lemma binaries_registered:
  "binaries_from B roots s \<Longrightarrow> binaries_from B roots (PromoteIfSessions order (RegisterTools s))"
  by (rule binaries_same) (simp_all add: tools_keep_settings registered_same)

text \<open>The paths of the sessions in the store a server is started on.\<close>

definition stored_binaries :: "start_env \<Rightarrow> 'db env \<Rightarrow> Config \<Rightarrow> string set" where
  "stored_binaries S E cfg =
     (case store_Load (os_decode (ev_os E)) (os_io (ev_os E)) (os_listing (ev_os E))
             (st_files S (Join (cfg_DatabaseDirectory cfg) ''sessions'')) of
        Ret metas \<Rightarrow> md_BinaryPath ` set metas
      | _ \<Rightarrow> {})"

lemma binaries_started:
  assumes "main_start S E dbs f configPath = Ret (cfg, s, jobs)"
  shows "binaries_from (accepted (st_host S) (sv_allowedRoots s) \<union> stored_binaries S E cfg) (sv_allowedRoots s) s"
proof -
  obtain t where s: "s = PromoteIfSessions (ev_order E) (RegisterTools (snd (RestoreSessions E
      (boot (st_host S) dbs cfg t (st_files S (Join (cfg_DatabaseDirectory cfg) ''sessions''))))))"
    using main_start_boot [OF assms] by (auto simp: Let_def)
  define roots where "roots = normalizeRoots (h_cwd (st_host S)) (h_EvalSymlinks (st_host S)) (cfg_AllowedRoots cfg)"
  let ?b = "boot (st_host S) dbs cfg t (st_files S (Join (cfg_DatabaseDirectory cfg) ''sessions''))"
  let ?B = "accepted (st_host S) roots \<union> stored_binaries S E cfg"
  have "binaries_from ?B roots (snd (RestoreSessions E ?b))"
  proof (rule confined.keeps_RestoreSessions)
    show "binaries_from ?B roots ?b" unfolding roots_def by (rule binaries_boot)
  qed (auto simp: stored_binaries_def boot_def SetSecurity_def New_def)
  from binaries_registered [OF this] show ?thesis using main_start_inv [OF assms] by (simp only: s roots_def)
qed

definition permitted :: "string list \<Rightarrow> string \<Rightarrow> bool" where
  "permitted roots q \<longleftrightarrow> absolute q \<and> (\<exists>root \<in> set roots. prefix (path_elems root) (path_elems q))"

lemma binaries_fromD:
  assumes "binaries_from B roots s"
  shows "registry_Get (sv_registry s) sid = Some sess \<Longrightarrow> se_BinaryPath (session_of s sess) \<in> Clean ` B"
    and "manager_GetClient sid (sv_workers s) = Ret client \<Longrightarrow> wc_binaryPath (mg_clients (sv_workers s) client) \<in> B"
  using assms
  by (auto simp: binaries_from_def registry_Get_def session_of_def manager_GetClient_def ran_def split: option.splits)

text \<open>C2: the allow-list over the whole life of a server. On Unix, a server started with allowed roots
  keeps them, and whatever tools, background work, ends of requests and watchdog ticks follow, in any
  order and interleaved while requests wait, each registered session and each worker has a binary
  whose absolute path is a root or lies below one, element by element, unless it is the path of a
  session of the store the server was started on, which main restores without a check.\<close>

theorem only_allowed_binaries:
  assumes start: "main_start S E dbs f configPath = Ret (cfg, s0, jobs)" and roots: "sv_allowedRoots s0 \<noteq> []"
    and unix: "h_GOOS (st_host S) \<noteq> ''windows''" and wd: "h_cwd (st_host S) = Some wd" "rooted wd"
    and links: "\<And>a q. absolute a \<Longrightarrow> h_EvalSymlinks (st_host S) a = Some q \<Longrightarrow> absolute q"
    and steps: "(serving_step (\<lambda>E. ev_host E = st_host S))\<^sup>*\<^sup>* s0 s"
  shows "sv_allowedRoots s = sv_allowedRoots s0 \<and>
     (\<forall>sid sess. registry_Get (sv_registry s) sid = Some sess \<longrightarrow>
        permitted (sv_allowedRoots s0) (se_BinaryPath (session_of s sess)) \<or>
        se_BinaryPath (session_of s sess) \<in> Clean ` stored_binaries S E cfg) \<and>
     (\<forall>sid client. manager_GetClient sid (sv_workers s) = Ret client \<longrightarrow>
        permitted (sv_allowedRoots s0) (wc_binaryPath (mg_clients (sv_workers s) client)) \<or>
        wc_binaryPath (mg_clients (sv_workers s) client) \<in> stored_binaries S E cfg)"
proof -
  let ?roots = "sv_allowedRoots s0" and ?B = "accepted (st_host S) (sv_allowedRoots s0) \<union> stored_binaries S E cfg"
  have inv: "binaries_from ?B ?roots s" using confined.keeps_serving [OF steps binaries_started [OF start]] .
  have r: "?roots = normalizeRoots (h_cwd (st_host S)) (h_EvalSymlinks (st_host S)) (cfg_AllowedRoots cfg)"
    using main_start_inv [OF start] by blast
  have ok: "permitted ?roots q" if "q \<in> accepted (st_host S) ?roots" for q
    using that validatePath_below [OF unix wd _ r roots] links by (auto simp: permitted_def accepted_def)
  then have "permitted ?roots (Clean q)" if "q \<in> accepted (st_host S) ?roots" for q
    using that Clean_absolute by (fastforce simp: permitted_def)
  with ok have "q \<in> ?B \<Longrightarrow> permitted ?roots q \<or> q \<in> stored_binaries S E cfg"
    "q \<in> Clean ` ?B \<Longrightarrow> permitted ?roots q \<or> q \<in> Clean ` stored_binaries S E cfg" for q by auto
  then show ?thesis using inv binaries_fromD [OF inv] by (auto simp: binaries_from_def)
qed

lemma refused_open:
  fixes E :: "'db env"
  assumes "validatePath (ev_host E) (sv_allowedRoots s) ''path'' (ob_Path a) = Err e"
  shows "serve E W turns (OpenBinary a) s = (Err (Ctx ''open_binary path validation'' e), s)"
  using assms by (simp add: serve_def handler_def addToolWithCache_def and_then_def openBinary_def)

theorem only_allowed_binaries_witness:
  "\<exists>(E :: nat env) cfg s0 s r. main_start bare_start E (\<lambda>_. 0) (no_flags\<lparr>fl_allowedRoots := ''/data''\<rparr>) ''config.json'' = Ret (cfg, s0, []) \<and>
     serve E \<lparr>we_token = False, we_ticks = []\<rparr> [] (OpenBinary \<lparr>ob_Path = ''/data/../etc/passwd'', ob_SkipAnalysis = True\<rparr>) s0 = (Err r, s) \<and>
     sv_allowedRoots s = [''/data''] \<and> stored_binaries bare_start E cfg = {} \<and>
     (\<forall>sid client. manager_GetClient sid (sv_workers s) = Ret client \<longrightarrow>
        permitted [''/data''] (wc_binaryPath (mg_clients (sv_workers s) client)))"
proof -
  let ?h = "st_host bare_start" and ?a = "\<lparr>ob_Path = ''/data/../etc/passwd'', ob_SkipAnalysis = True\<rparr>"
  let ?W = "\<lparr>we_token = False, we_ticks = []\<rparr> :: nat wait_env"
  obtain E0 :: "nat env" where "os_listing (ev_os E0) = []" "os_io (ev_os E0) = io_ok" "ev_order E0 = []" using env_exists by blast
  then obtain E :: "nat env" where E: "os_listing (ev_os E) = []" "os_io (ev_os E) = io_ok" "ev_order E = []" "ev_host E = ?h"
    by (metis (no_types) env.select_convs env.surjective env.update_convs)
  obtain cfg s0 where m: "main_start bare_start E (\<lambda>_. 0) (no_flags\<lparr>fl_allowedRoots := ''/data''\<rparr>) ''config.json'' = Ret (cfg, s0, [])"
    and c: "cfg_AllowedRoots cfg = SplitList ''/data''" using bare_main_start [OF E(1-3)] by blast
  have "normalizeRoots (h_cwd ?h) (h_EvalSymlinks ?h) (SplitList ''/data'') = [''/data'']" by code_simp
  then have r: "sv_allowedRoots s0 = [''/data'']" using main_start_inv [OF m] by (simp add: c)
  have "validatePath ?h [''/data''] ''path'' ''/data/../etc/passwd'' =
      Err (Quoted ''path '' ''/data/../etc/passwd'' '' is outside the allowed roots'')" by code_simp
  then have run: "serve E ?W [] (OpenBinary ?a) s0 = (Err (Ctx ''open_binary path validation''
      (Quoted ''path '' ''/data/../etc/passwd'' '' is outside the allowed roots'')), s0)"
    by (intro refused_open) (simp add: E(4) r)
  have step: "(serving_step (\<lambda>E. ev_host E = ?h))\<^sup>*\<^sup>* s0 s0" by simp
  have "stored_binaries bare_start E cfg = {}" by (simp add: stored_binaries_def store_Load_def E io_ok_def)
  moreover have "\<forall>sid client. manager_GetClient sid (sv_workers s0) = Ret client \<longrightarrow>
      permitted [''/data''] (wc_binaryPath (mg_clients (sv_workers s0) client))"
    using only_allowed_binaries [OF m _ _ _ _ _ step] r calculation by (simp add: bare_start_def rooted_def)
  ultimately show ?thesis using m run r by blast
qed

end
