(* ===== verification/Racing.thy ===== *)
theory Racing
  imports Opening Expiry
begin

text \<open>
  What happens inside operations that hold no lock throughout. open_binary looks a path up and then
  creates a session, under two acquisitions of the lock of the registry; the watchdog looks at the
  leases of a session and then tears it down. Here the two halves are separate steps, so that those
  of other requests can come between them (internal/server/session.go openBinary and
  cleanupExpiredSessions).
\<close>

section \<open>open_binary in two steps\<close>

definition open_lookup :: "'db env \<Rightarrow> OpenBinaryRequest \<Rightarrow> 'db server \<Rightarrow> (string \<times> nat option) go" where
  "open_lookup E args s =
     (case validatePath (ev_host E) (sv_allowedRoots s) ''path'' (ob_Path args) of
        Err e \<Rightarrow> Err (Ctx ''open_binary path validation'' e)
      | Panic p \<Rightarrow> Panic p
      | Ret validPath \<Rightarrow> Ret (validPath, FindByBinaryPath (sv_registry s) validPath))"

definition open_rest ::
  "'db env \<Rightarrow> OpenBinaryRequest \<Rightarrow> nat option \<Rightarrow> ('db server, tool_result \<times> background list) step" where
  "open_rest E args found s =
     (case found of
        Some existing \<Rightarrow> let (result, s) = open_reused E existing s in (Ret (result, []), s)
      | None \<Rightarrow> open_new E args s)"

text \<open>With nothing in between the two steps are the handler.\<close>

lemma openBinary_phases:
  "openBinary E args s =
     (case open_lookup E args s of
        Err e \<Rightarrow> (Err e, s)
      | Panic p \<Rightarrow> (Panic p, s)
      | Ret (path, found) \<Rightarrow> open_rest E (args\<lparr>ob_Path := path\<rparr>) found s)"
  by (simp add: openBinary_def open_lookup_def open_rest_def Let_def split: go.split option.split)

text \<open>Where a request is: before its lookup, between the two steps, or answered.\<close>

datatype open_pc =
    Calling OpenBinaryRequest
  | Looked OpenBinaryRequest "nat option"
  | Answered "(tool_result \<times> background list) go"

inductive open_step :: "'db server \<times> open_pc list \<Rightarrow> 'db server \<times> open_pc list \<Rightarrow> bool" where
  looks: "i < length pcs \<Longrightarrow> pcs ! i = Calling args \<Longrightarrow> open_lookup E args s = Ret (path, found) \<Longrightarrow>
    open_step (s, pcs) (s, pcs[i := Looked (args\<lparr>ob_Path := path\<rparr>) found])"
| refused: "i < length pcs \<Longrightarrow> pcs ! i = Calling args \<Longrightarrow> open_lookup E args s = Err e \<Longrightarrow>
    open_step (s, pcs) (s, pcs[i := Answered (Err e)])"
| acts: "i < length pcs \<Longrightarrow> pcs ! i = Looked args found \<Longrightarrow> open_rest E args found s = (r, s') \<Longrightarrow>
    open_step (s, pcs) (s', pcs[i := Answered r])"

text \<open>What a new session adds.\<close>

lemma open_new_effect:
  fixes s :: "'db server"
  assumes room: "\<not> (rg_maxSessions (sv_registry s) > 0 \<and> int (map_len (rg_sessions (sv_registry s))) \<ge> rg_maxSessions (sv_registry s))"
    and id: "dr_id (ev_draw E) \<noteq> []" and launch: "os_launch (ev_os E) (dr_id (ev_draw E)) = Ret l"
  defines "ref \<equiv> rg_next (sv_registry s)" and "sid \<equiv> dr_id (ev_draw E)"
  obtains res s' where "open_new E args s = (Ret res, s')"
    "rg_sessions (sv_registry s') = (rg_sessions (sv_registry s))(sid \<mapsto> ref)"
    "rg_binaryIndex (sv_registry s') = (rg_binaryIndex (sv_registry s))(Clean (ob_Path args) \<mapsto> ref)"
    "rg_next (sv_registry s') = Suc ref" "rg_maxSessions (sv_registry s') = rg_maxSessions (sv_registry s)"
    "\<exists>n. rg_heap (sv_registry s') = (rg_heap (sv_registry s))
      (ref := (new_session (ev_draw E) (ob_Path args) (sv_sessionTimeout s))\<lparr>se_WorkerPID := n\<rparr>)"
    "mg_sessions (sv_workers s') = (mg_sessions (sv_workers s))(sid \<mapsto> mg_next (sv_workers s))"
    "mg_next (sv_workers s') = Suc (mg_next (sv_workers s))"
proof -
  let ?x = "new_session (ev_draw E) (ob_Path args) (sv_sessionTimeout s)"
  define s1 where "s1 = recordProgress (ev_now E) sid ''starting'' ''Starting worker'' 0 4
    (s\<lparr>sv_registry := snd (registry_insert ?x (sv_registry s))\<rparr>)"
  have s1: "se_ID (session_of s1 ref) = sid" "sv_workers s1 = sv_workers s" "sv_registry s1 = snd (registry_insert ?x (sv_registry s))"
    by (simp_all add: s1_def session_of_def recordProgress_def insert_simps ref_def sid_def)
  obtain r s' where run: "open_launch E args ref s1 = (r, s')" by (rule prod.exhaust)
  have all: "open_new E args s = (r, s')"
    using run by (simp add: open_new_launch and_then_def open_begin_room [OF room] s1_def ref_def sid_def)
  have l: "os_launch (ev_os E) (se_ID (session_of s1 ref)) = Ret l" "se_ID (session_of s1 ref) \<noteq> []" using launch id s1(1) by (simp_all add: sid_def)
  obtain result where
    "r = Ret (result, [BackgroundOpen ref (mg_next (sv_workers s)) (ob_Path args) (\<not> ob_SkipAnalysis args)])"
    "sv_registry s' = on_session ref (\<lambda>x. x\<lparr>se_WorkerPID := lr_PID l\<rparr>) (snd (registry_insert ?x (sv_registry s)))"
    "mg_sessions (sv_workers s') = (mg_sessions (sv_workers s))(sid \<mapsto> mg_next (sv_workers s))"
    "mg_next (sv_workers s') = Suc (mg_next (sv_workers s))"
    by (rule open_launch_effect [OF l run], rule that) (simp_all add: s1)
  then show thesis
    using all by (intro that) (auto simp: on_session_def registry_insert_def ref_def sid_def)
qed

lemma on_session_heap:
  "rg_heap r' = (rg_heap r)(ref := x) \<Longrightarrow> k \<noteq> ref \<Longrightarrow> rg_heap r' k = rg_heap r k"
  by simp

text \<open>Both look the path up, then both act.\<close>

lemma both_look_first:
  assumes "open_lookup E1 a1 s = Ret (p1, f1)" "open_lookup E2 a2 s = Ret (p2, f2)"
    and "open_rest E1 (a1\<lparr>ob_Path := p1\<rparr>) f1 s = (r1, s1)" "open_rest E2 (a2\<lparr>ob_Path := p2\<rparr>) f2 s1 = (r2, s2)"
  shows "open_step\<^sup>*\<^sup>* (s, [Calling a1, Calling a2]) (s2, [Answered r1, Answered r2])"
proof -
  let ?b1 = "Looked (a1\<lparr>ob_Path := p1\<rparr>) f1" and ?b2 = "Looked (a2\<lparr>ob_Path := p2\<rparr>) f2"
  have "open_step (s, [Calling a1, Calling a2]) (s, [?b1, Calling a2])"
    using open_step.looks [of 0 "[Calling a1, Calling a2]" a1 E1 s p1 f1] assms(1) by simp
  moreover have "open_step (s, [?b1, Calling a2]) (s, [?b1, ?b2])"
    using open_step.looks [of 1 "[?b1, Calling a2]" a2 E2 s p2 f2] assms(2) by simp
  moreover have "open_step (s, [?b1, ?b2]) (s1, [Answered r1, ?b2])"
    using open_step.acts [of 0 "[?b1, ?b2]" "a1\<lparr>ob_Path := p1\<rparr>" f1 E1 s r1 s1] assms(3) by simp
  moreover have "open_step (s1, [Answered r1, ?b2]) (s2, [Answered r1, Answered r2])"
    using open_step.acts [of 1 "[Answered r1, ?b2]" "a2\<lparr>ob_Path := p2\<rparr>" f2 E2 s1 r2 s2] assms(4) by simp
  ultimately show ?thesis by (meson converse_rtranclp_into_rtranclp rtranclp.rtrancl_refl)
qed

text \<open>C32: two clients that open the same binary at the same time can end with two sessions of it, each
  with a worker on the same database, although either request alone, or one after the other, gives
  one session. Both look the path up before either creates its session. The path then leads to the
  second session; once that is closed it leads nowhere, while the first session is still registered.\<close>

theorem racing_opens_make_twins:
  fixes s :: "'db server" and E1 E2 :: "'db env"
  defines "id1 \<equiv> dr_id (ev_draw E1)" and "id2 \<equiv> dr_id (ev_draw E2)"
  assumes valid: "validatePath (ev_host E1) (sv_allowedRoots s) ''path'' (ob_Path a1) = Ret p"
      "validatePath (ev_host E2) (sv_allowedRoots s) ''path'' (ob_Path a2) = Ret p"
    and none: "FindByBinaryPath (sv_registry s) p = None"
    and inv: "registry_inv (sv_registry s)"
    and ids: "fresh_id id1 s" "fresh_id id2 s" "id1 \<noteq> id2"
    and launch: "os_launch (ev_os E1) id1 = Ret l1" "os_launch (ev_os E2) id2 = Ret l2"
    and room: "rg_maxSessions (sv_registry s) \<le> 0 \<or> int (map_len (rg_sessions (sv_registry s))) + 2 \<le> rg_maxSessions (sv_registry s)"
  shows "\<exists>s' r1 r2 ref1 ref2 c1 c2.
     open_step\<^sup>*\<^sup>* (s, [Calling a1, Calling a2]) (s', [Answered (Ret r1), Answered (Ret r2)]) \<and>
     registry_Get (sv_registry s') id1 = Some ref1 \<and> registry_Get (sv_registry s') id2 = Some ref2 \<and> ref1 \<noteq> ref2 \<and>
     se_BinaryPath (session_of s' ref1) = Clean p \<and> se_BinaryPath (session_of s' ref2) = Clean p \<and>
     manager_GetClient id1 (sv_workers s') = Ret c1 \<and> manager_GetClient id2 (sv_workers s') = Ret c2 \<and> c1 \<noteq> c2 \<and>
     FindByBinaryPath (sv_registry s') p = Some ref2 \<and>
     FindByBinaryPath (registry_Delete id2 (sv_registry s')) p = None \<and>
     registry_Get (registry_Delete id2 (sv_registry s')) id1 = Some ref1"
proof -
  let ?b1 = "a1\<lparr>ob_Path := p\<rparr>" and ?b2 = "a2\<lparr>ob_Path := p\<rparr>"
  have look: "open_lookup E1 a1 s = Ret (p, None)" "open_lookup E2 a2 s = Ret (p, None)"
    by (simp_all add: open_lookup_def valid none)
  have id: "id1 \<noteq> []" "id2 \<noteq> []" using ids by (simp_all add: fresh_id_def)
  have room1: "\<not> (rg_maxSessions (sv_registry s) > 0 \<and> int (map_len (rg_sessions (sv_registry s))) \<ge> rg_maxSessions (sv_registry s))"
    using room by auto
  obtain r1 s1 where one: "open_new E1 ?b1 s = (Ret r1, s1)"
    "rg_sessions (sv_registry s1) = (rg_sessions (sv_registry s))(id1 \<mapsto> rg_next (sv_registry s))"
    "rg_next (sv_registry s1) = Suc (rg_next (sv_registry s))" "rg_maxSessions (sv_registry s1) = rg_maxSessions (sv_registry s)"
    "\<exists>n. rg_heap (sv_registry s1) = (rg_heap (sv_registry s))(rg_next (sv_registry s) :=
      (new_session (ev_draw E1) (ob_Path ?b1) (sv_sessionTimeout s))\<lparr>se_WorkerPID := n\<rparr>)"
    "mg_sessions (sv_workers s1) = (mg_sessions (sv_workers s))(id1 \<mapsto> mg_next (sv_workers s))"
    "mg_next (sv_workers s1) = Suc (mg_next (sv_workers s))"
    using open_new_effect [OF room1 id(1) [unfolded id1_def] launch(1) [unfolded id1_def], of ?b1] unfolding id1_def by metis
  have "map_len (rg_sessions (sv_registry s1)) = Suc (map_len (rg_sessions (sv_registry s)))"
    using inv ids(1) by (simp add: one(2) map_len_def registry_inv_def card_insert_if domIff fresh_id_def)
  then have room2: "\<not> (rg_maxSessions (sv_registry s1) > 0 \<and> int (map_len (rg_sessions (sv_registry s1))) \<ge> rg_maxSessions (sv_registry s1))"
    using room by (auto simp: one(4))
  obtain r2 s2 where two: "open_new E2 ?b2 s1 = (Ret r2, s2)"
    "rg_sessions (sv_registry s2) = (rg_sessions (sv_registry s1))(id2 \<mapsto> rg_next (sv_registry s1))"
    "rg_binaryIndex (sv_registry s2) = (rg_binaryIndex (sv_registry s1))(Clean (ob_Path ?b2) \<mapsto> rg_next (sv_registry s1))"
    "\<exists>n. rg_heap (sv_registry s2) = (rg_heap (sv_registry s1))(rg_next (sv_registry s1) :=
      (new_session (ev_draw E2) (ob_Path ?b2) (sv_sessionTimeout s1))\<lparr>se_WorkerPID := n\<rparr>)"
    "mg_sessions (sv_workers s2) = (mg_sessions (sv_workers s1))(id2 \<mapsto> mg_next (sv_workers s1))"
    using open_new_effect [OF room2 id(2) [unfolded id2_def] launch(2) [unfolded id2_def], of ?b2] unfolding id2_def by metis
  have run: "open_step\<^sup>*\<^sup>* (s, [Calling a1, Calling a2]) (s2, [Answered (Ret r1), Answered (Ret r2)])"
    using one(1) two(1) by (intro both_look_first [OF look, where ?s1.0 = s1]) (simp_all add: open_rest_def)
  let ?ref1 = "rg_next (sv_registry s)" and ?ref2 = "rg_next (sv_registry s1)"
  have heap: "se_BinaryPath (session_of s2 ?ref1) = Clean p" "se_BinaryPath (session_of s2 ?ref2) = Clean p"
    using one(3,5) two(4) by (auto simp: session_of_def)
  have reg: "registry_Get (sv_registry s2) id1 = Some ?ref1" "registry_Get (sv_registry s2) id2 = Some ?ref2"
    "FindByBinaryPath (sv_registry s2) p = Some ?ref2"
    using ids(3) by (simp_all add: registry_Get_def FindByBinaryPath_def one(2) two(2,3))
  moreover have "FindByBinaryPath (registry_Delete id2 (sv_registry s2)) p = None \<and>
      registry_Get (registry_Delete id2 (sv_registry s2)) id1 = Some ?ref1"
    using reg heap ids(3) by (auto simp: registry_Delete_def FindByBinaryPath_def registry_Get_def session_of_def)
  moreover have "manager_GetClient id1 (sv_workers s2) = Ret (mg_next (sv_workers s))"
    "manager_GetClient id2 (sv_workers s2) = Ret (mg_next (sv_workers s1))"
    using ids(3) by (simp_all add: manager_GetClient_def one(6) two(5))
  ultimately show ?thesis
    using run heap one(3,7)
    by (intro exI [of _ s2] exI [of _ r1] exI [of _ r2] exI [of _ ?ref1] exI [of _ ?ref2]
        exI [of _ "mg_next (sv_workers s)"] exI [of _ "mg_next (sv_workers s1)"]) simp
qed

text \<open>A second draw, next to that of \<open>demo_launch\<close>.\<close>

definition demo_launch' :: "'db env \<Rightarrow> 'db env" where
  "demo_launch' E = (demo_launch E)\<lparr>ev_draw := (ev_draw (demo_launch E))\<lparr>dr_id := ''c''\<rparr>\<rparr>"

theorem racing_opens_make_twins_witness:
  "\<forall>dbs :: nat \<Rightarrow> 'db. \<exists>s' r1 r2.
     open_step\<^sup>*\<^sup>* (one_session dbs ''ready'', [Calling \<lparr>ob_Path = ''/y'', ob_SkipAnalysis = True\<rparr>, Calling \<lparr>ob_Path = ''/y'', ob_SkipAnalysis = False\<rparr>])
       (s', [Answered (Ret r1), Answered (Ret r2)]) \<and>
     registry_Get (sv_registry s') ''b'' \<noteq> None \<and> registry_Get (sv_registry s') ''c'' \<noteq> None \<and>
     FindByBinaryPath (registry_Delete ''c'' (sv_registry s')) ''/y'' = None"
proof
  fix dbs :: "nat \<Rightarrow> 'db"
  define s where "s = one_session dbs ''ready''"
  let ?E = "demo_launch undefined :: 'db env" and ?E' = "demo_launch' undefined :: 'db env"
  let ?a = "\<lparr>ob_Path = ''/y'', ob_SkipAnalysis = True\<rparr> :: OpenBinaryRequest"
  let ?b = "\<lparr>ob_Path = ''/y'', ob_SkipAnalysis = False\<rparr> :: OpenBinaryRequest"
  have s: "rg_sessions (sv_registry s) = [''a'' \<mapsto> 0]" "rg_binaryIndex (sv_registry s) = [''/x'' \<mapsto> 0]"
    "mg_sessions (sv_workers s) = [''a'' \<mapsto> 0]" "sv_cache s = Map.empty" "sv_allowedRoots s = []"
    "rg_maxSessions (sv_registry s) = 0" "rg_next (sv_registry s) = 1" "sv_progress s ''b'' = None" "sv_progress s ''c'' = None"
    "rg_heap (sv_registry s) = (\<lambda>_. no_session\<lparr>se_ID := ''a'', se_BinaryPath := ''/x''\<rparr>)"
    by (simp_all add: s_def one_session_simps) (simp_all add: one_session_def recordProgress_def New_def)
  have clean: "Clean ''/y'' = ''/y''" by code_simp
  have E: "dr_id (ev_draw ?E) = ''b''" "dr_id (ev_draw ?E') = ''c''" "\<exists>l. os_launch (ev_os ?E) ''b'' = Ret l" "\<exists>l. os_launch (ev_os ?E') ''c'' = Ret l"
    by (simp_all add: demo_launch_def demo_launch'_def)
  obtain l1 l2 where l: "os_launch (ev_os ?E) ''b'' = Ret l1" "os_launch (ev_os ?E') ''c'' = Ret l2" using E(3,4) by blast
  have valid: "validatePath h (sv_allowedRoots s) ''path'' (ob_Path ?a) = Ret ''/y''"
    "validatePath h (sv_allowedRoots s) ''path'' (ob_Path ?b) = Ret ''/y''" for h
    by (simp_all add: validatePath_def s)
  have none: "FindByBinaryPath (sv_registry s) ''/y'' = None" by (simp add: FindByBinaryPath_def clean s)
  have inv: "registry_inv (sv_registry s)" by (auto simp: registry_inv_def s)
  have ids: "fresh_id (dr_id (ev_draw ?E)) s" "fresh_id (dr_id (ev_draw ?E')) s" "dr_id (ev_draw ?E) \<noteq> dr_id (ev_draw ?E')"
    by (simp_all add: fresh_id_def E s)
  have room: "rg_maxSessions (sv_registry s) \<le> 0 \<or>
      int (map_len (rg_sessions (sv_registry s))) + 2 \<le> rg_maxSessions (sv_registry s)" by (simp add: s)
  from racing_opens_make_twins [OF valid none inv ids l [folded E(1,2)] room] show "\<exists>s' r1 r2.
     open_step\<^sup>*\<^sup>* (one_session dbs ''ready'', [Calling ?a, Calling ?b]) (s', [Answered (Ret r1), Answered (Ret r2)]) \<and>
     registry_Get (sv_registry s') ''b'' \<noteq> None \<and> registry_Get (sv_registry s') ''c'' \<noteq> None \<and>
     FindByBinaryPath (registry_Delete ''c'' (sv_registry s')) ''/y'' = None"
    unfolding s_def E(1,2) by (elim exE conjE) (intro exI conjI; (assumption | simp))
qed

section \<open>The watchdog in two steps\<close>

definition check_expired :: "'db env \<Rightarrow> nat \<Rightarrow> 'db server \<Rightarrow> bool" where
  "check_expired E sess s \<longleftrightarrow> \<not> HasInFlight (session_of s sess) \<and> IsExpired (ev_now E) (session_of s sess)"

lemma cleanup_phases:
  "cleanupExpiredSessions E [sess] s =
     (if check_expired E sess s then (1, drop_session E (se_ID (session_of s sess)) s) else (0, s))"
  by (simp add: cleanup_Cons check_expired_def drop_session_def Let_def)

text \<open>C29: the lease of a request does not protect it from a watchdog that has already looked. When the
  check of an idle, expired session comes first, then a request that resolves the session, then the
  teardown, the request holds a lease and a worker client, and its session has just been touched, yet
  the session is gone and its worker has been stopped under the request. Had the check come after the
  lease, the session would have been spared.\<close>

theorem lease_loses_to_watchdog:
  fixes s :: "'db server" and E E' :: "'db env"
  assumes check: "check_expired E sess s" and idle: "se_inFlight (session_of s sess) = 0"
    and id: "se_ID (session_of s sess) = sid" "sid \<noteq> []"
    and resolve: "resolveClientDuringLoad E' sid tool s = (Ret (sess, client), s1)"
    and stop: "st_error (os_stop (ev_os E) sid) = None"
  defines "s2 \<equiv> drop_session E sid s1"
  shows "HasInFlight (session_of s2 sess) \<and> sess \<in> set (sv_leases s2) \<and> se_LastActivity (session_of s2 sess) = ev_now E' \<and>
    manager_GetClient sid (sv_workers s1) = Ret client \<and>
    registry_Get (sv_registry s2) sid = None \<and> (\<exists>e. manager_GetClient sid (sv_workers s2) = Err e) \<and>
    sv_cache s2 sid = None \<and> getProgress sid s2 = None \<and>
    cleanupExpiredSessions E [sess] s1 = (0, s1)"
proof -
  note r = resolveClientDuringLoad_Ret [OF resolve]
  have sess: "session_of s1 sess = AcquireInFlight (Touch (ev_now E') (session_of s sess))"
    by (simp add: r(1) session_of_leased)
  then have last: "se_LastActivity (session_of s1 sess) = ev_now E'" by (simp add: AcquireInFlight_def Touch_def)
  have busy: "HasInFlight (session_of s1 sess)"
    using idle by (simp add: sess HasInFlight_def AcquireInFlight_def Touch_def wrap_int_def)
  have "mg_sessions (snd (manager_Stop (os_stop (ev_os E) sid) sid m)) sid = None" for m
    by (rule manager_Stop_removes [OF stop])
  then have "\<exists>e. manager_GetClient sid (sv_workers s2) = Err e"
    by (simp add: s2_def drop_session_simps manager_GetClient_def)
  moreover have "sv_leases s2 = sv_leases s1"
    by (simp add: s2_def drop_session_def clearProgress_def deleteSessionCache_def deleteSessionState_def workers_Stop_cases
        on_registry_def split: option.splits)
  ultimately show ?thesis
    using busy last id r(1,3)
    by (simp add: s2_def drop_session_simps registry_Get_def registry_Delete_simps getProgress_def cleanup_phases check_expired_def)
qed

theorem lease_loses_to_watchdog_witness:
  "\<forall>dbs :: nat \<Rightarrow> 'db. \<exists>(E :: 'db env) (E' :: 'db env). let s = one_session dbs ''ready''; s1 = snd (resolveClientDuringLoad E' ''a'' ''read_memory'' s)
     in check_expired E 0 s \<and> HasInFlight (session_of (drop_session E ''a'' s1) 0) \<and>
        registry_Get (sv_registry (drop_session E ''a'' s1)) ''a'' = None"
proof
  fix dbs :: "nat \<Rightarrow> 'db"
  let ?s = "one_session dbs ''ready''"
  define E where "E = (\<lambda>e :: 'db env. e\<lparr>ev_now := 100, ev_os := (ev_os e)\<lparr>os_stop := \<lambda>_. \<lparr>st_error = None, st_exits = True\<rparr>\<rparr>\<rparr>)"
  have E: "ev_now (E e) = 100" "st_error (os_stop (ev_os (E e)) sid) = None" for e sid by (simp_all add: E_def)
  have sess: "session_of ?s 0 = no_session\<lparr>se_ID := ''a'', se_BinaryPath := ''/x''\<rparr>" by (simp add: one_session_simps)
  have check: "check_expired (E undefined) 0 ?s"
    by (simp add: check_expired_def sess E HasInFlight_def IsExpired_def no_session_def)
  from lease_loses_to_watchdog [OF check _ _ _ one_session_load [where E = undefined] E(2)]
  have "HasInFlight (session_of (drop_session (E undefined) ''a'' (leased (ev_now (undefined :: 'db env)) 0 ?s)) 0) \<and>
    registry_Get (sv_registry (drop_session (E undefined) ''a'' (leased (ev_now (undefined :: 'db env)) 0 ?s))) ''a'' = None"
    by (simp add: sess no_session_def)
  then show "\<exists>(E :: 'db env) (E' :: 'db env). let s = ?s; s1 = snd (resolveClientDuringLoad E' ''a'' ''read_memory'' s)
     in check_expired E 0 s \<and> HasInFlight (session_of (drop_session E ''a'' s1) 0) \<and>
        registry_Get (sv_registry (drop_session E ''a'' s1)) ''a'' = None"
    using check by (intro exI [of _ "E undefined"] exI [of _ undefined]) (simp add: one_session_load Let_def)
qed

end
