(* ===== verification/Orphans.thy ===== *)
theory Orphans
  imports Restart Racing
begin

text \<open>
  A session is listed while its worker is still being started (openBinary of
  internal/server/session.go). open_binary of a new path is two steps, up to the launch and from the
  launch on (Opening), and close_binary may come between them.
\<close>

section \<open>close_binary of a session without a worker\<close>

lemma close_without_worker:
  fixes s :: "'db server"
  assumes "registry_Get (sv_registry s) sid = Some sess" and "se_ID (session_of s sess) = sid" and "sid \<noteq> []"
    and "mg_sessions (sv_workers s) sid = None"
  obtains w s' where
    "closeBinary E \<lparr>cb_SessionID = sid\<rparr> s = (Ret (JsonContent (JObject [(''status'', JString ''closed''), (''warning'', JString w)])), s')"
    "sv_registry s' = registry_Delete sid (sv_registry s)" "sv_workers s' = sv_workers s"
    "sv_store s' = map_option (\<lambda>d. snd (store_Delete (os_io (ev_os E)) sid d)) (sv_store s)"
proof -
  have stop: "workers_Stop E sid s = (Err (Msg (''no worker for session '' @ sid)), s)"
    using assms(4) by (simp add: workers_Stop_cases manager_Stop_def manager_GetClient_def and_then_def)
  have res: "resolveSession (ev_order E) sid s = (Ret sess, s)" using assms(1,3) by (simp add: resolveSession_def)
  define t where "t = clearProgress sid (deleteSessionCache sid (deleteSessionState E sid (on_registry (registry_Delete sid) s)))"
  have t: "sv_registry t = registry_Delete sid (sv_registry s)" "sv_workers t = sv_workers s"
    "sv_store t = map_option (\<lambda>d. snd (store_Delete (os_io (ev_os E)) sid d)) (sv_store s)"
    using assms(3) by (simp_all add: t_def clearProgress_def deleteSessionCache_def deleteSessionState_def on_registry_def split: option.split)
  have demote: "sv_registry (demoteToTier0 t) = sv_registry t" "sv_workers (demoteToTier0 t) = sv_workers t"
    "sv_store (demoteToTier0 t) = sv_store t"
    by (simp_all add: demoteToTier0_def RemoveTools_def Let_def)
  have "closeBinary E \<lparr>cb_SessionID = sid\<rparr> s =
      (Ret (JsonContent (JObject [(''status'', JString ''closed''),
        (''warning'', JString (''worker stop: '' @ err_text (ev_quote E) (Msg (''no worker for session '' @ sid))))])),
       if length (registry_List (ev_order E) (sv_registry t)) = 0 then demoteToTier0 t else t)"
    by (simp add: closeBinary_def and_then_def res Let_def assms(2) stop t_def)
  then show thesis by (rule that) (simp_all add: demote t)
qed

section \<open>What can stop a worker\<close>

text \<open>The watchdog, close_binary and the handler of an interrupt are the operations that stop workers.\<close>

inductive reap_step :: "'db server \<Rightarrow> 'db server \<Rightarrow> bool" where
  reaps_expired: "reap_step s (Watchdog E s)"
| reaps_closed: "reap_step s (snd (closeBinary E args s))"
| reaps_all: "reap_step s (shutdown_workers E s)"

definition orphan :: "string \<Rightarrow> nat \<Rightarrow> 'db server \<Rightarrow> bool" where
  "orphan sid client s \<longleftrightarrow>
     registry_inv (sv_registry s) \<and> registry_Get (sv_registry s) sid = None \<and> manager_GetClient sid (sv_workers s) = Ret client"

lemma orphan_cong:
  "orphan sid client s \<Longrightarrow> sv_registry s' = sv_registry s \<Longrightarrow> sv_workers s' = sv_workers s \<Longrightarrow> orphan sid client s'"
  by (simp add: orphan_def)

lemma orphan_other:
  assumes "orphan sid client s" and "rg_sessions (sv_registry s) k = Some ref"
  shows "se_ID (session_of s ref) \<noteq> sid"
  using assms registry_invD [of "sv_registry s" k ref] by (auto simp: orphan_def registry_Get_def session_of_def)

lemma orphan_stop: "orphan sid client s \<Longrightarrow> k \<noteq> sid \<Longrightarrow> orphan sid client (snd (workers_Stop E k s))"
  by (simp add: orphan_def workers_Stop_cases manager_GetClient_def manager_Stop_other)

lemma orphan_unregister: "orphan sid client s \<Longrightarrow> orphan sid client (on_registry (registry_Delete k) s)"
  using registry_inv_Delete(1) by (auto simp: orphan_def on_registry_def registry_Get_def registry_Delete_simps)

lemma orphan_drop: "orphan sid client s \<Longrightarrow> k \<noteq> sid \<Longrightarrow> orphan sid client (drop_session E k s)"
  using registry_inv_Delete(1)
  by (auto simp: orphan_def drop_session_simps registry_Get_def registry_Delete_simps manager_GetClient_def manager_Stop_other)

lemma orphan_cleanup:
  assumes "orphan sid client s" and "\<forall>r \<in> set expired. se_ID (session_of s r) \<noteq> sid"
  shows "orphan sid client (snd (cleanupExpiredSessions E expired s))"
  using assms
  by (induction expired arbitrary: s)
    (simp_all add: cleanup_Cons orphan_drop drop_session_simps(2) del: cleanupExpiredSessions.simps(2))

lemma orphan_demote: "orphan sid client s \<Longrightarrow> orphan sid client (demoteToTier0 s)"
  by (erule orphan_cong) (simp_all add: demoteToTier0_def RemoveTools_def Let_def)

lemma orphan_Watchdog: "orphan sid client s \<Longrightarrow> orphan sid client (Watchdog E s)"
proof -
  assume o: "orphan sid client s"
  have "\<forall>r \<in> set (registry_Expired (ev_now E) (ev_order E) (sv_registry s)). se_ID (session_of s r) \<noteq> sid"
    using orphan_other [OF o] by (auto simp: set_registry_Expired)
  from orphan_cleanup [OF o this] Watchdog_cases [of E s] orphan_demote show ?thesis by metis
qed

lemma orphan_close: "orphan sid client s \<Longrightarrow> orphan sid client (snd (closeBinary E args s))"
proof -
  assume o: "orphan sid client s"
  show ?thesis
  proof (cases "fst (resolveSession (ev_order E) (cb_SessionID args) s)")
    case (Ret sess)
    then have res: "resolveSession (ev_order E) (cb_SessionID args) s = (Ret sess, s)" by (metis prod.collapse resolveSession_state)
    define k where "k = se_ID (session_of s sess)"
    have "k \<noteq> sid" using resolveSession_Ret(2) [OF res] orphan_other [OF o] by (auto simp: k_def)
    then have u: "orphan sid client (on_registry (registry_Delete k) (snd (workers_Stop E k s)))"
      by (intro orphan_unregister orphan_stop o)
    have "orphan sid client (clearProgress k (deleteSessionCache k (deleteSessionState E k
        (on_registry (registry_Delete k) (snd (workers_Stop E k s))))))"
      by (rule orphan_cong [OF u]) (auto simp: clearProgress_def deleteSessionCache_def deleteSessionState_def split: option.split)
    then show ?thesis
      using orphan_demote
      by (auto simp: closeBinary_def and_then_def res Let_def case_prod_unfold k_def split: go.split)
  qed (use o in \<open>auto simp: closeBinary_def and_then_def case_prod_unfold split: go.split\<close>)
qed

lemma orphan_shutdown: "orphan sid client s \<Longrightarrow> orphan sid client (shutdown_workers E s)"
proof -
  assume o: "orphan sid client s"
  have "orphan sid client (fold (\<lambda>sess s. snd (workers_Stop E (se_ID (session_of s sess)) s)) refs s)"
    if "\<forall>r \<in> set refs. se_ID (session_of s r) \<noteq> sid" for refs
    using o that
  proof (induction refs arbitrary: s)
    case (Cons r refs)
    have "session_of (snd (workers_Stop E k s)) ref = session_of s ref" for k ref by (simp add: workers_Stop_cases session_of_def)
    then show ?case using Cons.prems by (simp add: Cons.IH orphan_stop)
  qed simp
  moreover have "\<forall>r \<in> set (registry_List (ev_order E) (sv_registry s)). se_ID (session_of s r) \<noteq> sid"
    using orphan_other [OF o] by (auto simp: set_registry_List)
  ultimately show ?thesis unfolding shutdown_workers_def by blast
qed

lemma orphan_reaped: "reap_step\<^sup>*\<^sup>* s s' \<Longrightarrow> orphan sid client s \<Longrightarrow> orphan sid client s'"
  by (induction rule: rtranclp_induct) (auto elim!: reap_step.cases simp: orphan_Watchdog orphan_close orphan_shutdown)

section \<open>Closing a session that is being started\<close>

text \<open>C33: close_binary of a session whose worker is still being started does not stop that worker.
  The session is listed from the moment it is created; close_binary answers that it is closed, with
  a warning that there is no worker. When the launch then succeeds, open_binary reports the session
  as opening, although the session is registered no more and its path leads nowhere. The worker has a
  client, and no watchdog tick, close_binary or interrupt that follows, in any order, stops it: they
  reach workers through the registry only. And the metadata is written again, so that a restart
  restores the closed session.\<close>

theorem close_while_starting_orphans:
  assumes inv: "registry_inv (sv_registry s)" and fresh: "fresh_id sid s" and id: "dr_id (ev_draw E) = sid"
    and launch: "os_launch (ev_os E) sid = Ret l"
    and begun: "open_begin E args s = (Ret sess, s1)"
    and closed: "closeBinary E' \<lparr>cb_SessionID = sid\<rparr> s1 = (answer, s2)"
    and opened: "open_launch E args sess s2 = (r, s3)"
  shows "(\<exists>w. answer = Ret (JsonContent (JObject [(''status'', JString ''closed''), (''warning'', JString w)]))) \<and>
    (\<exists>result client. r = Ret (result, [BackgroundOpen sess client (ob_Path args) (\<not> ob_SkipAnalysis args)]) \<and>
       FindByBinaryPath (sv_registry s3) (ob_Path args) = None \<and>
       (\<forall>s'. reap_step\<^sup>*\<^sup>* s3 s' \<longrightarrow>
          registry_Get (sv_registry s') sid = None \<and> manager_GetClient sid (sv_workers s') = Ret client)) \<and>
    (\<forall>d data. sv_store s = Some d \<longrightarrow> os_io (ev_os E) = io_ok \<longrightarrow>
       os_encode (ev_os E) (session_Metadata (session_of s1 sess)) = Ret data \<longrightarrow>
       (\<exists>d'. sv_store s3 = Some d' \<and> d' (sid @ ''.json'') = Some (File data)))"
proof -
  let ?x = "new_session (ev_draw E) (ob_Path args) (sv_sessionTimeout s)"
  note b = open_begin_effect [OF begun, unfolded id]
  have ids: "sid \<noteq> []" "rg_sessions (sv_registry s) sid = None" "mg_sessions (sv_workers s) sid = None"
    using fresh by (simp_all add: fresh_id_def)
  have at: "registry_Get (sv_registry s1) sid = Some sess" "se_ID (session_of s1 sess) = sid" "mg_sessions (sv_workers s1) sid = None"
    using b ids id by (simp_all add: registry_Get_def insert_simps)
  obtain w where c: "answer = Ret (JsonContent (JObject [(''status'', JString ''closed''), (''warning'', JString w)]))"
    "sv_registry s2 = registry_Delete sid (sv_registry s1)" "sv_workers s2 = sv_workers s1"
    "sv_store s2 = map_option (\<lambda>d. snd (store_Delete (os_io (ev_os E')) sid d)) (sv_store s1)"
    using close_without_worker [OF at(1,2) ids(1) at(3), of E'] closed by (metis prod.inject)
  have sess: "session_of s2 sess = ?x"
    using b ids(1) by (simp add: session_of_def c(2) registry_Delete_simps)
  define client where "client = mg_next (sv_workers s2)"
  have l: "os_launch (ev_os E) (se_ID (session_of s2 sess)) = Ret l" "se_ID (session_of s2 sess) \<noteq> []" using launch id ids(1) by (simp_all add: sess)
  obtain result where o: "r = Ret (result, [BackgroundOpen sess client (ob_Path args) (\<not> ob_SkipAnalysis args)])"
    "sv_registry s3 = on_session sess (\<lambda>x. x\<lparr>se_WorkerPID := lr_PID l\<rparr>) (sv_registry s2)"
    "mg_sessions (sv_workers s3) = (mg_sessions (sv_workers s2))(sid \<mapsto> client)"
    "\<And>d data. sv_store s2 = Some d \<Longrightarrow> os_io (ev_os E) = io_ok \<Longrightarrow> os_encode (ev_os E) (session_Metadata ?x) = Ret data \<Longrightarrow>
       \<exists>d'. sv_store s3 = Some d' \<and> d' (sid @ ''.json'') = Some (File data)"
    by (rule open_launch_effect [OF l opened], rule that) (simp_all add: sess id client_def)
  have "se_BinaryPath (session_of s1 sess) = Clean (ob_Path args)" using b(5) ids(1) by simp
  then have gone: "FindByBinaryPath (sv_registry s3) (ob_Path args) = None"
    using at(1,2) by (simp add: FindByBinaryPath_def o(2) on_session_def c(2) registry_Delete_def registry_Get_def session_of_def)
  have "registry_inv (sv_registry s1)"
    using registry_inv_Create [OF inv, of "ev_draw E" "ob_Path args" "sv_sessionTimeout s"] begun ids(1,2) id b
    by (auto simp: open_begin_def Create_new split: if_splits)
  then have "orphan sid client s3"
    using o(3) by (simp add: orphan_def o(2) c(2) registry_inv_on_session registry_inv_Delete(1) registry_Get_def manager_GetClient_def)
      (simp add: on_session_def registry_Delete_simps)
  then have safe: "orphan sid client s'" if "reap_step\<^sup>*\<^sup>* s3 s'" for s' using that orphan_reaped by blast
  have "session_of s1 sess = ?x" using b(5) ids(1) .
  then have store: "\<exists>d'. sv_store s3 = Some d' \<and> d' (sid @ ''.json'') = Some (File data)"
    if "sv_store s = Some d" "os_io (ev_os E) = io_ok" "os_encode (ev_os E) (session_Metadata (session_of s1 sess)) = Ret data" for d data
    using o(4) that b(4) ids(1) by (simp add: c(4))
  show ?thesis using c(1) o(1) gone safe store by (auto simp: orphan_def)
qed

theorem close_while_starting_orphans_witness:
  "\<forall>dbs :: nat \<Rightarrow> 'db. \<exists>(E :: 'db env) s1 s2 s3 result client.
     let s = (one_session dbs ''ready'')\<lparr>sv_store := Some Map.empty\<rparr>; a = \<lparr>ob_Path = ''/y'', ob_SkipAnalysis = True\<rparr> in
     open_begin E a s = (Ret 1, s1) \<and> snd (closeBinary E \<lparr>cb_SessionID = ''b''\<rparr> s1) = s2 \<and>
     open_launch E a 1 s2 = (Ret (result, [BackgroundOpen 1 client ''/y'' False]), s3) \<and>
     registry_Get (sv_registry (shutdown_workers E s3)) ''b'' = None \<and>
     manager_GetClient ''b'' (sv_workers (shutdown_workers E s3)) = Ret client \<and>
     the (sv_store s3) ''b.json'' = Some (File ''b'')"
proof
  fix dbs :: "nat \<Rightarrow> 'db"
  define E where "E = (\<lambda>e :: 'db env. (demo_launch e)\<lparr>ev_os := (ev_os (demo_launch e))\<lparr>os_io := io_ok, os_encode := enc_id\<rparr>\<rparr>)"
  define e where "e = E undefined"
  have e: "dr_id (ev_draw e) = ''b''" "os_io (ev_os e) = io_ok" "os_encode (ev_os e) = enc_id" by (simp_all add: e_def E_def demo_launch_def)
  obtain l where l: "os_launch (ev_os e) ''b'' = Ret l" by (simp add: e_def E_def demo_launch_def)
  define s where "s = (one_session dbs ''ready'')\<lparr>sv_store := Some Map.empty\<rparr>"
  let ?a = "\<lparr>ob_Path = ''/y'', ob_SkipAnalysis = True\<rparr> :: OpenBinaryRequest"
  have reg: "rg_sessions (sv_registry s) = [''a'' \<mapsto> 0]" "rg_binaryIndex (sv_registry s) = [''/x'' \<mapsto> 0]" "rg_maxSessions (sv_registry s) = 0"
    "rg_next (sv_registry s) = 1" "rg_heap (sv_registry s) = (\<lambda>_. no_session\<lparr>se_ID := ''a'', se_BinaryPath := ''/x''\<rparr>)"
    by (simp_all add: s_def one_session_simps) (simp_all add: one_session_def recordProgress_def New_def)
  then have inv: "registry_inv (sv_registry s)" by (auto simp: registry_inv_def)
  have fresh: "fresh_id ''b'' s" using reg by (simp add: fresh_id_def s_def one_session_simps) (simp add: one_session_def recordProgress_def New_def)
  obtain s1 where b: "open_begin e ?a s = (Ret 1, s1)" using reg by (simp add: open_begin_def Create_new Let_def)
  have x: "session_of s1 1 = new_session (ev_draw e) ''/y'' (sv_sessionTimeout s)" using open_begin_effect(5) [OF b] by (simp add: e)
  obtain answer s2 where c: "closeBinary e \<lparr>cb_SessionID = ''b''\<rparr> s1 = (answer, s2)" by (rule prod.exhaust)
  obtain r s3 where o: "open_launch e ?a 1 s2 = (r, s3)" by (rule prod.exhaust)
  have enc: "os_encode (ev_os e) (session_Metadata (session_of s1 1)) = Ret ''b''" by (simp add: e x enc_id_def session_Metadata_def del: One_nat_def)
  have st: "sv_store s = Some Map.empty" by (simp add: s_def)
  have reap: "reap_step\<^sup>*\<^sup>* s3 (shutdown_workers e s3)" by (simp add: r_into_rtranclp reap_step.reaps_all)
  from close_while_starting_orphans [OF inv fresh e(1) l b c o] reap st e(2) enc obtain result client where
    "r = Ret (result, [BackgroundOpen 1 client ''/y'' False])" "registry_Get (sv_registry (shutdown_workers e s3)) ''b'' = None"
    "manager_GetClient ''b'' (sv_workers (shutdown_workers e s3)) = Ret client" "the (sv_store s3) ''b.json'' = Some (File ''b'')"
    by fastforce
  then show "\<exists>(E :: 'db env) s1 s2 s3 result client.
     let s = (one_session dbs ''ready'')\<lparr>sv_store := Some Map.empty\<rparr>; a = \<lparr>ob_Path = ''/y'', ob_SkipAnalysis = True\<rparr> in
     open_begin E a s = (Ret 1, s1) \<and> snd (closeBinary E \<lparr>cb_SessionID = ''b''\<rparr> s1) = s2 \<and>
     open_launch E a 1 s2 = (Ret (result, [BackgroundOpen 1 client ''/y'' False]), s3) \<and>
     registry_Get (sv_registry (shutdown_workers E s3)) ''b'' = None \<and>
     manager_GetClient ''b'' (sv_workers (shutdown_workers E s3)) = Ret client \<and>
     the (sv_store s3) ''b.json'' = Some (File ''b'')"
    unfolding Let_def s_def [symmetric] using b c o by (metis snd_conv)
qed

end
