(* ===== verification/Exposure.thy ===== *)
theory Exposure
  imports Startup
begin

text \<open>
  What main tells the operator about the exposure of the server (cmd/ida-pilot/main.go), next to what
  the guard of internal/server/http.go lets through. The first part relates the two tests for a
  loopback address, isLoopbackBind and isLoopbackHost, on the text of IPv6 addresses; the second
  keeps the settings of the server through its life, by the contract of Serving; the third is the
  routing behind the guard.
\<close>

section \<open>IP addresses in lower case\<close>

lemma of_char_ascii_lower:
  "(of_char (ascii_lower c) :: nat) = (if 65 \<le> (of_char c :: nat) \<and> of_char c \<le> (90 :: nat) then of_char c + 32 else of_char c)"
  by (simp add: ascii_lower_def)

lemma digit_of_lower: "digit_of (ascii_lower c) = digit_of c"
  by (simp add: digit_of_def Let_def of_char_ascii_lower)

lemma is_hex_lower: "is_hex (ascii_lower c) = is_hex c"
  by (simp add: is_hex_def digit_of_lower)

lemma hex_value_lower: "hex_value (map ascii_lower s) = hex_value s"
  by (simp add: hex_value_def foldl_map digit_of_lower)

lemma lower_sign: "x \<in> {CHR ''.'', CHR '':'', CHR ''%''} \<Longrightarrow> ascii_lower c = x \<longleftrightarrow> c = x"
  using ascii_lower_other [of c x] by (auto simp: ascii_lower_def)

lemmas lower_signs = lower_sign [of "CHR ''.''", simplified] lower_sign [of "CHR '':''", simplified] lower_sign [of "CHR ''%''", simplified]

lemma parseIPv4_lower: "parseIPv4 (map ascii_lower s) = parseIPv4 s"
proof -
  have "parseIPv4 (map ascii_lower s) = Some (a, b, c, d) \<longleftrightarrow> parseIPv4 s = Some (a, b, c, d)" for a b c d
    using quad_lower [of a b c d s] by (auto simp: parseIPv4_iff)
  then show ?thesis by (metis option.exhaust prod_cases4)
qed

lemma v6_groups_lower:
  "v6_groups n (map ascii_lower s) acc ell = map_option (\<lambda>(gs, e, r). (gs, e, map ascii_lower r)) (v6_groups n s acc ell)"
proof (induction n s acc ell rule: v6_groups.induct)
  case (2 n s acc ell)
  have ds: "takeWhile is_hex (map ascii_lower s) = map ascii_lower (takeWhile is_hex s)"
    by (simp add: takeWhile_map comp_def is_hex_lower)
  show ?case
  proof (cases "drop (length (takeWhile is_hex s)) s")
    case Nil
    then show ?thesis by (simp add: ds hex_value_lower drop_map Let_def)
  next
    case (Cons c rest)
    note ih = "2.IH" [OF refl refl _ Cons]
    have hd: "hd (map ascii_lower rest) = CHR '':'' \<longleftrightarrow> hd rest = CHR '':''" if "rest \<noteq> []" using that by (cases rest) (simp_all add: lower_signs)
    show ?thesis
      unfolding v6_groups.simps(2) using Cons ih hd
      by (auto simp: ds hex_value_lower drop_map Let_def lower_signs parseIPv4_lower map_tl [symmetric] simp del: v6_groups.simps
          split: option.split)
  qed
qed simp

lemma take2_colons: "take 2 (map ascii_lower s) = ''::'' \<longleftrightarrow> take 2 s = ''::''"
  by (cases s; cases "tl s") (auto simp: lower_signs)

lemma colons_lower: "map ascii_lower s = ''::'' \<longleftrightarrow> s = ''::''"
  by (auto simp: lower_signs map_eq_Cons_conv)

lemma parseIPv6_lower: "parseIPv6 (map ascii_lower s) = parseIPv6 s"
  unfolding parseIPv6_def colons_lower take2_colons Let_def drop_map
  by (auto simp: v6_groups_lower split: option.splits prod.splits)

lemma ParseIP_lower: "ParseIP (map ascii_lower s) = ParseIP s"
proof -
  have sign: "ascii_lower c \<in> {CHR ''.'', CHR '':'', CHR ''%''} \<longleftrightarrow> c \<in> {CHR ''.'', CHR '':'', CHR ''%''}" for c
    by (auto simp: lower_signs)
  have "List.find (\<lambda>c. c \<in> {CHR ''.'', CHR '':'', CHR ''%''}) (map ascii_lower s) =
      map_option ascii_lower (List.find (\<lambda>c. c \<in> {CHR ''.'', CHR '':'', CHR ''%''}) s)"
    using sign by (induction s) simp_all
  moreover have "CHR ''%'' \<in> set (map ascii_lower s) \<longleftrightarrow> CHR ''%'' \<in> set s" using lower_signs(3) by (metis (no_types, lifting) image_iff list.set_map)
  ultimately show ?thesis
    by (cases "List.find (\<lambda>c. c \<in> {CHR ''.'', CHR '':'', CHR ''%''}) s")
      (simp_all add: ParseIP_def parseIPv4_lower parseIPv6_lower lower_signs)
qed

section \<open>The text of an IP address is no host with a port\<close>

definition ip_char :: "char \<Rightarrow> bool" where
  "ip_char c \<longleftrightarrow> is_hex c \<or> c = CHR '':'' \<or> c = CHR ''.''"

lemma ip_char_sign: "ip_char CHR '':''" "ip_char CHR ''.''"
  by (simp_all add: ip_char_def)

lemma ip_char_plain: "ip_char c \<Longrightarrow> of_char c < (128 :: nat) \<and> c \<noteq> CHR ''['' \<and> c \<noteq> CHR '']''"
  by (auto simp: ip_char_def is_hex_def digit_of_def Let_def split: if_splits)

lemma digit_is_hex: "is_digit c \<Longrightarrow> is_hex c"
  by (auto simp: is_digit_def is_hex_def digit_of_def)

lemma parseIPv4_chars: "parseIPv4 s = Some q \<Longrightarrow> list_all ip_char s"
proof -
  assume "parseIPv4 s = Some q"
  then have "parseIPv4 s = Some (fst q, fst (snd q), fst (snd (snd q)), snd (snd (snd q)))" by simp
  then show ?thesis unfolding parseIPv4_iff using quad_chars digit_is_hex by (fastforce simp: list_all_iff ip_char_def)
qed

lemma v6_groups_chars: "v6_groups n s acc ell = Some (gs, e, []) \<Longrightarrow> list_all ip_char s"
proof (induction n s acc ell rule: v6_groups.induct)
  case (2 n s acc ell)
  let ?ds = "takeWhile is_hex s"
  have s: "s = ?ds @ drop (length ?ds) s" by (metis append_take_drop_id takeWhile_eq_take)
  have ds: "list_all ip_char ?ds" by (auto simp: list_all_iff ip_char_def dest: set_takeWhileD)
  show ?case
  proof (cases "drop (length ?ds) s")
    case Nil
    then show ?thesis using s ds by (metis append_Nil2)
  next
    case (Cons c rest)
    note ih = "2.IH" [OF refl refl _ Cons]
    have "parseIPv4 s \<noteq> None \<or> c = CHR '':'' \<and> list_all ip_char rest"
      using "2.prems" ih Cons unfolding v6_groups.simps(2)
      by (cases rest) (auto simp: Let_def ip_char_sign simp del: v6_groups.simps split: if_splits option.splits)
    then show ?thesis
      using s ds Cons parseIPv4_chars by (metis ip_char_def list_all_append list.pred_inject(2) not_None_eq)
  qed
qed simp

lemma ParseIP_chars: "ParseIP s = Some ip \<Longrightarrow> list_all ip_char s"
proof -
  assume p: "ParseIP s = Some ip"
  have six: "list_all ip_char s" if six: "parseIPv6 s = Some ip"
  proof (cases "take 2 s = ''::''")
    case True
    have "list_all ip_char (drop 2 s)" if "s \<noteq> ''::''"
      using six that True v6_groups_chars [of 8 "drop 2 s" "[]" "Some 0"]
      by (auto simp: parseIPv6_def Let_def split: option.splits if_splits)
    moreover obtain t where "s = ''::'' @ t" using True by (metis append_take_drop_id)
    ultimately show ?thesis by (cases t) (auto simp: ip_char_sign)
  next
    case False
    then show ?thesis using six v6_groups_chars [of 8 s "[]" None] by (auto simp: parseIPv6_def Let_def split: option.splits if_splits)
  qed
  show ?thesis using p six parseIPv4_chars by (auto simp: ParseIP_def split: option.splits if_splits)
qed

text \<open>One colon is not enough for an IPv6 address.\<close>

lemma v6_last: "CHR '':'' \<notin> set s \<Longrightarrow> v6_groups (Suc n) s acc None = Some (gs, e, r) \<Longrightarrow> n \<noteq> 1 \<Longrightarrow> e = None \<and> length gs = Suc (length acc)"
  using set_drop_subset [of "length (takeWhile is_hex s)" s]
  by (auto simp: Let_def split: list.splits if_splits)

lemma parseIPv6_colons: "CHR '':'' \<notin> set host \<Longrightarrow> CHR '':'' \<notin> set port \<Longrightarrow> parseIPv6 (host @ CHR '':'' # port) = None"
proof -
  assume host: "CHR '':'' \<notin> set host" and port: "CHR '':'' \<notin> set port"
  let ?s = "host @ CHR '':'' # port" and ?ds = "takeWhile is_hex (host @ CHR '':'' # port)"
  have colon: "\<not> is_hex CHR '':''" by code_simp
  then have ds: "?ds = takeWhile is_hex host" by (induction host) auto
  have eight: "v6_groups 8 = v6_groups (Suc 7)" "v6_groups 7 = v6_groups (Suc 6)" by simp_all
  have "e = None \<and> length gs < 8" if m: "v6_groups 8 ?s [] None = Some (gs, e, r)" for gs e r
  proof (cases "drop (length (takeWhile is_hex host)) host")
    case Nil
    then have "drop (length ?ds) ?s = CHR '':'' # port" using length_takeWhile_le [of is_hex host] by (simp add: ds)
    moreover have "port \<noteq> [] \<Longrightarrow> hd port \<noteq> CHR '':''" using port by (cases port) auto
    ultimately have "v6_groups 7 port [hex_value ?ds] None = Some (gs, e, r)"
      using m unfolding eight(1) v6_groups.simps(2) Let_def by (simp del: v6_groups.simps split: if_splits)
    then show ?thesis using v6_last [OF port, of 6 "[hex_value ?ds]" gs e r] unfolding eight(2) by simp
  next
    case (Cons c rest)
    then have "c \<noteq> CHR '':''" using host set_drop_subset [of "length (takeWhile is_hex host)" host] by auto
    moreover have "drop (length ?ds) ?s = c # rest @ CHR '':'' # port" using Cons length_takeWhile_le [of is_hex host] by (simp add: ds)
    ultimately show ?thesis
      using m unfolding eight(1) v6_groups.simps(2) Let_def by (simp del: v6_groups.simps split: if_splits)
  qed
  moreover have "?s \<noteq> ''::''" "take 2 ?s \<noteq> ''::''" using host port by (cases host; cases port; cases "tl host"; auto)+
  ultimately show ?thesis by (auto simp: parseIPv6_def Let_def split: option.splits)
qed

lemma last_index_split: "last_index_of c s = Some i \<Longrightarrow> s = take i s @ c # drop (Suc i) s \<and> c \<notin> set (drop (Suc i) s)"
proof -
  assume "last_index_of c s = Some i"
  then obtain n where n: "index_of c (rev s) = Some n" and i: "i = length s - 1 - n" by (auto simp: last_index_of_def)
  then have "c \<in> set (rev s)" by (metis index_of_None option.distinct(1))
  then obtain ys zs where r: "rev s = ys @ c # zs" "c \<notin> set ys" by (meson split_list_first)
  then have "n = length ys" using n by (simp add: index_of_first)
  moreover have "s = rev (ys @ c # zs)" using r(1) by (metis rev_rev_ident)
  then have s: "s = rev zs @ c # rev ys" by simp
  ultimately have "i = length (rev zs)" using i by simp
  then show ?thesis using r(2) by (simp add: s)
qed

lemma SplitHostPort_ip:
  assumes "ParseIP s = Some ip"
  shows "SplitHostPort s = None"
proof (cases "last_index_of CHR '':'' s")
  case (Some i)
  have chars: "list_all ip_char s" by (rule ParseIP_chars [OF assms])
  have "s \<noteq> []" using Some by (auto simp: last_index_of_def index_of_def)
  then have hd: "hd s \<noteq> CHR ''[''" using chars ip_char_plain by (cases s) auto
  have split: "s = take i s @ CHR '':'' # drop (Suc i) s" "CHR '':'' \<notin> set (drop (Suc i) s)"
    using last_index_split [OF Some] by simp_all
  have "CHR '':'' \<in> set (take i s)"
  proof (rule ccontr)
    assume "CHR '':'' \<notin> set (take i s)"
    with split parseIPv6_colons have six: "parseIPv6 s = None" by metis
    then have "parseIPv4 s \<noteq> None" using assms by (auto simp: ParseIP_def split: option.splits if_splits)
    then obtain a b c d where q: "a < 256" "b < 256" "c < 256" "d < 256" "s = quad a b c d"
      by (cases "parseIPv4 s") (auto simp: parseIPv4_iff)
    have "CHR '':'' \<notin> set s" using quad_chars [OF q(1-4), of "CHR '':''"] by (auto simp: q(5) is_digit_def)
    then show False using split(1) by (metis in_set_conv_decomp)
  qed
  then show ?thesis using Some hd by (simp add: SplitHostPort_def Let_def)
qed (simp add: SplitHostPort_def)

text \<open>What main takes for a loopback address is one for the guard.\<close>

lemma bind_is_host:
  assumes "isLoopbackBind bind" and "bind \<noteq> []"
  shows "isLoopbackHost h bind"
proof (cases "ParseIP bind")
  case None
  then have "bind = ''localhost''" using assms by (simp add: isLoopbackBind_def)
  moreover have "plain_text ''localhost'' \<and> map ascii_lower ''localhost'' = ''localhost''" by code_simp
  then have "names_host ''localhost'' ''localhost'' \<and> loopback_name ''localhost''"
    by (simp only: names_host_def loopback_name_def) simp
  ultimately show ?thesis using isLoopbackHost_named by metis
next
  case (Some ip)
  have chars: "list_all ip_char bind" by (rule ParseIP_chars [OF Some])
  then have plain: "ascii bind" "CHR ''['' \<notin> set bind" "CHR '']'' \<notin> set bind"
    using ip_char_plain by (auto simp: list_all_iff ascii_def)
  then have "TrimSuffix '']'' (TrimPrefix ''['' bind) = bind" by (auto simp: TrimPrefix_def TrimSuffix_def prefix_def suffix_def)
  then show ?thesis
    using assms Some plain(1) by (simp add: isLoopbackHost_def SplitHostPort_ip [OF Some] Let_def ToLower_def ParseIP_lower isLoopbackBind_def)
qed

section \<open>The settings of a running server\<close>

definition settings_are :: "string \<Rightarrow> string list \<Rightarrow> 'db server \<Rightarrow> bool" where
  "settings_are bind roots s \<longleftrightarrow> sv_bind s = bind \<and> sv_allowedRoots s = roots"

lemma settings_same:
  "settings_are b roots s \<Longrightarrow> sv_bind s' = sv_bind s \<Longrightarrow> sv_allowedRoots s' = sv_allowedRoots s \<Longrightarrow> settings_are b roots s'"
  by (simp add: settings_are_def)

interpretation settings: serving "settings_are b roots" "\<lambda>_. True" "\<lambda>_. True" for b roots
proof unfold_locales
  fix s :: "'a server" and E :: "'a env" and client db now sid stage msg cur tot f g sess l t out d path timeout meta p q result sess0
  assume "settings_are b roots s"
  note same = settings_same [OF this]
  show "settings_are b roots (db_step client db s)" "settings_are b roots (recordProgress now sid stage msg cur tot s)"
    "settings_are b roots (deleteSessionCache sid s)" "settings_are b roots (clearProgress sid s)"
    "settings_are b roots (deleteSessionState E sid s)" "settings_are b roots (persistSession E sess s)"
    "settings_are b roots (s\<lparr>sv_leases := l\<rparr>)" "settings_are b roots (s\<lparr>sv_outputs := out\<rparr>)"
    "settings_are b roots (on_cache sid f s)" "settings_are b roots (on_registry (on_session sess (Touch now)) s)"
    "settings_are b roots (on_registry (on_session sess AcquireInFlight) s\<lparr>sv_leases := l\<rparr>)"
    "settings_are b roots (on_registry (on_session sess g) s)" "settings_are b roots (on_registry (registry_Delete sid) s)"
    by (auto intro!: same simp: db_step_def recordProgress_def deleteSessionCache_def clearProgress_def deleteSessionState_def
        persistSession_def on_cache_def on_registry_def split: option.split)
  show "settings_are b roots (promoteToTier t s)" "settings_are b roots (demoteToTier0 s)"
    by (auto intro!: same simp: promoteToTier_def demoteToTier0_def RemoveTools_def Let_def registerTier_keep)
  show "settings_are b roots (snd (workers_Stop E sid s))" by (auto intro!: same simp: workers_Stop_cases)
  show "settings_are b roots (s\<lparr>sv_workers := fst (snd (manager_Start (Ret result) path (sv_workers s, sess0)))\<rparr>)"
    "settings_are b roots (s\<lparr>sv_registry := snd (registry_Create d path timeout (sv_registry s))\<rparr>)"
    "settings_are b roots (s\<lparr>sv_registry := snd (registry_Restore d meta (sv_registry s))\<rparr>)"
    by (auto intro!: same)
qed auto

lemma LoadConfig_bind: "LoadConfig getenv unmarshal file = Ret cfg \<Longrightarrow> cfg_Bind cfg \<noteq> []"
  by (auto simp: LoadConfig_def initial_config_def ensureConfigDefaults_def DefaultBind_def Let_def
      split: file_read.splits sum.splits if_splits)

section \<open>http.go: HTTPMux\<close>

text \<open>http.ServeMux with the patterns /sse and /: a path that is not clean is answered with the clean one,
  except for CONNECT. \<open>path\<close> is the escaped path of the request and \<open>unescape\<close> decodes a segment of it.\<close>

datatype endpoint = Refused string | BadRequest | NotFound | MovedTo string | SSEHandler | StreamHandler

definition cleanPath :: "string \<Rightarrow> string" where
  "cleanPath p =
     (if p = [] then ''/''
      else
        let p = (if hd p \<noteq> CHR ''/'' then CHR ''/'' # p else p);
            np = Clean p
        in if last p = CHR ''/'' \<and> np \<noteq> ''/'' then np @ ''/'' else np)"

definition mux_match :: "(string \<Rightarrow> string) \<Rightarrow> string \<Rightarrow> endpoint" where
  "mux_match unescape path =
     (case path of
        [] \<Rightarrow> NotFound
      | _ # seg \<Rightarrow> if CHR ''/'' \<notin> set seg \<and> unescape seg = ''sse'' then SSEHandler else StreamHandler)"

definition HTTPMux ::
  "host \<Rightarrow> (string \<Rightarrow> string option) \<Rightarrow> (string \<Rightarrow> string) \<Rightarrow> 'db server \<Rightarrow> string \<Rightarrow> string \<Rightarrow> http_request \<Rightarrow> endpoint" where
  "HTTPMux h urlHost unescape s verb p r =
     (case localhostGuard h urlHost s r of
        Forbidden msg \<Rightarrow> Refused msg
      | Served \<Rightarrow>
          if p = ''*'' then BadRequest
          else if verb = ''CONNECT'' then mux_match unescape p
          else if cleanPath p \<noteq> p then MovedTo (cleanPath p)
          else mux_match unescape p)"

lemma HTTPMux_guarded: "HTTPMux h urlHost unescape s verb p r \<in> {SSEHandler, StreamHandler} \<Longrightarrow> localhostGuard h urlHost s r = Served"
  by (auto simp: HTTPMux_def split: guard_result.splits)

section \<open>main.go: the log of a start\<close>

datatype log_line =
    LogListening string
  | LogHTTP string int
  | LogSSE string int
  | WarnBind string
  | WarnPyEval
  | LogRoots "string list"
  | WarnNoRoots

definition listen_addr :: "Config \<Rightarrow> string" where
  "listen_addr cfg = cfg_Bind cfg @ '':'' @ show_dec (cfg_Port cfg)"

definition start_log :: "Config \<Rightarrow> log_line list" where
  "start_log cfg =
     [LogListening (listen_addr cfg), LogHTTP (cfg_Bind cfg) (cfg_Port cfg), LogSSE (cfg_Bind cfg) (cfg_Port cfg)] @
     (if \<not> isLoopbackBind (cfg_Bind cfg) then [WarnBind (cfg_Bind cfg)] else []) @
     (if cfg_EnablePyEval cfg then [WarnPyEval] else []) @
     (if length (cfg_AllowedRoots cfg) > 0 then [LogRoots (cfg_AllowedRoots cfg)]
      else if \<not> isLoopbackBind (cfg_Bind cfg) then [WarnNoRoots] else [])"

lemma last_index_of_last: "c \<notin> set port \<Longrightarrow> last_index_of c (host @ c # port) = Some (length host)"
  using index_of_first [of c "rev port" "rev host"] by (simp add: last_index_of_def)

lemma show_dec_colon: "CHR '':'' \<notin> set (show_dec n)"
  using show_base_10 [of "nat n"] show_base_10 [of "nat (- n)"] by (auto simp: show_dec_def list_all_iff is_digit_def)

lemma listen_addr_colons:
  assumes "CHR '':'' \<in> set (cfg_Bind cfg)" and "hd (cfg_Bind cfg) \<noteq> CHR ''[''"
  shows "SplitHostPort (listen_addr cfg) = None"
  using assms last_index_of_last [OF show_dec_colon, of "cfg_Bind cfg" "cfg_Port cfg"]
  by (cases "cfg_Bind cfg = []") (simp_all add: listen_addr_def SplitHostPort_def Let_def)

text \<open>C16: a server that runs exposed has said so. The bind address of a started server is never empty,
  and stays what main logged. If main did not warn of a bind address outside the loopback interface,
  then in every state that follows the two handlers of MCP only see requests whose Host and Origin are
  absent or name a loopback endpoint: the two tests for a loopback address agree on every text that main takes
  for one, IPv6 addresses in upper case included. py_eval is only ever visible if main warned of it.
  But an IPv6 address without brackets, which both tests accept, gives a listening address that
  net.SplitHostPort rejects.\<close>

theorem exposure_is_announced:
  assumes start: "main_start S E dbs f configPath = Ret (cfg, s0, jobs)"
    and steps: "(serving_step (\<lambda>_. True))\<^sup>*\<^sup>* s0 s"
  shows "sv_bind s = cfg_Bind cfg \<and> cfg_Bind cfg \<noteq> [] \<and>
    (WarnBind (cfg_Bind cfg) \<notin> set (start_log cfg) \<longrightarrow>
       (\<forall>h urlHost unescape verb p r.
          HTTPMux h urlHost unescape s verb p r \<in> {SSEHandler, StreamHandler} \<longrightarrow>
          (hr_Host r = [] \<or> isLoopbackHost h (hr_Host r)) \<and>
          (hr_Origin r = [] \<or> isLoopbackOrigin h urlHost (hr_Origin r)))) \<and>
    (''py_eval'' \<in> set (sv_tools s) \<longrightarrow> WarnPyEval \<in> set (start_log cfg)) \<and>
    (CHR '':'' \<in> set (cfg_Bind cfg) \<and> hd (cfg_Bind cfg) \<noteq> CHR ''['' \<longrightarrow> SplitHostPort (listen_addr cfg) = None)"
proof -
  obtain t where "load_configuration S f configPath = Ret (cfg, t)" using main_start_boot [OF start] by blast
  from configured [OF this] obtain file_cfg where "LoadConfig (st_getenv S) (st_unmarshal S) (st_readFile S configPath) = Ret file_cfg"
    "cfg_Bind cfg = (if fl_bind f \<noteq> [] then fl_bind f
       else if st_getenv S ''IDA_PILOT_BIND'' \<noteq> [] then st_getenv S ''IDA_PILOT_BIND'' else cfg_Bind file_cfg)"
    by (elim exE conjE) (rule that)
  then have bound: "cfg_Bind cfg \<noteq> []" using LoadConfig_bind by (simp split: if_splits)
  note i = main_start_inv [OF start]
  have "settings_are (cfg_Bind cfg) (sv_allowedRoots s0) s0" using i by (simp add: settings_are_def)
  from settings.keeps_serving [OF steps this] have bind: "sv_bind s = cfg_Bind cfg" by (simp add: settings_are_def)
  have "server_inv (cfg_EnablePyEval cfg) s" using server.keeps_serving [OF steps] i by blast
  then have py: "''py_eval'' \<in> set (sv_tools s) \<longrightarrow> cfg_EnablePyEval cfg" using server_inv_facts by blast
  have loopback: "isLoopbackHost h (sv_bind s)" if "WarnBind (cfg_Bind cfg) \<notin> set (start_log cfg)" for h
    using that bind_is_host [OF _ bound] by (auto simp: start_log_def bind split: if_splits)
  have guarded: "(hr_Host r = [] \<or> isLoopbackHost h (hr_Host r)) \<and> (hr_Origin r = [] \<or> isLoopbackOrigin h urlHost (hr_Origin r))"
    if "HTTPMux h urlHost unescape s verb p r \<in> {SSEHandler, StreamHandler}" "isLoopbackHost h (sv_bind s)"
    for h urlHost unescape verb p r
    using HTTPMux_guarded [OF that(1)] that(2) by (simp add: localhostGuard_def Let_def split: if_splits)
  have warned: "cfg_EnablePyEval cfg \<Longrightarrow> WarnPyEval \<in> set (start_log cfg)" by (simp add: start_log_def)
  show ?thesis
    by (intro conjI impI allI; (elim conjE)?)
      (rule bind bound guarded [THEN conjunct1, OF _ loopback] guarded [THEN conjunct2, OF _ loopback] warned [OF mp [OF py]]
        listen_addr_colons; assumption)+
qed

theorem exposure_is_announced_witness:
  "\<exists>(E :: nat env) cfg s. main_start bare_start E (\<lambda>_. 0) no_flags ''config.json'' = Ret (cfg, s, []) \<and>
     WarnBind DefaultBind \<notin> set (start_log cfg) \<and>
     (\<forall>h urlHost. HTTPMux h urlHost id s ''POST'' ''/'' \<lparr>hr_Host = ''evil.example'', hr_Origin = []\<rparr> \<notin> {SSEHandler, StreamHandler})"
proof -
  obtain E :: "nat env" where "os_listing (ev_os E) = []" "os_io (ev_os E) = io_ok" "ev_order E = []" using env_exists by blast
  from bare_main_start [OF this, of "\<lambda>_. 0" "[]" "''config.json''"] obtain cfg s
    where m: "main_start bare_start E (\<lambda>_. 0) no_flags ''config.json'' = Ret (cfg, s, [])" and b: "cfg_Bind cfg = DefaultBind"
    by (auto simp: no_flags_def)
  have dec: "show_base 10 0 = ''0''" "show_base 10 (Suc 0) = ''1''" "show_base 10 127 = ''127''" by code_simp+
  then have "DefaultBind = quad 127 0 0 1" "CHR '':'' \<notin> set DefaultBind" by (simp_all add: quad_def DefaultBind_def)
  then have "case ParseIP DefaultBind of Some ip \<Rightarrow> IsLoopback ip | None \<Rightarrow> False"
    by (subst ParseIP_quad) (assumption, intro exI conjI, auto)
  then have "isLoopbackBind DefaultBind" by (auto simp: isLoopbackBind_def split: option.splits)
  then have quiet: "WarnBind (cfg_Bind cfg) \<notin> set (start_log cfg)" by (simp add: start_log_def b)
  have "plain_text ''evil.example''" "map ascii_lower ''evil.example'' \<noteq> ''localhost''" by code_simp+
  moreover have "''evil.example'' \<noteq> quad 127 b c d" for b c d by (simp add: quad_def dec)
  ultimately have evil: "names_host ''evil.example'' ''evil.example''" "\<not> loopback_name ''evil.example''"
    by (simp_all add: names_host_def loopback_name_def)
  have step: "(serving_step (\<lambda>_. True))\<^sup>*\<^sup>* s s" by simp
  have "HTTPMux h urlHost id s ''POST'' ''/'' \<lparr>hr_Host = ''evil.example'', hr_Origin = []\<rparr> \<notin> {SSEHandler, StreamHandler}" for h urlHost
  proof
    assume served: "HTTPMux h urlHost id s ''POST'' ''/'' \<lparr>hr_Host = ''evil.example'', hr_Origin = []\<rparr> \<in> {SSEHandler, StreamHandler}"
    then have "isLoopbackHost h ''evil.example''"
      using exposure_is_announced [OF m step, THEN conjunct2, THEN conjunct2, THEN conjunct1, rule_format, OF quiet served] by simp
    then show False using isLoopbackHost_named [OF evil(1)] evil(2) by blast
  qed
  then show ?thesis using m quiet b by metis
qed

end
