(* ===== verification/Processes.thy ===== *)
theory Processes
  imports Worker
begin

text \<open>
  The life of worker processes (internal/worker/launcher_reap_linux.go, launcher_reap_windows.go,
  launcher_reap_other.go, process_alive_unix.go, process_alive_windows.go): what binds a worker to
  its server on each platform, between the two calls of startPythonWorker. The answers of the system
  calls are arguments; the state is what the process holds of the kernel: the one Job Object of
  Windows, its limit and its members.
\<close>

datatype platform = Linux | Windows | OtherOS

record SysProcAttr =
  sa_Pdeathsig :: int

record worker_cmd =
  cm_SysProcAttr :: "SysProcAttr option"
  cm_Process :: "int option"

definition SIGKILL :: int where "SIGKILL = 9"

section \<open>Before the start\<close>

definition prepareWorkerCmd_linux :: "worker_cmd \<Rightarrow> worker_cmd" where
  "prepareWorkerCmd_linux cmd =
     (let attr = (case cm_SysProcAttr cmd of None \<Rightarrow> \<lparr>sa_Pdeathsig = 0\<rparr> | Some attr \<Rightarrow> attr)
      in cmd\<lparr>cm_SysProcAttr := Some (attr\<lparr>sa_Pdeathsig := SIGKILL\<rparr>)\<rparr>)"

definition prepareWorkerCmd_windows :: "worker_cmd \<Rightarrow> worker_cmd" where
  "prepareWorkerCmd_windows cmd = cmd"

definition prepareWorkerCmd_other :: "worker_cmd \<Rightarrow> worker_cmd" where
  "prepareWorkerCmd_other cmd = cmd"

fun prepareWorkerCmd :: "platform \<Rightarrow> worker_cmd \<Rightarrow> worker_cmd" where
  "prepareWorkerCmd Linux = prepareWorkerCmd_linux"
| "prepareWorkerCmd Windows = prepareWorkerCmd_windows"
| "prepareWorkerCmd OtherOS = prepareWorkerCmd_other"

lemmas prepare_defs = prepareWorkerCmd_linux_def prepareWorkerCmd_windows_def prepareWorkerCmd_other_def

section \<open>The job of Windows\<close>

text \<open>\<open>jb_open\<close>, \<open>jb_limit\<close> and \<open>jb_members\<close> are the job handles this process holds, those of jobs that
  kill on close, and the processes assigned. The zero handle is no handle.\<close>

record job_state =
  jb_once :: bool
  jb_Handle :: nat
  jb_Err :: "gerr option"
  jb_open :: "nat list"
  jb_limit :: "nat list"
  jb_members :: "(nat \<times> int) list"
  jb_log :: "gerr list"

definition no_job :: job_state where
  "no_job = \<lparr>jb_once = False, jb_Handle = 0, jb_Err = None, jb_open = [], jb_limit = [], jb_members = [], jb_log = []\<rparr>"

record win_io =
  wi_create :: "gerr + nat"
  wi_setinfo :: "gerr option"
  wi_open :: "gerr + nat"
  wi_assign :: "gerr option"

definition ensureKillOnCloseJob :: "win_io \<Rightarrow> job_state \<Rightarrow> (nat \<times> gerr option) \<times> job_state" where
  "ensureKillOnCloseJob io s =
     (let s = (if jb_once s then s
               else
                 let s = s\<lparr>jb_once := True\<rparr>
                 in case wi_create io of
                      Inl e \<Rightarrow> s\<lparr>jb_Err := Some e\<rparr>
                    | Inr h \<Rightarrow>
                        let s = s\<lparr>jb_open := h # jb_open s\<rparr>
                        in (case wi_setinfo io of
                              Some e \<Rightarrow> s\<lparr>jb_open := remove1 h (jb_open s), jb_Err := Some e\<rparr>
                            | None \<Rightarrow> s\<lparr>jb_limit := h # jb_limit s, jb_Handle := h\<rparr>))
      in ((jb_Handle s, jb_Err s), s))"

text \<open>A failure is logged; the worker runs on without the binding.\<close>

definition superviseWorkerProcess_windows :: "win_io \<Rightarrow> worker_cmd \<Rightarrow> job_state \<Rightarrow> job_state" where
  "superviseWorkerProcess_windows io cmd s =
     (case cm_Process cmd of
        None \<Rightarrow> s
      | Some pid \<Rightarrow>
          (case ensureKillOnCloseJob io s of
             ((job, Some e), s) \<Rightarrow> s\<lparr>jb_log := jb_log s @ [Ctx ''[Worker] kill-on-close job unavailable'' e]\<rparr>
           | ((job, None), s) \<Rightarrow>
               (case wi_open io of
                  Inl e \<Rightarrow> s\<lparr>jb_log := jb_log s @ [Ctx ''[Worker] OpenProcess for job assignment failed'' e]\<rparr>
                | Inr h \<Rightarrow>
                    (case wi_assign io of
                       Some e \<Rightarrow> s\<lparr>jb_log := jb_log s @ [Ctx ''[Worker] AssignProcessToJobObject failed'' e]\<rparr>
                     | None \<Rightarrow> s\<lparr>jb_members := (job, pid) # jb_members s\<rparr>))))"

definition superviseWorkerProcess_linux :: "worker_cmd \<Rightarrow> job_state \<Rightarrow> job_state" where
  "superviseWorkerProcess_linux cmd s = s"

definition superviseWorkerProcess_other :: "worker_cmd \<Rightarrow> job_state \<Rightarrow> job_state" where
  "superviseWorkerProcess_other cmd s = s"

fun superviseWorkerProcess :: "platform \<Rightarrow> win_io \<Rightarrow> worker_cmd \<Rightarrow> job_state \<Rightarrow> job_state" where
  "superviseWorkerProcess Linux io = superviseWorkerProcess_linux"
| "superviseWorkerProcess Windows io = superviseWorkerProcess_windows io"
| "superviseWorkerProcess OtherOS io = superviseWorkerProcess_other"

section \<open>Whether a process is alive\<close>

text \<open>\<open>probe\<close> is the error of kill(pid, 0) on Unix and of OpenProcess on Windows.\<close>

definition processAlive_windows :: "(int \<Rightarrow> gerr option) \<Rightarrow> int \<Rightarrow> bool" where
  "processAlive_windows probe pid = (if pid = 0 then False else case probe pid of Some e \<Rightarrow> False | None \<Rightarrow> True)"

definition processAlive_unix :: "(int \<Rightarrow> gerr option) \<Rightarrow> int \<Rightarrow> bool" where
  "processAlive_unix probe pid = (if pid = 0 then False else probe pid = None)"

section \<open>A launch\<close>

text \<open>The part of startPythonWorker around cmd.Start, whose error or process id is \<open>start\<close>.\<close>

definition bind_worker :: "platform \<Rightarrow> win_io \<Rightarrow> gerr + int \<Rightarrow> worker_cmd \<Rightarrow> (job_state, worker_cmd) step" where
  "bind_worker p io start cmd s =
     (let cmd = prepareWorkerCmd p cmd
      in case start of
           Inl e \<Rightarrow> (Err (Ctx ''failed to start worker'' e), s)
         | Inr pid \<Rightarrow>
             let cmd = cmd\<lparr>cm_Process := Some pid\<rparr>
             in (Ret cmd, superviseWorkerProcess p io cmd s))"

text \<open>The launches of a server, in order: the workers that started, with what the system answered.\<close>

definition new_cmd :: worker_cmd where "new_cmd = \<lparr>cm_SysProcAttr = None, cm_Process = None\<rparr>"

definition launches :: "platform \<Rightarrow> (win_io \<times> (gerr + int)) list \<Rightarrow> (win_io \<times> worker_cmd) list \<times> job_state" where
  "launches p ls =
     foldl (\<lambda>(ws, s) (io, start).
       case bind_worker p io start new_cmd s of (Ret cmd, s) \<Rightarrow> (ws @ [(io, cmd)], s) | (_, s) \<Rightarrow> (ws, s)) ([], no_job) ls"

text \<open>What the kernel does when the server ends without stopping its workers: Linux signals a child
  with a parent death signal, Windows closes the handles and kills the members of a job that kills on
  close.\<close>

definition dies_with_server :: "platform \<Rightarrow> job_state \<Rightarrow> worker_cmd \<Rightarrow> bool" where
  "dies_with_server p s cmd =
     (case p of
        Linux \<Rightarrow> (case cm_SysProcAttr cmd of Some attr \<Rightarrow> sa_Pdeathsig attr = SIGKILL | None \<Rightarrow> False)
      | Windows \<Rightarrow> list_ex (\<lambda>h. h \<in> set (jb_limit s) \<and> (\<exists>pid \<in> set_option (cm_Process cmd). (h, pid) \<in> set (jb_members s))) (jb_open s)
      | OtherOS \<Rightarrow> False)"

section \<open>Orphans of a crash\<close>

definition job_made :: "win_io \<Rightarrow> bool" where
  "job_made io \<longleftrightarrow> \<not> isl (wi_create io) \<and> wi_setinfo io = None"

definition assigned :: "win_io \<Rightarrow> bool" where
  "assigned io \<longleftrightarrow> \<not> isl (wi_open io) \<and> wi_assign io = None"

definition members :: "nat \<Rightarrow> (win_io \<times> worker_cmd) list \<Rightarrow> (nat \<times> int) list" where
  "members h ws = rev (map (\<lambda>(io, cmd). (h, the (cm_Process cmd))) (filter (assigned \<circ> fst) ws))"

definition jobs_inv :: "(win_io \<times> worker_cmd) list \<Rightarrow> job_state \<Rightarrow> bool" where
  "jobs_inv ws s \<longleftrightarrow>
     (if ws = [] then s = no_job
      else jb_once s \<and>
        (if job_made (fst (hd ws)) then
           \<exists>h. jb_Err s = None \<and> jb_Handle s = h \<and> jb_open s = [h] \<and> jb_limit s = [h] \<and> jb_members s = members h ws
         else jb_Err s \<noteq> None \<and> jb_open s = [] \<and> jb_members s = []))"

lemma jobs_inv_supervise:
  assumes "jobs_inv ws s" and "cm_Process cmd = Some pid"
  shows "jobs_inv (ws @ [(io, cmd)]) (superviseWorkerProcess Windows io cmd s)"
proof (cases "ws = []")
  case True
  then show ?thesis
    using assms
    by (auto simp: superviseWorkerProcess_windows_def jobs_inv_def no_job_def ensureKillOnCloseJob_def Let_def job_made_def assigned_def members_def
        split: sum.splits option.splits)
next
  case False
  then show ?thesis
    using assms
    by (auto simp: superviseWorkerProcess_windows_def jobs_inv_def ensureKillOnCloseJob_def Let_def assigned_def members_def split: sum.splits option.splits if_splits)
qed

lemma launches_inv:
  "launches p ls = (ws, s) \<Longrightarrow>
   (p = Windows \<longrightarrow> jobs_inv ws s) \<and>
   (\<forall>(io, cmd) \<in> set ws. cm_Process cmd \<noteq> None \<and> cm_SysProcAttr cmd = cm_SysProcAttr (prepareWorkerCmd p new_cmd))"
proof (induction ls arbitrary: ws s rule: rev_induct)
  case (snoc l ls)
  obtain io start where l: "l = (io, start)" by (rule prod.exhaust)
  obtain ws0 s0 where before: "launches p ls = (ws0, s0)" by (rule prod.exhaust)
  note ih = snoc.IH [OF before]
  show ?case
  proof (cases start)
    case (Inl e)
    then show ?thesis using snoc.prems before ih l by (simp add: launches_def bind_worker_def Let_def)
  next
    case (Inr pid)
    let ?cmd = "(prepareWorkerCmd p new_cmd)\<lparr>cm_Process := Some pid\<rparr>"
    have "ws = ws0 @ [(io, ?cmd)]" "s = superviseWorkerProcess p io ?cmd s0"
      using snoc.prems before l Inr by (simp_all add: launches_def bind_worker_def Let_def)
    then show ?thesis using ih jobs_inv_supervise [of ws0 s0 ?cmd pid io] by (auto simp: prepare_defs)
  qed
qed (auto simp: launches_def jobs_inv_def)

lemma members_iff:
  assumes "distinct (map (the \<circ> cm_Process \<circ> snd) ws)" and "(io, cmd) \<in> set ws" and "cm_Process cmd = Some pid"
  shows "(h, pid) \<in> set (members h ws) \<longleftrightarrow> assigned io"
proof
  assume "(h, pid) \<in> set (members h ws)"
  then obtain io' cmd' where m: "(io', cmd') \<in> set ws" "assigned io'" "the (cm_Process cmd') = pid" by (auto simp: members_def)
  have "inj_on (the \<circ> cm_Process \<circ> snd) (set ws)" using assms(1) by (simp only: distinct_map)
  from inj_onD [OF this _ m(1) assms(2)] have "(io', cmd') = (io, cmd)" using m(3) assms(3) by simp
  then show "assigned io" using m(2) by simp
qed (use assms(2,3) in \<open>force simp: members_def\<close>)

text \<open>C23: which workers end with a server that crashes. After any sequence of launches: on Linux every
  worker does, since the parent death signal is set before the start; on the platforms without such a
  signal none does. On Windows it depends on the first worker that started: if the job could be made
  and limited for it, a worker ends with the server exactly if it could be opened and assigned; if
  not, the failure sticks, and none of the workers of this server ever does.\<close>

theorem crash_orphans:
  assumes "launches p ls = (ws, s)" and "distinct (map (the \<circ> cm_Process \<circ> snd) ws)" and "(io, cmd) \<in> set ws"
  shows "dies_with_server p s cmd \<longleftrightarrow>
     (case p of
        Linux \<Rightarrow> True
      | Windows \<Rightarrow> job_made (fst (hd ws)) \<and> assigned io
      | OtherOS \<Rightarrow> False)"
proof -
  have inv: "p = Windows \<longrightarrow> jobs_inv ws s" "cm_Process cmd \<noteq> None" "cm_SysProcAttr cmd = cm_SysProcAttr (prepareWorkerCmd p new_cmd)"
    using launches_inv [OF assms(1)] assms(3) by auto
  then obtain pid where pid: "cm_Process cmd = Some pid" by auto
  have some: "ws \<noteq> []" using assms(3) by auto
  show ?thesis
  proof (cases p)
    case Windows
    then have "jobs_inv ws s" using inv(1) by simp
    then show ?thesis
      using some Windows pid members_iff [OF assms(2,3) pid] by (auto simp: jobs_inv_def dies_with_server_def split: if_splits)
  qed (use inv(3) in \<open>simp_all add: prepare_defs dies_with_server_def new_cmd_def Let_def\<close>)
qed

theorem crash_orphans_witness:
  "let bad = \<lparr>wi_create = Inl (Msg ''quota''), wi_setinfo = None, wi_open = Inr 5, wi_assign = None\<rparr>;
       good = \<lparr>wi_create = Inr 4, wi_setinfo = None, wi_open = Inr 5, wi_assign = None\<rparr>
   in map (\<lambda>(io, cmd). dies_with_server Windows (snd (launches Windows [(bad, Inr 70), (good, Inr 71)])) cmd)
        (fst (launches Windows [(bad, Inr 70), (good, Inr 71)])) = [False, False] \<and>
      map (\<lambda>(io, cmd). dies_with_server Windows (snd (launches Windows [(good, Inl (Msg ''no python'')), (good, Inr 71)])) cmd)
        (fst (launches Windows [(good, Inl (Msg ''no python'')), (good, Inr 71)])) = [True]"
proof -
  let ?bad = "\<lparr>wi_create = Inl (Msg ''quota''), wi_setinfo = None, wi_open = Inr 5, wi_assign = None\<rparr>"
  let ?good = "\<lparr>wi_create = Inr 4, wi_setinfo = None, wi_open = Inr 5, wi_assign = None\<rparr>"
  let ?cmd = "\<lambda>n. \<lparr>cm_SysProcAttr = None, cm_Process = Some n\<rparr>"
  define a where "a = launches Windows [(?bad, Inr 70), (?good, Inr 71)]"
  define b where "b = launches Windows [(?good, Inl (Msg ''no python'')), (?good, Inr 71)]"
  have ws: "fst a = [(?bad, ?cmd 70), (?good, ?cmd 71)]" "fst b = [(?good, ?cmd 71)]"
    by (simp_all add: a_def b_def launches_def bind_worker_def Let_def new_cmd_def prepare_defs)
  have la: "launches Windows [(?bad, Inr 70), (?good, Inr 71)] = (fst a, snd a)"
    and lb: "launches Windows [(?good, Inl (Msg ''no python'')), (?good, Inr 71)] = (fst b, snd b)" by (simp_all add: a_def b_def)
  have da: "distinct (map (the \<circ> cm_Process \<circ> snd) (fst a))" and db: "distinct (map (the \<circ> cm_Process \<circ> snd) (fst b))" by (simp_all add: ws)
  have "map (\<lambda>(io, cmd). dies_with_server Windows (snd a) cmd) (fst a) = [False, False]"
    using crash_orphans [OF la da, of ?bad "?cmd 70"] crash_orphans [OF la da, of ?good "?cmd 71"] by (simp add: ws job_made_def)
  moreover have "map (\<lambda>(io, cmd). dies_with_server Windows (snd b) cmd) (fst b) = [True]"
    using crash_orphans [OF lb db, of ?good "?cmd 71"] by (simp add: ws job_made_def assigned_def)
  ultimately show ?thesis unfolding Let_def a_def b_def by (intro conjI)
qed

end
