(* ===== verification/Loading.thy ===== *)
theory Loading
  imports Opening
begin

text \<open>
  How the background load of a session ends (backgroundOpen of internal/server/session.go): what it
  leaves of the session object, and whether the readiness gate is open afterwards.
\<close>

section \<open>The load\<close>

lemma beats_dbs:
  "sv_dbs (fold (\<lambda>e. recordProgress now sid stage (msg @ '' ('' @ e @ '' elapsed)'') cur tot) beats s) = sv_dbs s"
  by (induction beats arbitrary: s) (simp_all add: recordProgress_def)

lemma open_load_outcome:
  fixes s :: "'db server"
  assumes id: "se_ID (session_of s sess) = sid" "sid \<noteq> []"
    and answer: "fst (w_OpenBinary (wa_session (ev_worker E)) (path, False) (sv_dbs s client)) = r"
    and run: "open_load E sess client path s = (go_on, s')"
  shows "go_on = (case r of Inl e \<Rightarrow> False | Inr resp \<Rightarrow> rp_Msg resp)"
    and "\<not> go_on \<Longrightarrow> getProgress sid s' = Some \<lparr>pg_Stage = ''failed'',
       pg_Message = (case r of Inl e \<Rightarrow> ''Failed to open binary: '' @ err_text (ev_quote E) e
         | Inr resp \<Rightarrow> ''IDA failed to open binary: '' @ rp_Error resp),
       pg_Progress = 0, pg_Total = 4, pg_UpdatedAt = ev_now E\<rparr>"
    and "sv_registry s' = sv_registry s" "sv_workers s' = sv_workers s"
proof -
  define t where "t = fold (\<lambda>e. recordProgress (ev_now E) sid ''opening'' (''Loading binary into IDA'' @ '' ('' @ e @ '' elapsed)'') 1 4)
    (sch_beats (ev_sched E)) (recordProgress (ev_now E) sid ''opening'' ''Loading binary into IDA'' 1 4 s)"
  have dbs: "sv_dbs t client = sv_dbs s client" by (simp add: t_def beats_dbs recordProgress_def del: append.simps)
  obtain db where db: "w_OpenBinary (wa_session (ev_worker E)) (path, False) (sv_dbs t client) = (r, db)"
    using answer dbs by (metis prod.collapse)
  have beat: "withHeartbeat E sid ''opening'' ''Loading binary into IDA'' 1 4 (call f q client) s = call f q client t"
    for f and q :: "string \<times> bool" by (simp only: withHeartbeat_def t_def)
  have stored: "getProgress sid (recordProgress now sid stage m x y u) =
      Some \<lparr>pg_Stage = stage, pg_Message = m, pg_Progress = x, pg_Total = y, pg_UpdatedAt = now\<rparr>" for now stage m x y and u :: "'db server"
    using id(2) by (simp add: getProgress_def recordProgress_def)
  show "go_on = (case r of Inl e \<Rightarrow> False | Inr resp \<Rightarrow> rp_Msg resp)"
    "\<not> go_on \<Longrightarrow> getProgress sid s' = Some \<lparr>pg_Stage = ''failed'',
       pg_Message = (case r of Inl e \<Rightarrow> ''Failed to open binary: '' @ err_text (ev_quote E) e
         | Inr resp \<Rightarrow> ''IDA failed to open binary: '' @ rp_Error resp),
       pg_Progress = 0, pg_Total = 4, pg_UpdatedAt = ev_now E\<rparr>"
    using run stored
    by (auto simp: open_load_def id(1) Let_def beat call_def db split: sum.splits if_splits)
  show "sv_registry s' = sv_registry s" "sv_workers s' = sv_workers s"
    using registry_same.keeps_open_load [of s "sv_registry s" "sv_workers s" E sess client path] run by simp_all
qed

section \<open>The session object\<close>

text \<open>The analysis guard is given back, so the registry is what it was.\<close>

lemma claim_end:
  assumes "claim_analysis sess s = (True, s1)" and "sv_registry s2 = sv_registry s1"
  shows "sv_registry (end_analysis sess s2) = sv_registry s"
proof -
  have off: "\<not> se_analysisActive (session_of s sess)" and s1: "s1 = on_registry (on_session sess (\<lambda>_. (session_of s sess)\<lparr>se_analysisActive := True\<rparr>)) s"
    using assms(1) by (auto simp: claim_analysis_def TryBeginAnalysis_def Let_def split: if_splits)
  have "EndAnalysis ((session_of s sess)\<lparr>se_analysisActive := True\<rparr>) = session_of s sess" using off by (simp add: EndAnalysis_def)
  then show ?thesis
    using assms(2) by (simp add: end_analysis_def on_registry_def on_session_def s1 session_of_def)
qed

lemma claim_refused: "claim_analysis sess s = (False, s1) \<Longrightarrow> s1 = s"
  by (auto simp: claim_analysis_def TryBeginAnalysis_def Let_def on_session_same split: if_splits)

lemma claim_workers: "sv_workers (snd (claim_analysis sess s)) = sv_workers s"
  by (simp add: claim_analysis_def case_prod_unfold Let_def on_registry_def)

lemma open_analyze_same:
  assumes "claim_analysis sess s = (True, s1)"
  shows "sv_registry (snd (open_analyze E sess client s1)) = sv_registry s" "sv_workers (snd (open_analyze E sess client s1)) = sv_workers s"
proof -
  obtain res s2 where e: "executeAnalysisWithHeartbeat E sess client s1 = (res, s2)" by (rule prod.exhaust)
  have s2: "sv_registry s2 = sv_registry s1 \<and> sv_workers s2 = sv_workers s1"
    using registry_same.keeps_executeAnalysis [of s1 "sv_registry s1" "sv_workers s1" E sess client] e by simp
  have "snd (open_analyze E sess client s1) = end_analysis sess s2" by (simp add: open_analyze_def e Let_def)
  then show "sv_registry (snd (open_analyze E sess client s1)) = sv_registry s" "sv_workers (snd (open_analyze E sess client s1)) = sv_workers s"
    using claim_end [OF assms, of s2] s2 claim_workers [of sess s] assms by (simp_all add: end_analysis_def on_registry_def)
qed

lemma open_finish_outcome:
  fixes s :: "'db server" and E :: "'db env" and auto :: bool and warning :: string
  assumes "se_ID (session_of s sess) = sid" and "sid \<noteq> []"
  defines "s' \<equiv> open_finish E sess auto warning None s"
  shows "\<exists>p. getProgress sid s' = Some p \<and> pg_Stage p = ''ready''"
    and "sv_registry s' = sv_registry s" "sv_workers s' = sv_workers s"
proof -
  show "\<exists>p. getProgress sid s' = Some p \<and> pg_Stage p = ''ready''"
    using assms(1,2) by (simp add: s'_def open_finish_def Let_def emitProgress_def getProgress_def recordProgress_def)
  have warm: "sv_registry (snd (warmSessionCache E None sid s)) = sv_registry s \<and> sv_workers (snd (warmSessionCache E None sid s)) = sv_workers s"
    using registry_same.keeps_warmSessionCache [of s "sv_registry s" "sv_workers s" E None sid] by simp
  show "sv_registry s' = sv_registry s" "sv_workers s' = sv_workers s"
    using registry_same.keeps_open_finish [of s "sv_registry s" "sv_workers s" E None "se_ID (session_of s sess)" sess auto warning] warm assms(1)
    by (simp_all add: s'_def)
qed

lemma acquire_release:
  assumes "0 \<le> se_inFlight x" and "se_inFlight x < 2 ^ 63 - 1"
  shows "ReleaseInFlight now (AcquireInFlight x) = x\<lparr>se_LastActivity := now\<rparr>"
  using assms by (simp add: ReleaseInFlight_def AcquireInFlight_def Touch_def Let_def wrap_int_def)

text \<open>C11: a load always settles. Whatever the worker answers and whether an analysis is wanted, already
  runs or fails, the background load of a registered session leaves the registry and the workers as
  they were, and of the session object only the time of the last activity is new: its lease and the
  analysis guard are given back. If the worker has opened the binary, the stage is ready, the
  readiness gate is open and every tool gets the session and its worker; if not, the gate is closed
  with the reason the worker gave.\<close>

theorem load_settles:
  fixes s :: "'db server" and E :: "'db env" and auto :: bool
  assumes sess: "registry_Get (sv_registry s) sid = Some sess" "se_ID (session_of s sess) = sid" "sid \<noteq> []"
    and client: "manager_GetClient sid (sv_workers s) = Ret client"
    and leases: "0 \<le> se_inFlight (session_of s sess)" "se_inFlight (session_of s sess) < 2 ^ 63 - 1"
    and answer: "fst (w_OpenBinary (wa_session (ev_worker E)) (path, False) (sv_dbs s client)) = r"
  defines "s' \<equiv> backgroundOpen E sess client path auto None s"
  shows "sv_workers s' = sv_workers s \<and> rg_sessions (sv_registry s') = rg_sessions (sv_registry s) \<and>
    session_of s' sess = (session_of s sess)\<lparr>se_LastActivity := ev_now E\<rparr> \<and>
    (case r of
       Inl e \<Rightarrow> getProgress sid s' = Some \<lparr>pg_Stage = ''failed'', pg_Message = ''Failed to open binary: '' @ err_text (ev_quote E) e,
         pg_Progress = 0, pg_Total = 4, pg_UpdatedAt = ev_now E\<rparr> \<and> readinessError sid s' \<noteq> None
     | Inr resp \<Rightarrow>
         if rp_Msg resp then
           (\<exists>p. getProgress sid s' = Some p \<and> pg_Stage p = ''ready'') \<and>
           (\<forall>E' tool. fst (resolveClient E' sid tool s') = Ret (sess, client))
         else getProgress sid s' = Some \<lparr>pg_Stage = ''failed'', pg_Message = ''IDA failed to open binary: '' @ rp_Error resp,
           pg_Progress = 0, pg_Total = 4, pg_UpdatedAt = ev_now E\<rparr> \<and> readinessError sid s' \<noteq> None)"
proof -
  obtain go_on s2 where l: "open_load E sess client path (acquire sess s) = (go_on, s2)" by (rule prod.exhaust)
  have "sv_dbs (acquire sess s) = sv_dbs s" "se_ID (session_of (acquire sess s) sess) = sid"
    using sess(2) by (simp_all add: acquire_def on_registry_def session_of_def on_session_def AcquireInFlight_def)
  note o = open_load_outcome [OF this(2) sess(3) answer [folded this(1)] l]
  define s3 where "s3 = (if \<not> go_on then s2 else
      let (warning, s) = (if auto then let (claimed, s) = claim_analysis sess s2 in if claimed then open_analyze E sess client s else ([], s)
          else ([], s2))
      in open_finish E sess auto warning None s)"
  have s': "s' = release (ev_now E) sess s3" by (simp add: s'_def backgroundOpen_def l s3_def)
  have id2: "se_ID (session_of s2 sess) = sid" using \<open>se_ID (session_of (acquire sess s) sess) = sid\<close> o(3) by (simp add: session_of_def)
  have s3: "sv_registry s3 = sv_registry s2 \<and> sv_workers s3 = sv_workers s2 \<and>
      (if go_on then \<exists>p. getProgress sid s3 = Some p \<and> pg_Stage p = ''ready'' else s3 = s2)"
  proof (cases go_on)
    case True
    obtain w t where w: "(if auto then let (claimed, s) = claim_analysis sess s2 in if claimed then open_analyze E sess client s else ([], s)
        else ([], s2)) = (w, t)" by (rule prod.exhaust)
    have t: "sv_registry t = sv_registry s2" "sv_workers t = sv_workers s2"
      using w open_analyze_same [of sess s2 _ E client] claim_refused [of sess s2]
      by (auto simp: Let_def split: if_splits prod.splits)
    then have "se_ID (session_of t sess) = sid" using id2 by (simp add: session_of_def)
    from open_finish_outcome [OF this sess(3)] show ?thesis using True t w by (simp add: s3_def)
  qed (simp add: s3_def)
  have "sv_registry s3 = on_session sess AcquireInFlight (sv_registry s)" using s3 o(3) by (simp add: acquire_def on_registry_def)
  then have reg: "rg_sessions (sv_registry s') = rg_sessions (sv_registry s)"
    "session_of s' sess = (session_of s sess)\<lparr>se_LastActivity := ev_now E\<rparr>"
    using acquire_release [OF leases] by (simp_all add: s' release_def on_registry_def on_session_def session_of_def)
  have workers: "sv_workers s' = sv_workers s" using s3 o(4) by (simp add: s' release_def acquire_def on_registry_def)
  have prog: "getProgress sid s' = getProgress sid s3" by (simp add: s' release_def on_registry_def getProgress_def)
  have "fst (resolveClient E' sid tool s') = Ret (sess, client)" if "getProgress sid s' = Some p" "pg_Stage p = ''ready''" for E' :: "'db env" and tool p
  proof -
    have "readinessError sid s' = None" using that by (simp add: readinessError_None inProgressStages_def)
    then show ?thesis
      using sess reg workers client that
      by (simp add: resolveClient_def resolveClientDuringLoad_def resolveSession_def and_then_def Let_def registry_Get_def
          session_of_on_registry Touch_def AcquireInFlight_def readinessError_def getProgress_def)
  qed
  then show ?thesis using reg workers prog s3 o(1,2) by (auto simp: readinessError_None split: sum.splits)
qed

theorem load_settles_witness:
  "\<forall>dbs :: nat \<Rightarrow> 'db. \<exists>E E' :: 'db env.
     readinessError ''a'' (one_session dbs ''opening'') \<noteq> None \<and>
     fst (resolveClient E ''a'' ''query'' (backgroundOpen E 0 0 ''/x'' True None (one_session dbs ''opening''))) = Ret (0, 0) \<and>
     readinessError ''a'' (backgroundOpen E' 0 0 ''/x'' True None (one_session dbs ''opening'')) \<noteq> None"
proof
  fix dbs :: "nat \<Rightarrow> 'db"
  let ?s = "one_session dbs ''opening''"
  define F where "F = (\<lambda>(e :: 'db env) ok. e\<lparr>ev_worker := (ev_worker e)\<lparr>wa_session := (wa_session (ev_worker e))
    \<lparr>w_OpenBinary := \<lambda>_ db. (Inr \<lparr>rp_Error = ''no loader'', rp_Msg = ok\<rparr>, db)\<rparr>\<rparr>\<rparr>)"
  have F: "fst (w_OpenBinary (wa_session (ev_worker (F e ok))) (path, False) (sv_dbs ?s 0)) = Inr \<lparr>rp_Error = ''no loader'', rp_Msg = ok\<rparr>"
    for e ok path by (simp add: F_def)
  have sess: "registry_Get (sv_registry ?s) ''a'' = Some 0" "se_ID (session_of ?s 0) = ''a''" "''a'' \<noteq> []"
    "manager_GetClient ''a'' (sv_workers ?s) = Ret 0" "0 \<le> se_inFlight (session_of ?s 0)" "se_inFlight (session_of ?s 0) < 2 ^ 63 - 1"
    by (simp_all add: registry_Get_def one_session_simps manager_GetClient_def no_session_def)
  note settles = load_settles [OF sess F, where auto = True and path = "''/x''"]
  have "fst (resolveClient (F undefined True) ''a'' ''query'' (backgroundOpen (F undefined True) 0 0 ''/x'' True None ?s)) = Ret (0, 0)"
    using settles [of undefined True] by simp
  moreover have "readinessError ''a'' (backgroundOpen (F undefined False) 0 0 ''/x'' True None ?s) \<noteq> None"
    using settles [of undefined False] by simp
  moreover have "readinessError ''a'' ?s \<noteq> None" by (auto simp: readinessError_None one_session_simps inProgressStages_def)
  ultimately show "\<exists>E E' :: 'db env. readinessError ''a'' ?s \<noteq> None \<and>
     fst (resolveClient E ''a'' ''query'' (backgroundOpen E 0 0 ''/x'' True None ?s)) = Ret (0, 0) \<and>
     readinessError ''a'' (backgroundOpen E' 0 0 ''/x'' True None ?s) \<noteq> None" by blast
qed

end
