(* ===== verification/Registration.thy ===== *)
theory Registration
  imports Addr
begin

text \<open>
  What a tool gets when it is registered and when its output is stored (internal/server/output_cache.go):
  the closed sets of its discriminator fields (toolEnums, applyEnumConstraints) and the ids of stored
  outputs (genCacheID). The schema that jsonschema.For infers and the random bytes are arguments.
\<close>

section \<open>genCacheID\<close>

text \<open>The verb \<open>%016x\<close>, and hex.EncodeToString on bytes.\<close>

definition hex16 :: "nat \<Rightarrow> string" where
  "hex16 n = replicate (16 - length (show_hex n)) CHR ''0'' @ show_hex n"

definition EncodeToString :: "nat list \<Rightarrow> string" where
  "EncodeToString b = concat (map (\<lambda>x. [digit_char (x div 16), digit_char (x mod 16)]) b)"

text \<open>\<open>random\<close> is the outcome of rand.Read, \<open>counter\<close> is cacheIDFallbackCounter.\<close>

definition genCacheID :: "nat list option \<Rightarrow> int \<Rightarrow> u64 \<Rightarrow> string \<times> u64" where
  "genCacheID random now counter =
     (case random of
        Some b \<Rightarrow> (EncodeToString b, counter)
      | None \<Rightarrow> let counter = counter + 1 in (hex16 (nat (now mod 2 ^ 64)) @ hex16 (unat counter), counter))"

lemma length_show_hex: "n < 16 ^ Suc w \<Longrightarrow> length (show_hex n) \<le> Suc w"
proof (induction w arbitrary: n)
  case 0
  then show ?case by (simp add: show_hex_def show_base_small)
next
  case (Suc w)
  show ?case
  proof (cases "n < 16")
    case True
    then show ?thesis by (simp add: show_hex_def show_base_small)
  next
    case False
    then have "n div 16 < 16 ^ Suc w" using Suc.prems by (simp add: less_mult_imp_div_less)
    from Suc.IH [OF this] False show ?thesis by (simp add: show_hex_def show_base_step)
  qed
qed

lemma parse_zeros: "parse_digits 16 0 (replicate k CHR ''0'' @ cs) = parse_digits 16 0 cs"
  by (induction k) (simp_all add: digit_of_def)

lemma hex16_reads_back:
  assumes "n < 2 ^ 64"
  shows "length (hex16 n) = 16 \<and> parse_digits 16 0 (hex16 n) = Some n"
proof -
  have "parse_digits 16 0 (show_base 16 n) = Some n" by (rule parse_digits_show_base) (use assms in simp_all)
  moreover have "length (show_hex n) \<le> 16" using length_show_hex [of n 15] assms by simp
  ultimately show ?thesis by (simp add: hex16_def parse_zeros) (simp add: show_hex_def)
qed

lemma digit_char_inj: "x < 16 \<Longrightarrow> y < 16 \<Longrightarrow> digit_char x = digit_char y \<longleftrightarrow> x = y"
  by (metis digit_of_digit_char option.inject)

lemma EncodeToString_inj:
  "list_all (\<lambda>x. x < 256) b \<Longrightarrow> list_all (\<lambda>x. x < 256) b' \<Longrightarrow> EncodeToString b = EncodeToString b' \<Longrightarrow> b = b'"
proof (induction b arbitrary: b')
  case (Cons x b)
  then obtain y c where b': "b' = y # c" by (cases b') (simp_all add: EncodeToString_def)
  then have "digit_char (x div 16) = digit_char (y div 16)" "digit_char (x mod 16) = digit_char (y mod 16)"
    "EncodeToString b = EncodeToString c"
    using Cons.prems(3) by (simp_all add: EncodeToString_def)
  moreover have "x div 16 < 16" "y div 16 < 16" using Cons.prems(1,2) by (simp_all add: b' less_mult_imp_div_less)
  ultimately have "x div 16 = y div 16" "x mod 16 = y mod 16" by (simp_all add: digit_char_inj)
  then have "x = y" by (metis div_mult_mod_eq)
  then show ?case using Cons \<open>EncodeToString b = EncodeToString c\<close> by (simp add: b')
next
  case Nil
  then show ?case by (cases b') (simp_all add: EncodeToString_def)
qed

lemma unat64: "unat (c :: u64) < 2 ^ 64"
  using unsigned_less [of c] by simp

text \<open>An id has 32 characters. Random ids differ when the bytes do; ids of the fallback differ for any
  two of the counter's values, also in the same nanosecond.\<close>

lemma cache_id_length:
  "random = None \<or> (\<exists>b. random = Some b \<and> length b = 16) \<Longrightarrow> length (fst (genCacheID random now counter)) = 32"
proof -
  have "length (EncodeToString b) = 2 * length b" for b by (induction b) (simp_all add: EncodeToString_def)
  moreover have "length (hex16 (nat (now mod 2 ^ 64))) = 16" "length (hex16 (unat (counter + 1))) = 16"
    using hex16_reads_back [of "nat (now mod 2 ^ 64)"] hex16_reads_back [OF unat64, of "counter + 1"]
    by (simp_all add: nat_less_iff)
  ultimately show "random = None \<or> (\<exists>b. random = Some b \<and> length b = 16) \<Longrightarrow> ?thesis"
    by (auto simp: genCacheID_def Let_def)
qed

lemma fallback_ids_differ:
  assumes "counter \<noteq> counter'"
  shows "fst (genCacheID None now counter) \<noteq> fst (genCacheID None now' counter')"
proof
  assume eq: "fst (genCacheID None now counter) = fst (genCacheID None now' counter')"
  have h: "length (hex16 (nat (t mod 2 ^ 64))) = 16" for t using hex16_reads_back [of "nat (t mod 2 ^ 64)"] by (simp add: nat_less_iff)
  from eq have "hex16 (unat (counter + 1)) = hex16 (unat (counter' + 1))" using h by (simp add: genCacheID_def Let_def)
  then have "Some (unat (counter + 1)) = Some (unat (counter' + 1))"
    using hex16_reads_back [OF unat64, of "counter + 1"] hex16_reads_back [OF unat64, of "counter' + 1"] by (simp only: conj_commute)
  then have "counter + 1 = counter' + 1" by (simp only: option.inject unsigned_word_eqI)
  then show False using assms by simp
qed

section \<open>toolEnums\<close>

definition toolEnums :: "(string \<times> (string \<times> string list) list) list" where
  "toolEnums =
     [(''query'', [(''category'', [''functions'', ''imports'', ''exports'', ''strings'', ''globals'', ''segments'', ''structs'',
        ''enums'', ''entry_point''])]),
      (''get_references'', [(''mode'', [''code'', ''data'', ''string'']), (''direction'', [''to'', ''from'', ''both''])]),
      (''search'', [(''mode'', [''text'', ''binary''])]),
      (''read_memory'', [(''format'', [''bytes'', ''dword'', ''qword'', ''byte'', ''string''])]),
      (''set_metadata'', [(''action'', [''set_name'', ''delete_name'', ''set_comment'']),
        (''scope'', [''address'', ''function'', ''decompiler''])]),
      (''set_type'', [(''target'', [''function'', ''global'', ''lvar''])]),
      (''import_metadata'', [(''format'', [''il2cpp'', ''flutter''])])]"

text \<open>The input schema of a tool, as far as the enumerations go: the values each property is
  restricted to (none: any value).\<close>

type_synonym input_schema = "string \<rightharpoonup> string list option"

record mcp_tool =
  mt_Name :: string
  mt_InputSchema :: "input_schema option"

definition set_enum :: "string \<times> string list \<Rightarrow> input_schema \<Rightarrow> input_schema" where
  "set_enum = (\<lambda>(field, values) props. case props field of None \<Rightarrow> props | Some _ \<Rightarrow> props(field \<mapsto> Some values))"

text \<open>\<open>inferred\<close> is the outcome of jsonschema.For; none for an error or a nil schema.\<close>

definition applyEnumConstraints :: "input_schema option \<Rightarrow> mcp_tool \<Rightarrow> mcp_tool" where
  "applyEnumConstraints inferred tool =
     (case map_of toolEnums (mt_Name tool) of
        None \<Rightarrow> tool
      | Some enums \<Rightarrow>
          if mt_InputSchema tool \<noteq> None then tool
          else case inferred of
                 None \<Rightarrow> tool
               | Some schema \<Rightarrow> tool\<lparr>mt_InputSchema := Some (fold set_enum enums schema)\<rparr>)"

text \<open>The order in which the map of a tool is ranged over does not matter.\<close>

lemma fold_set_enum:
  "distinct (map fst enums) \<Longrightarrow> fold set_enum enums schema field =
     (case (map_of enums field, schema field) of (Some values, Some _) \<Rightarrow> Some (Some values) | _ \<Rightarrow> schema field)"
proof (induction enums arbitrary: schema)
  case (Cons e enums)
  obtain a b where e: "e = (a, b)" by (rule prod.exhaust)
  have "map_of enums a = None" using Cons.prems by (simp add: e map_of_eq_None_iff)
  then show ?case using Cons.IH [of "set_enum e schema"] Cons.prems by (auto simp: e set_enum_def split: option.splits)
qed simp

lemma toolEnums_distinct: "(name, enums) \<in> set toolEnums \<Longrightarrow> distinct (map fst enums)"
  by (auto simp: toolEnums_def)

end
