(* ===== verification/Analyze.thy ===== *)
theory Analyze
  imports Composite WriteTools
begin

text \<open>
  What analyze_function and analyze_functions answer (internal/server/composite.go): the cache of
  decompiled functions is invisible, a batch degrades item by item, and a survey accounts for every
  section.
\<close>

section \<open>The outcome of one task\<close>

text \<open>A run of tasks that all keep \<open>I\<close> ends, and the outcome of a task is one that its step can have
  in a state with \<open>I\<close>.\<close>

definition outcome_of :: "('k \<rightharpoonup> 'v) \<Rightarrow> ('k \<rightharpoonup> gerr) \<Rightarrow> 'k \<Rightarrow> 'v go \<Rightarrow> bool" where
  "outcome_of data errs k r \<longleftrightarrow>
     (case r of
        Ret v \<Rightarrow> data k = Some v \<and> errs k = None
      | Err e \<Rightarrow> data k = None \<and> errs k = Some e
      | Panic p \<Rightarrow> False)"

text \<open>A step that keeps \<open>I\<close> and does not panic.\<close>

definition good :: "('s \<Rightarrow> bool) \<Rightarrow> ('s, 'a) step \<Rightarrow> bool" where
  "good I m \<longleftrightarrow> (\<forall>s. I s \<longrightarrow> I (snd (m s)) \<and> (\<forall>p. fst (m s) \<noteq> Panic p))"

lemma run_tasks_outcome:
  assumes "\<And>k f. (k, f) \<in> set tasks \<Longrightarrow> good I f" and "distinct (map fst tasks)" and "I s"
  shows "\<exists>data errs s'. run_tasks tasks (da, ea) s = (Ret (data, errs), s') \<and> I s' \<and>
     (\<forall>k f. (k, f) \<in> set tasks \<longrightarrow> (\<exists>t. I t \<and> (da k = None \<longrightarrow> ea k = None \<longrightarrow> outcome_of data errs k (fst (f t))))) \<and>
     (\<forall>k. k \<notin> fst ` set tasks \<longrightarrow> data k = da k \<and> errs k = ea k)"
  using assms
proof (induction tasks arbitrary: da ea s)
  case Nil
  then show ?case by (simp add: ret_def)
next
  case (Cons x tasks)
  obtain k f where x: "x = (k, f)" by (cases x)
  obtain r s1 where r: "f s = (r, s1)" by (cases "f s")
  have s1: "I s1" and np: "r \<noteq> Panic p" for p
    using Cons.prems(1) [of k f] Cons.prems(3) r by (auto simp: x good_def dest: spec [of _ s])
  define acc where "acc = (case r of Ret v \<Rightarrow> (da(k \<mapsto> v), ea) | Err e \<Rightarrow> (da, ea(k \<mapsto> e)) | Panic p \<Rightarrow> (da, ea))"
  obtain d1 e1 where acc1: "acc = (d1, e1)" by (cases acc)
  have run: "run_tasks (x # tasks) (da, ea) s = run_tasks tasks (d1, e1) s1"
    using np acc1 by (cases r) (auto simp: x r catching_def collect_labeled_def acc_def)
  have tasks: "good I f'" if "(k', f') \<in> set tasks" for k' f'
    using Cons.prems(1) [of k' f'] that by simp
  have dist: "distinct (map fst tasks)" using Cons.prems(2) by simp
  obtain data errs s' where IH: "run_tasks tasks (d1, e1) s1 = (Ret (data, errs), s')" "I s'"
    "\<forall>k f. (k, f) \<in> set tasks \<longrightarrow> (\<exists>t. I t \<and> (d1 k = None \<longrightarrow> e1 k = None \<longrightarrow> outcome_of data errs k (fst (f t))))"
    "\<forall>k. k \<notin> fst ` set tasks \<longrightarrow> data k = d1 k \<and> errs k = e1 k"
    using Cons.IH [OF _ dist s1, of d1 e1] tasks by blast
  have k: "k \<notin> fst ` set tasks" using Cons.prems(2) by (simp add: x)
  have "da k = None \<longrightarrow> ea k = None \<longrightarrow> outcome_of data errs k (fst (f s))"
    using IH(4) k np acc1 by (cases r) (auto simp: r outcome_of_def acc_def)
  moreover have "d1 k' = da k' \<and> e1 k' = ea k'" if "k' \<noteq> k" for k'
    using that acc1 by (auto simp: acc_def split: go.splits)
  moreover have "k' \<noteq> k" if "(k', f') \<in> set tasks" for k' f' using that k by force
  ultimately have "\<forall>k' f'. (k', f') \<in> set (x # tasks) \<longrightarrow>
      (\<exists>t. I t \<and> (da k' = None \<longrightarrow> ea k' = None \<longrightarrow> outcome_of data errs k' (fst (f' t))))"
    using IH(3) Cons.prems(3) x by (metis (no_types, lifting) prod.inject set_ConsD)
  then show ?case
    using run IH(1,2,4) \<open>\<And>k'. k' \<noteq> k \<Longrightarrow> d1 k' = da k' \<and> e1 k' = ea k'\<close> by (auto simp: x)
qed

lemma runLabeled_outcome:
  assumes "\<And>k f. (k, f) \<in> set tasks \<Longrightarrow> good I f" and "distinct (map fst tasks)" and "I s"
  shows "\<exists>data errs s'. runLabeled order tasks s = (Ret (data, errs), s') \<and> I s' \<and>
     (\<forall>k f. (k, f) \<in> set tasks \<longrightarrow> (\<exists>t. I t \<and> outcome_of data errs k (fst (f t))))"
proof -
  have p: "good I f" if "(k, f) \<in> set (in_schedule order tasks)" for k f
    using assms(1) [of k f] that by (simp add: in_schedule_perm)
  have dist: "distinct (map fst (in_schedule order tasks))" using assms(2) by (simp add: in_schedule_perm)
  obtain data errs s' where r: "run_tasks (in_schedule order tasks) (Map.empty, Map.empty) s = (Ret (data, errs), s')" "I s'"
    "\<forall>k f. (k, f) \<in> set (in_schedule order tasks) \<longrightarrow> (\<exists>t. I t \<and> outcome_of data errs k (fst (f t)))"
    using run_tasks_outcome [of "in_schedule order tasks" I s Map.empty Map.empty, OF _ dist assms(3)] p by auto
  then show ?thesis unfolding runLabeled_def in_schedule_perm by blast
qed

lemma good_ret: "good I (ret a)" by (simp add: good_def ret_def)

lemma good_fail: "good I (fail e)" by (simp add: good_def fail_def)

lemma good_reply: "good I (lift (reply_go r))" by (simp add: good_def lift_def reply_go_def)

lemma good_upd: "(\<And>s. I s \<Longrightarrow> I (f s)) \<Longrightarrow> good I (upd f)" by (simp add: good_def upd_def)

lemma good_and_then: "good I m \<Longrightarrow> (\<And>a. good I (k a)) \<Longrightarrow> good I (and_then m k)"
  by (fastforce simp: good_def and_then_def split: prod.splits go.splits)

lemma good_catching: "good I m \<Longrightarrow> (\<And>a. good I (k a)) \<Longrightarrow> good I (catching m k)"
  by (fastforce simp: good_def catching_def split: prod.splits go.splits)

lemma good_runLabeled:
  assumes "\<And>k f. (k, f) \<in> set tasks \<Longrightarrow> good I f" and "distinct (map fst tasks)"
  shows "good I (runLabeled order tasks)"
proof -
  have "I (snd (runLabeled order tasks s)) \<and> (\<forall>p. fst (runLabeled order tasks s) \<noteq> Panic p)" if "I s" for s
    using runLabeled_outcome [of tasks I s order, OF _ assms(2) that] assms(1) by fastforce
  then show ?thesis by (simp add: good_def)
qed

lemmas good_intros = good_ret good_fail good_reply good_upd good_and_then good_catching good_runLabeled

lemma good_task: "good I m \<Longrightarrow> good I (task con m)"
  unfolding task_def by (auto intro!: good_intros)

section \<open>The cache of decompiled functions is invisible\<close>

text \<open>The calls of analyze_function do not change what the worker would decompile.\<close>

definition reads_keep_texts :: "'db env \<Rightarrow> bool" where
  "reads_keep_texts E \<longleftrightarrow>
     (let w = wa_func (ev_worker E) in \<forall>db a.
        texts E (snd (w_GetDecompiled w a db)) = texts E db \<and> texts E (snd (w_GetFunctionInfo w a db)) = texts E db \<and>
        texts E (snd (w_GetXRefsTo w a db)) = texts E db \<and> texts E (snd (w_GetXRefsFrom w a db)) = texts E db \<and>
        texts E (snd (w_GetFuncComment w a db)) = texts E db)"

definition agrees_as :: "'db env \<Rightarrow> nat \<Rightarrow> string \<Rightarrow> nat \<Rightarrow> (u64 \<rightharpoonup> string) \<Rightarrow> 'db server \<Rightarrow> bool" where
  "agrees_as E sess sid client T s \<longleftrightarrow>
     se_ID (session_of s sess) = sid \<and> cache_inv (session_cache sid s) \<and> map_of (decomps (session_cache sid s)) \<subseteq>\<^sub>m T \<and> texts E (sv_dbs s client) = T"

lemma good_call:
  "(\<And>db. texts E (snd (f q db)) = texts E db) \<Longrightarrow> good (agrees_as E sess sid client T) (call f q client)"
  unfolding good_def
proof (intro allI impI)
  fix s
  assume k: "\<And>db. texts E (snd (f q db)) = texts E db" and s: "agrees_as E sess sid client T s"
  obtain r db where r: "f q (sv_dbs s client) = (r, db)" by (rule prod.exhaust)
  have "texts E db = texts E (sv_dbs s client)" using k [of "sv_dbs s client"] r by simp
  then show "agrees_as E sess sid client T (snd (call f q client s)) \<and> (\<forall>p. fst (call f q client s) \<noteq> Panic p)"
    using s r by (cases r) (auto simp: call_cases agrees_as_def)
qed

lemma good_call_checked:
  "(\<And>db. texts E (snd (f q db)) = texts E db) \<Longrightarrow> good (agrees_as E sess sid client T) (call_checked f q client)"
  unfolding call_checked_def by (auto intro!: good_intros good_call)

lemma agrees_on_cache:
  assumes "agrees_as E sess sid client T s"
    and "\<And>c. cache_inv c \<Longrightarrow> map_of (decomps c) \<subseteq>\<^sub>m T \<Longrightarrow> cache_inv (f c) \<and> map_of (decomps (f c)) \<subseteq>\<^sub>m T"
  shows "agrees_as E sess sid client T (on_cache sid f s)"
  using assms by (simp add: agrees_as_def)

lemma map_of_touch: "distinct (map fst xs) \<Longrightarrow> map_of (lru_touch k xs) = map_of xs"
  by (auto simp: lru_touch_def fun_eq_iff AList.delete_conv' split: option.splits)

lemma agrees_getDecomp: "agrees_as E sess sid client T s \<Longrightarrow> agrees_as E sess sid client T (on_cache sid (\<lambda>c. snd (getDecomp a c)) s)"
  by (erule agrees_on_cache) (simp add: getDecomp_spec map_of_touch decomps_distinct)

lemma agrees_setDecomp:
  "agrees_as E sess sid client T s \<Longrightarrow> T a = Some code \<Longrightarrow> agrees_as E sess sid client T (on_cache sid (setDecomp a code) s)"
  by (erule agrees_on_cache) (simp add: setDecomp_spec decomps.put_agrees)

lemma agrees_setXRefs: "agrees_as E sess sid client T s \<Longrightarrow> agrees_as E sess sid client T (on_cache sid (setXRefs a x) s)"
  by (erule agrees_on_cache) (simp add: setXRefs_def decomps_def cache_inv_def Let_def)

lemma agrees_markVisited: "agrees_as E sess sid client T s \<Longrightarrow> agrees_as E sess sid client T (on_cache sid (markVisited a t n) s)"
  by (erule agrees_on_cache) (auto simp: markVisited_def decomps_def cache_inv_def Let_def split: option.splits)

lemma session_cache_get [simp]: "session_cache sid (getSessionCache sid s) = session_cache sid s"
  by (simp add: getSessionCache_def session_cache_def)

lemma agrees_getSessionCache: "agrees_as E sess sid client T s \<Longrightarrow> agrees_as E sess sid client T (getSessionCache sid s)"
  by (simp add: agrees_as_def) (simp add: getSessionCache_def session_of_def)

lemma decompiled_outcome:
  assumes "reads_keep_texts E" and s: "agrees_as E sess sid client T s"
  shows "agrees_as E sess sid client T (snd (analyze_decompiled E sid client a s)) \<and>
    (case T a of Some t \<Rightarrow> fst (analyze_decompiled E sid client a s) = Ret (VText t)
     | None \<Rightarrow> \<exists>e. fst (analyze_decompiled E sid client a s) = Err e)"
proof -
  define s1 where "s1 = on_cache sid (\<lambda>c. snd (getDecomp a c)) s"
  have s1: "agrees_as E sess sid client T s1" using agrees_getDecomp [OF s] by (simp add: s1_def)
  have c: "cache_inv (session_cache sid s)" "map_of (decomps (session_cache sid s)) \<subseteq>\<^sub>m T"
    and T: "texts E (sv_dbs s1 client) = T"
    using s s1 by (simp_all add: agrees_as_def)
  show ?thesis
  proof (cases "map_of (decomps (session_cache sid s)) a")
    case (Some code)
    then have "T a = Some code" using c(2) by (auto simp: map_le_def dom_def)
    then show ?thesis using Some s1 by (simp add: analyze_decompiled_def getDecomp_spec c(1) s1_def [symmetric])
  next
    case None
    obtain r db where r: "w_GetDecompiled (wa_func (ev_worker E)) a (sv_dbs s1 client) = (r, db)" by (rule prod.exhaust)
    have db: "agrees_as E sess sid client T (db_step client db s1)"
      using s1 assms(1) r by (simp add: agrees_as_def reads_keep_texts_def Let_def) (metis snd_conv)
    have Ta: "T a = (case r of Inl _ \<Rightarrow> None | Inr x \<Rightarrow> if rp_Error x = [] then Some (rp_Msg x) else None)"
      using r by (simp add: T [symmetric] texts_def)
    show ?thesis
      using None c(1) db Ta agrees_setDecomp [OF db]
      by (auto simp: analyze_decompiled_def getDecomp_spec s1_def [symmetric] call_checked_def and_then_def call_cases r
          lift_def reply_go_def upd_def ret_def split: sum.splits if_splits)
  qed
qed

lemma good_analyze_tasks:
  assumes E: "reads_keep_texts E" and t: "(k, f) \<in> set (analyze_tasks E sid client a)"
  shows "good (agrees_as E sess sid client T) f"
proof -
  have dec: "good (agrees_as E sess sid client T) (analyze_decompiled E sid client a)"
    unfolding good_def
  proof (intro allI impI)
    fix s
    assume "agrees_as E sess sid client T s"
    from decompiled_outcome [OF E this, of a]
    show "agrees_as E sess sid client T (snd (analyze_decompiled E sid client a s)) \<and>
        (\<forall>p. fst (analyze_decompiled E sid client a s) \<noteq> Panic p)"
      by (cases "T a") auto
  qed
  have xs: "good (agrees_as E sess sid client T) (task VTuples (xrefs_to E client a))"
    "good (agrees_as E sess sid client T) (task VTuples (xrefs_from E client a))"
    unfolding xrefs_to_def xrefs_from_def using E
    by (auto simp: reads_keep_texts_def Let_def intro!: good_task good_and_then good_ret good_call_checked)
  have "good (agrees_as E sess sid client T) (runLabeled (sch_tasks (ev_sched E))
      [(''to'', task VTuples (xrefs_to E client a)), (''from'', task VTuples (xrefs_from E client a))])"
    using xs by (intro good_runLabeled) auto
  then have "good (agrees_as E sess sid client T)
      (and_then (runLabeled (sch_tasks (ev_sched E))
        [(''to'', task VTuples (xrefs_to E client a)), (''from'', task VTuples (xrefs_from E client a))])
      (\<lambda>(xres, xerrs).
              case join_errors (ev_quote E) (xerrs ''to'') (xerrs ''from'') of
                Some e \<Rightarrow> fail e
              | None \<Rightarrow>
                  let entry = \<lparr>xe_to = tuples_of (xres ''to''), xe_from = tuples_of (xres ''from'')\<rparr>
                  in and_then (upd (on_cache sid (setXRefs a entry))) (\<lambda>_. ret (VXRefs entry))))"
    by (auto simp: Let_def split: option.splits intro!: good_intros agrees_setXRefs)
  then have "good (agrees_as E sess sid client T) (analyze_xrefs E sid client a)"
    unfolding good_def analyze_xrefs_def by (auto split: option.splits)
  with dec t E show ?thesis
    by (auto simp: analyze_tasks_def reads_keep_texts_def Let_def intro!: good_task good_call good_call_checked)
qed

lemma get_decompilation:
  "get_key (analyze_object E data errs) ''decompilation'' =
     (case data ''decompiled'' of Some (VText code) \<Rightarrow> Some (JString code) | _ \<Rightarrow> None)"
proof -
  have no: "map_of (info_fields info) ''decompilation'' = None" for info
    by (simp add: info_fields_def field_if_def Let_def)
  have field: "map_of (field_if b key v) ''decompilation'' = None" if "key \<noteq> ''decompilation''" for b key v
    using that by (simp add: field_if_def)
  have info: "map_of (case v of Some (VFunctionInfo info) \<Rightarrow> info_fields info | _ \<Rightarrow> []) ''decompilation'' = None" for v
    by (simp add: no split: option.splits task_value.splits)
  have xrefs: "map_of (case v of
        Some (VXRefs entry) \<Rightarrow>
          field_if (xe_to entry \<noteq> []) ''xrefs_to'' (tuples_json (xe_to entry)) @
          field_if (xe_from entry \<noteq> []) ''xrefs_from'' (tuples_json (xe_from entry))
      | _ \<Rightarrow> (case e of None \<Rightarrow> [] | Some e \<Rightarrow> [(''xrefs_error'', JString (q e))])) ''decompilation'' = None" for v e q
    by (simp add: field split: option.splits task_value.splits)
  have comment: "map_of (case v of
        Some (VText comment) \<Rightarrow> field_if (comment \<noteq> []) ''comment'' (JString comment) | _ \<Rightarrow> []) ''decompilation'' = None" for v
    by (simp add: field split: option.splits task_value.splits)
  show ?thesis
    unfolding get_key_def analyze_object_def map_of_append map_add_def info xrefs comment
    by (simp split: option.splits task_value.splits)
qed

lemma analyzeSingleFunction_answers:
  assumes "reads_keep_texts E"
    and "agrees_as E sess sid client (texts E (sv_dbs s client)) s"
  shows "\<exists>obj s'. analyzeSingleFunction E sess client addr s = (Ret (JObject obj), s') \<and>
     get_key obj ''decompilation'' = map_option JString (texts E (sv_dbs s client) addr) \<and>
     agrees_as E sess sid client (texts E (sv_dbs s client)) s'"
proof -
  define T where "T = texts E (sv_dbs s client)"
  have s1: "agrees_as E sess sid client T (getSessionCache sid s)" using agrees_getSessionCache assms(2) by (simp add: T_def)
  have dist: "distinct (map fst (analyze_tasks E sid client addr))" by (simp add: analyze_tasks_def)
  have good: "good (agrees_as E sess sid client T) f" if "(k, f) \<in> set (analyze_tasks E sid client addr)" for k f
    using assms(1) that by (rule good_analyze_tasks)
  have run_all: "\<exists>data errs s'. runLabeled (sch_tasks (ev_sched E)) (analyze_tasks E sid client addr) (getSessionCache sid s) =
      (Ret (data, errs), s') \<and> agrees_as E sess sid client T s' \<and>
      (\<forall>k f. (k, f) \<in> set (analyze_tasks E sid client addr) \<longrightarrow>
        (\<exists>t. agrees_as E sess sid client T t \<and> outcome_of data errs k (fst (f t))))"
    by (rule runLabeled_outcome [where I = "agrees_as E sess sid client T"]) (rule good dist s1, assumption?)+
  obtain data errs s2 where run: "runLabeled (sch_tasks (ev_sched E)) (analyze_tasks E sid client addr) (getSessionCache sid s) =
      (Ret (data, errs), s2)" and s2: "agrees_as E sess sid client T s2"
    and out: "\<forall>k f. (k, f) \<in> set (analyze_tasks E sid client addr) \<longrightarrow>
      (\<exists>t. agrees_as E sess sid client T t \<and> outcome_of data errs k (fst (f t)))"
    using run_all by blast
  obtain t where t: "agrees_as E sess sid client T t"
    and o: "outcome_of data errs ''decompiled'' (fst (analyze_decompiled E sid client addr t))"
    using out [rule_format, of "''decompiled''"] by (auto simp: analyze_tasks_def)
  have "(case data ''decompiled'' of Some (VText code) \<Rightarrow> Some (JString code) | _ \<Rightarrow> None) = map_option JString (T addr)"
    using decompiled_outcome [OF assms(1) t, of addr] o by (auto simp: outcome_of_def split: option.splits)
  then show ?thesis
    using run agrees_markVisited [OF s2] assms(2)
    by (simp add: agrees_as_def [of E sess sid client _ s] analyzeSingleFunction_def Let_def and_then_def upd_def ret_def get_decompilation T_def)
qed

section \<open>A batch\<close>

text \<open>Items that keep \<open>I\<close>: the result at each index is one that its item can give in a state with \<open>I\<close>.\<close>

lemma run_indices_inv:
  "(\<And>x s. I s \<Longrightarrow> I (snd (fn x s))) \<Longrightarrow> I s \<Longrightarrow> distinct order \<Longrightarrow> i \<in> set order \<Longrightarrow> i < length results \<Longrightarrow>
   \<exists>t. I t \<and> fst (run_indices fn items order results s) ! i = fst (fn (items ! i) t)"
proof (induction order arbitrary: results s)
  case (Cons j order)
  obtain r t where r: "fn (items ! j) s = (r, t)" by (rule prod.exhaust)
  have t: "I t" using Cons.prems(1) [OF Cons.prems(2), of "items ! j"] r by simp
  show ?case
  proof (cases "i = j")
    case True
    then show ?thesis using r Cons.prems by (auto simp: run_indices_other intro!: exI [of _ s])
  next
    case False
    have "i \<in> set order" using Cons.prems(4) False by simp
    then have "\<exists>u. I u \<and> fst (run_indices fn items order (results[j := r]) t) ! i = fst (fn (items ! i) u)"
      using Cons.prems(1,3,5) t by (intro Cons.IH) auto
    then show ?thesis using r by simp
  qed
qed simp

lemma parallelMap_inv:
  assumes "\<And>x s. I s \<Longrightarrow> I (snd (fn x s))" and "I s" and "i < length items"
  shows "\<exists>t. I t \<and> fst (parallelMap order zero fn items s) ! i = fst (fn (items ! i) t)"
  unfolding parallelMap_def
  by (rule run_indices_inv) (use assms in \<open>simp_all add: in_index_order_perm\<close>)

lemma all_results_Ret: "(\<forall>r \<in> set rs. \<exists>j. r = Ret j) \<Longrightarrow> \<exists>js. all_results rs = Ret js \<and> rs = map Ret js"
proof (induction rs)
  case (Cons r rs)
  then obtain js j where "all_results rs = Ret js" "rs = map Ret js" "r = Ret j" by auto
  then show ?case by (auto intro!: exI [of _ "j # js"])
qed simp

text \<open>What one item of the batch answers.\<close>

definition item_answer :: "'db env \<Rightarrow> (u64 \<rightharpoonup> string) \<Rightarrow> string \<Rightarrow> json \<Rightarrow> bool" where
  "item_answer E T a j \<longleftrightarrow>
     (case parseAddr a of
        Err e \<Rightarrow> j = JObject [(''address'', JString a), (''error'', JString (err_text (ev_quote E) e))]
      | Panic p \<Rightarrow> False
      | Ret addr \<Rightarrow> \<exists>obj. j = JObject obj \<and> get_key obj ''decompilation'' = map_option JString (T addr))"

lemma parseAddr_no_panic: "parseAddr a \<noteq> Panic p"
  by (simp add: parseAddr_def Let_def split: go.splits option.splits)

lemma analyze_item_answer:
  assumes E: "reads_keep_texts E" and s: "agrees_as E sess sid client T s"
  shows "\<exists>j s'. analyze_item E sess client a s = (Ret j, s') \<and> item_answer E T a j \<and> agrees_as E sess sid client T s'"
proof (cases "parseAddr a")
  case (Ret addr)
  have T: "texts E (sv_dbs s client) = T" using s by (simp add: agrees_as_def)
  obtain obj s' where "analyzeSingleFunction E sess client addr s = (Ret (JObject obj), s')"
    "get_key obj ''decompilation'' = map_option JString (T addr)" "agrees_as E sess sid client T s'"
    using analyzeSingleFunction_answers [OF E, of sess sid client s addr] s unfolding T by blast
  then show ?thesis using Ret by (simp add: analyze_item_def catching_def item_answer_def)
next
  case (Err e)
  then show ?thesis using s by (simp add: analyze_item_def catching_def item_answer_def ret_def)
next
  case (Panic p)
  then show ?thesis by (simp add: parseAddr_no_panic)
qed

text \<open>C25: analyze_functions answers every address of its batch, in the order given, and the cache of
  decompiled functions cannot be seen in the answers. For a worker whose read calls do not change
  the texts, and a cache that agrees with the database, an address that does not parse is answered
  with its error and does not disturb the others, and every other address with an object whose
  decompilation is what the database gives, or that has none where the database gives an error:
  whether the cache held the function or not, and in whatever order the goroutines ran.\<close>

theorem analyzeFunctions_answers:
  assumes "reads_keep_texts E"
    and "resolveClientWait E W (afs_SessionID args) ''analyze_functions'' s = (Ret (sess, client), s1)"
    and "agrees_as E sess sid client T s1"
    and "afs_Addresses args \<noteq> []" and "length (afs_Addresses args) \<le> maxBatchAnalyze"
  shows "\<exists>js s'. analyzeFunctions E W args s = (Ret (JsonContent (JObject [(''functions'', JArray js)])), s') \<and>
     list_all2 (item_answer E T) (afs_Addresses args) js"
proof -
  let ?items = "afs_Addresses args" and ?item = "analyze_item E sess client"
  obtain results s2 where r: "parallelMap (sch_indices (ev_sched E)) (Ret JNull) ?item ?items s1 = (results, s2)"
    by (rule prod.exhaust)
  have keep: "agrees_as E sess sid client T (snd (?item a t))" if "agrees_as E sess sid client T t" for a t
    using analyze_item_answer [OF assms(1) that, of a] by auto
  have len: "length results = length ?items"
    using parallelMap_nth(2) [of "sch_indices (ev_sched E)" "Ret JNull" ?item ?items s1] by (simp add: r)
  have ans: "\<exists>j. results ! i = Ret j \<and> item_answer E T (?items ! i) j" if i: "i < length ?items" for i
  proof -
    have "\<exists>t. agrees_as E sess sid client T t \<and>
        fst (parallelMap (sch_indices (ev_sched E)) (Ret JNull) ?item ?items s1) ! i = fst (?item (?items ! i) t)"
      by (rule parallelMap_inv [where I = "agrees_as E sess sid client T", OF keep assms(3) i])
    then obtain t where "agrees_as E sess sid client T t" "results ! i = fst (?item (?items ! i) t)" by (auto simp: r)
    then show ?thesis using analyze_item_answer [OF assms(1), of sess sid client T t "?items ! i"] by auto
  qed
  have "\<forall>r \<in> set results. \<exists>j. r = Ret j" using ans len by (metis in_set_conv_nth)
  then obtain js where js: "all_results results = Ret js" "results = map Ret js" using all_results_Ret by blast
  have "list_all2 (item_answer E T) ?items js"
    using ans len js(2) by (auto simp: list_all2_conv_all_nth)
  then show ?thesis
    using assms(2,4,5) js(1) r by (simp add: analyzeFunctions_def and_then_def ret_def lift_def)
qed

text \<open>The worker of the example answers the other reads with an error.\<close>

definition reading_worker :: "(string \<times> string) env \<Rightarrow> (string \<times> string) env" where
  "reading_worker E =
     (let E = demo_worker E; w = ev_worker E
      in E\<lparr>ev_worker := w
           \<lparr>wa_func := (wa_func w)
              \<lparr>w_GetFunctionInfo := (\<lambda>a db. (Inl (Msg ''none''), db)), w_GetXRefsTo := (\<lambda>a db. (Inl (Msg ''none''), db)),
               w_GetXRefsFrom := (\<lambda>a db. (Inl (Msg ''none''), db)), w_GetFuncComment := (\<lambda>a db. (Inl (Msg ''none''), db))\<rparr>\<rparr>\<rparr>)"

lemma reading_worker_texts: "texts (reading_worker E) db = texts (demo_worker E) db"
  by (simp add: texts_def reading_worker_def Let_def fun_eq_iff)

lemma reading_worker_keeps: "reads_keep_texts (reading_worker E)"
  by (auto simp: reads_keep_texts_def Let_def reading_worker_texts)
    (auto simp: reading_worker_def demo_worker_def Let_def)

lemma reading_worker_resolve:
  "resolveClientWait (reading_worker E) W ''a'' tool (demo_server listed) =
     (Ret (0, 0), leased (ev_now E) 0 (demo_server listed))"
proof -
  have env: "ev_order (reading_worker E) = ev_order (demo_worker E)" "ev_now (reading_worker E) = ev_now (demo_worker E)"
    by (simp_all add: reading_worker_def Let_def)
  show ?thesis
    using demo_resolve [of E W tool listed] unfolding resolveClientWait_def resolveClientDuringLoad_def env .
qed

theorem analyzeFunctions_answers_witness:
  "\<forall>E W. \<exists>js s'. analyzeFunctions (reading_worker E) W
       \<lparr>afs_SessionID = ''a'', afs_Addresses = [''0x2'', ''zz'', ''1'']\<rparr> (demo_server True) =
         (Ret (JsonContent (JObject [(''functions'', JArray js)])), s') \<and>
     list_all2 (item_answer (reading_worker E) (texts (demo_worker E) (''f'', ''int ''))) [''0x2'', ''zz'', ''1''] js"
proof (intro allI)
  fix E :: "(string \<times> string) env" and W :: "(string \<times> string) wait_env"
  let ?args = "\<lparr>afs_SessionID = ''a'', afs_Addresses = [''0x2'', ''zz'', ''1'']\<rparr> :: AnalyzeFunctionsRequest"
  have "\<exists>js s'. analyzeFunctions (reading_worker E) W ?args (demo_server True) =
       (Ret (JsonContent (JObject [(''functions'', JArray js)])), s') \<and>
     list_all2 (item_answer (reading_worker E) (texts (demo_worker E) (''f'', ''int ''))) (afs_Addresses ?args) js"
  proof (rule analyzeFunctions_answers)
    show "resolveClientWait (reading_worker E) W (afs_SessionID ?args) ''analyze_functions'' (demo_server True) =
        (Ret (0, 0), leased (ev_now E) 0 (demo_server True))"
      by (simp add: reading_worker_resolve)
    show "agrees_as (reading_worker E) 0 ''a'' 0 (texts (demo_worker E) (''f'', ''int '')) (leased (ev_now E) 0 (demo_server True))"
      by (simp add: agrees_as_def demo_server_simps demo_cache_simps reading_worker_texts)
  qed (simp_all add: reading_worker_keeps maxBatchAnalyze_def)
  then show "\<exists>js s'. analyzeFunctions (reading_worker E) W ?args (demo_server True) =
       (Ret (JsonContent (JObject [(''functions'', JArray js)])), s') \<and>
     list_all2 (item_answer (reading_worker E) (texts (demo_worker E) (''f'', ''int ''))) [''0x2'', ''zz'', ''1''] js"
    by simp
qed

section \<open>A survey accounts for every section\<close>

definition value_keys :: "string \<Rightarrow> string list" where
  "value_keys key = (if key = ''info'' then [''has_decompiler'', ''auto_state'', ''auto_running''] else [key])"

text \<open>The outcome of a section has the type that survey_binary asserts.\<close>

definition section_ok :: "(string \<rightharpoonup> task_value) \<Rightarrow> (string \<rightharpoonup> gerr) \<Rightarrow> string \<Rightarrow> bool" where
  "section_ok data errs key \<longleftrightarrow>
     (data key = None) = (errs key \<noteq> None) \<and> (data key \<noteq> None \<longrightarrow> map fst (survey_value data key) = value_keys key)"

lemma section_keys:
  "section_ok data errs key \<Longrightarrow> fst ` set (survey_value data key) = (if errs key = None then set (value_keys key) else {})"
  unfolding section_ok_def by (cases "data key") (auto simp: survey_value_def simp flip: set_map)

lemma task_outcome:
  "outcome_of data errs k (fst (task con m t)) \<Longrightarrow>
   (\<exists>x. data k = Some (con x) \<and> errs k = None) \<or> (data k = None \<and> errs k \<noteq> None)"
  by (auto simp: outcome_of_def task_def and_then_def ret_def split: go.splits prod.splits)

lemma good_load_slot: "good (\<lambda>_. True) m \<Longrightarrow> good (\<lambda>_. True) (load_slot get put sid m)"
  unfolding good_def load_slot_def loadCached_def loadCached_read_def loadCached_locked_def
  by (auto simp: Let_def split: prod.splits option.splits go.splits) (metis fst_conv)

lemma good_any_call: "good (\<lambda>_. True) (call f q client)"
  by (auto simp: good_def call_cases split: prod.splits sum.splits)

lemma good_any_call_checked: "good (\<lambda>_. True) (call_checked f q client)"
  unfolding call_checked_def by (auto intro!: good_and_then good_reply good_any_call)

lemma good_fetchWithProgress: "good (\<lambda>_. True) m \<Longrightarrow> good (\<lambda>_. True) (fetchWithProgress E p ev noun m)"
  unfolding good_def fetchWithProgress_def
  by (auto simp: Let_def split: prod.splits go.splits) (metis fst_conv)

lemmas good_loads = good_load_slot good_any_call good_any_call_checked good_fetchWithProgress

lemma good_survey_tasks: "(k, f) \<in> set (survey_tasks E sid client) \<Longrightarrow> good (\<lambda>_. True) f"
  unfolding survey_tasks_def survey_strings_def loadFunctions_def loadImports_def loadExports_def loadSegments_def
    fetchAllFunctions_def fetchAllImports_def fetchAllExports_def
  by (auto intro!: good_task good_loads good_and_then good_ret)

lemma survey_sections_ok:
  "\<exists>data errs s'. runLabeled order (survey_tasks E sid client) s = (Ret (data, errs), s') \<and>
     (\<forall>k \<in> set survey_sections. section_ok data errs k)"
proof -
  have dist: "distinct (map fst (survey_tasks E sid client))" by (simp add: survey_tasks_def)
  have "\<exists>data errs s'. runLabeled order (survey_tasks E sid client) s = (Ret (data, errs), s') \<and> True \<and>
     (\<forall>k f. (k, f) \<in> set (survey_tasks E sid client) \<longrightarrow> (\<exists>t. True \<and> outcome_of data errs k (fst (f t))))"
    by (rule runLabeled_outcome [where I = "\<lambda>_. True"]) (rule good_survey_tasks dist TrueI, assumption?)+
  then obtain data errs s' where run: "runLabeled order (survey_tasks E sid client) s = (Ret (data, errs), s')"
    and out: "\<forall>k f. (k, f) \<in> set (survey_tasks E sid client) \<longrightarrow> (\<exists>t. outcome_of data errs k (fst (f t)))"
    by blast
  have strings: "survey_strings E client = task (\<lambda>(n, items). VStrings n items)
      (and_then (call_checked (w_GetStrings (wa_list (ev_worker E))) (0, int surveyTopN) client) (\<lambda>(tot, items).
       ret (if tot = 0 \<and> items \<noteq> [] then int32 (int (length items)) else tot, items)))"
    by (auto simp: survey_strings_def task_def and_then_def ret_def fun_eq_iff split: prod.splits go.splits)
  have ok: "section_ok data errs k" if "(k, task con m) \<in> set (survey_tasks E sid client)"
    and "\<And>x. data k = Some (con x) \<Longrightarrow> map fst (survey_value data k) = value_keys k" for k m and con :: "'x \<Rightarrow> task_value"
    using out that task_outcome [of data errs k con m] by (fastforce simp: section_ok_def)
  note tasks = survey_tasks_def strings
  have "section_ok data errs ''segments''"
    by (rule ok [of _ "\<lambda>(d, _). VSegments d"], simp add: tasks) (auto simp: survey_value_def value_keys_def)
  moreover have "section_ok data errs ''functions''"
    by (rule ok [of _ "\<lambda>(d, _). VFunctions d"], simp add: tasks) (auto simp: survey_value_def value_keys_def Let_def)
  moreover have "section_ok data errs ''imports''"
    by (rule ok [of _ "\<lambda>(d, _). VImports d"], simp add: tasks) (auto simp: survey_value_def value_keys_def)
  moreover have "section_ok data errs ''exports''"
    by (rule ok [of _ "\<lambda>(d, _). VExports d"], simp add: tasks) (auto simp: survey_value_def value_keys_def)
  moreover have "section_ok data errs ''strings''"
    by (rule ok [of _ "\<lambda>(n, items). VStrings n items"], simp add: tasks) (auto simp: survey_value_def value_keys_def)
  moreover have "section_ok data errs ''entry_point''"
    by (rule ok [of _ VAddress], simp add: tasks) (auto simp: survey_value_def value_keys_def)
  moreover have "section_ok data errs ''info''"
    by (rule ok [of _ "\<lambda>r. VInfo (rp_Msg r)"], simp add: tasks) (auto simp: survey_value_def value_keys_def)
  ultimately show ?thesis using run by (auto simp: survey_sections_def)
qed

lemma get_key_None: "get_key obj k = None \<longleftrightarrow> k \<notin> fst ` set obj"
  by (simp add: get_key_def map_of_eq_None_iff)

lemma survey_keys:
  assumes "\<forall>k \<in> set survey_sections. section_ok data errs k"
  shows "fst ` set (survey_object path data errs) =
     {''binary_path'', ''next_step''} \<union> (if survey_failed errs = [] then {} else {''failed_sections''}) \<union>
     (\<Union>k \<in> set survey_sections. if errs k = None then set (value_keys k) else {})"
proof -
  let ?order = "[''entry_point'', ''info'', ''segments'', ''functions'', ''imports'', ''exports'', ''strings'']"
  have "(\<Union>k \<in> set ?order. fst ` set (survey_value data k)) = (\<Union>k \<in> set survey_sections. fst ` set (survey_value data k))"
    by (rule arg_cong [where f = "\<lambda>A. \<Union>k \<in> A. fst ` set (survey_value data k)"]) (auto simp: survey_sections_def)
  also have "\<dots> = (\<Union>k \<in> set survey_sections. if errs k = None then set (value_keys k) else {})"
    using assms by (intro SUP_cong refl section_keys) blast
  finally have u: "fst ` set (concat (map (survey_value data) ?order)) =
      (\<Union>k \<in> set survey_sections. if errs k = None then set (value_keys k) else {})"
    unfolding set_concat set_map image_UN SUP_image comp_def .
  show ?thesis
    unfolding survey_object_def Let_def set_append image_Un u by (auto simp: field_if_def)
qed

lemma survey_failed_key:
  assumes "\<forall>k \<in> set survey_sections. section_ok data errs k"
  shows "get_key (survey_object path data errs) ''failed_sections'' =
     (if survey_failed errs = [] then None else Some (JArray (map JString (survey_failed errs))))"
proof (cases "survey_failed errs = []")
  case True
  then show ?thesis
    unfolding get_key_None [symmetric] by (simp add: get_key_None survey_keys [OF assms]) (auto simp: survey_sections_def value_keys_def)
next
  case False
  then show ?thesis by (simp add: get_key_def survey_object_def Let_def field_if_def)
qed

lemma union_of_chosen:
  assumes "j \<notin> A" "j \<notin> B" "k \<in> S" "j \<in> V k" and own: "\<forall>k' \<in> S. j \<in> V k' \<longrightarrow> k' = k"
  shows "j \<in> A \<union> B \<union> (\<Union>k \<in> S. if P k then V k else {}) \<longleftrightarrow> P k"
proof
  assume "j \<in> A \<union> B \<union> (\<Union>k \<in> S. if P k then V k else {})"
  then obtain k' where k': "k' \<in> S" "j \<in> (if P k' then V k' else {})" using assms(1,2) by blast
  then have "P k'" "j \<in> V k'" by (cases "P k'"; simp)+
  then show "P k" using own k'(1) by blast
next
  assume "P k"
  then have "j \<in> (if P k then V k else {})" using assms(4) by simp
  then show "j \<in> A \<union> B \<union> (\<Union>k \<in> S. if P k then V k else {})" using assms(3) by blast
qed

lemma section_keys_distinct:
  "\<forall>k \<in> set survey_sections. \<forall>j \<in> set (value_keys k). j \<notin> {''binary_path'', ''next_step'', ''failed_sections''} \<and>
     (\<forall>k' \<in> set survey_sections. j \<in> set (value_keys k') \<longrightarrow> k' = k)"
  by code_simp

text \<open>A survey accounts for every section. survey_binary of a session that resolves never fails:
  its object has the keys of each section whose loads succeeded, and names exactly the others,
  sorted, under failed_sections, a key that is missing when nothing failed.\<close>

theorem surveyBinary_accounts:
  assumes "resolveClientWait E W (sb_SessionID args) ''survey_binary'' s = (Ret (sess, client), s1)"
  shows "\<exists>obj failed s'. surveyBinary E W args s = (Ret (JsonContent (JObject obj)), s') \<and>
     set failed \<subseteq> set survey_sections \<and> failed = filter (\<lambda>k. k \<in> set failed) survey_sections \<and>
     get_key obj ''failed_sections'' = (if failed = [] then None else Some (JArray (map JString failed))) \<and>
     (\<forall>k \<in> set survey_sections. \<forall>j \<in> set (value_keys k). get_key obj j = None \<longleftrightarrow> k \<in> set failed)"
proof -
  let ?sid = "se_ID (session_of s1 sess)" and ?path = "se_BinaryPath (session_of s1 sess)"
  obtain data errs s2 where run: "runLabeled (sch_tasks (ev_sched E)) (survey_tasks E ?sid client) (getSessionCache ?sid s1) =
      (Ret (data, errs), s2)" and ok: "\<forall>k \<in> set survey_sections. section_ok data errs k"
    using survey_sections_ok by blast
  define obj where "obj = survey_object ?path data errs"
  have failed: "get_key obj ''failed_sections'' =
      (if survey_failed errs = [] then None else Some (JArray (map JString (survey_failed errs))))"
    unfolding obj_def by (rule survey_failed_key [OF ok])
  have keys: "get_key obj j = None \<longleftrightarrow> k \<in> set (survey_failed errs)"
    if "k \<in> set survey_sections" "j \<in> set (value_keys k)" for k j
  proof -
    have new: "j \<notin> {''binary_path'', ''next_step'', ''failed_sections''}"
      and own: "\<forall>k' \<in> set survey_sections. j \<in> set (value_keys k') \<longrightarrow> k' = k"
      using that section_keys_distinct by blast+
    then have "j \<notin> {''binary_path'', ''next_step''}" "j \<notin> (if survey_failed errs = [] then {} else {''failed_sections''})"
      using new by (cases "survey_failed errs = []"; simp)+
    from union_of_chosen [OF this that own, of "\<lambda>k. errs k = None"]
    have "j \<in> fst ` set obj \<longleftrightarrow> errs k = None" unfolding obj_def survey_keys [OF ok] .
    then show ?thesis using that(1) by (simp add: get_key_None survey_failed_def)
  qed
  have sorted: "survey_failed errs = filter (\<lambda>k. k \<in> set (survey_failed errs)) survey_sections"
    by (simp add: survey_failed_def cong: filter_cong)
  obtain s' where "surveyBinary E W args s = (Ret (JsonContent (JObject obj)), s')"
    using assms run by (simp add: surveyBinary_def and_then_def Let_def upd_def ret_def obj_def)
  moreover have "set (survey_failed errs) \<subseteq> set survey_sections" unfolding survey_failed_def by (rule filter_is_subset)
  ultimately show ?thesis
    using failed sorted keys by (intro exI [of _ obj] exI [of _ "survey_failed errs"] exI [of _ s']) blast
qed

theorem surveyBinary_accounts_witness:
  "\<forall>E W. \<exists>obj s'. surveyBinary (reading_worker E) W \<lparr>sb_SessionID = ''a''\<rparr> (demo_server True) = (Ret (JsonContent (JObject obj)), s') \<and>
     (get_key obj ''functions'' = None \<longleftrightarrow> (\<exists>failed. get_key obj ''failed_sections'' = Some (JArray (map JString failed)) \<and>
        ''functions'' \<in> set failed))"
proof (intro allI)
  fix E :: "(string \<times> string) env" and W :: "(string \<times> string) wait_env"
  let ?args = "\<lparr>sb_SessionID = ''a''\<rparr> :: SurveyBinaryRequest"
  have r: "resolveClientWait (reading_worker E) W (sb_SessionID ?args) ''survey_binary'' (demo_server True) =
      (Ret (0, 0), leased (ev_now E) 0 (demo_server True))" by (simp add: reading_worker_resolve)
  obtain obj failed s' where o: "surveyBinary (reading_worker E) W ?args (demo_server True) = (Ret (JsonContent (JObject obj)), s')"
    "get_key obj ''failed_sections'' = (if failed = [] then None else Some (JArray (map JString failed)))"
    "\<forall>k \<in> set survey_sections. \<forall>j \<in> set (value_keys k). get_key obj j = None \<longleftrightarrow> k \<in> set failed"
    using surveyBinary_accounts [OF r] by blast
  have "get_key obj ''functions'' = None \<longleftrightarrow> ''functions'' \<in> set failed"
    using o(3) by (simp add: survey_sections_def value_keys_def)
  moreover have "map JString xs = map JString ys \<Longrightarrow> xs = ys" for xs ys by (simp add: inj_def)
  ultimately show "\<exists>obj s'. surveyBinary (reading_worker E) W ?args (demo_server True) = (Ret (JsonContent (JObject obj)), s') \<and>
     (get_key obj ''functions'' = None \<longleftrightarrow> (\<exists>failed. get_key obj ''failed_sections'' = Some (JArray (map JString failed)) \<and>
        ''functions'' \<in> set failed))"
    using o(1,2) by (intro exI [of _ obj] exI [of _ s']) (auto split: if_splits)
qed

end
