(* ===== verification/Spec2Isabelle.thy ===== *)
theory Spec2Isabelle
  imports Confined Orphans Exposure Processes Loading Registration Analyze
begin

text \<open>
  A verification of IDA Pilot, a server that gives MCP clients the analysis of binaries in IDA.

  The program. A client opens a binary, gets a session, and works on it with some thirty tools. The
  server (internal/server) keeps the registry of sessions, their progress, their caches and the
  truncated outputs; each session has a worker, a Python process that holds the IDA database and
  answers RPCs (internal/worker starts, watches and stops it); the metadata of the sessions lives in
  a directory (internal/session/store.go) and is read back at the next start. main
  (cmd/ida-pilot/main.go) loads the configuration and puts the parts together; a guard on Host and
  Origin headers and an allow-list of directories protect a server that has no authentication.

  How it is modelled. A Go function is a HOL function of the same name. A method that changes state
  is a step: a function from the state to an outcome and a new state (Prelude). An outcome is a
  value, an error value, or a run-time panic; a slice expression out of bounds is a panic. An int is
  an integer that wraps at 64 bits where the code computes with it, an address is a 64-bit word, a
  string is its bytes. Objects that the code shares through pointers (sessions, workers, entries of
  the LRU list) are references into a heap of the record that owns them. What the code reads from
  outside is an argument: the environment record of ServerState holds the clock, the drawn ids, the
  orders in which maps are ranged over, the outcomes of system calls, the JSON coding, the regular
  expression engine and the worker, which is a record of functions over an opaque database, one per
  RPC (Messages). A request is one step of the server, with steps of others at the places where it
  waits; a goroutine a handler starts is a job it returns, and the step relations of Lifecycle and
  ToolTable interleave jobs and requests. The platform is Unix, but for Processes, which has all of them;
  Windows case folding and symbolic links are parameters of the path guard.

  Which theory models what, from the bottom:
  \<^item> Prelude: Go integers, outcomes, slices, steps and the combinator \<open>keeps\<close> for invariants.
  \<^item> Addr (util.go addresses), Paging (normalizePagination, clampPage, formatListHeader), Format
    (format.go), Json (the values the handlers marshal), Requests (params.go), Messages (what a
    worker is asked and answers).
  \<^item> Lru and SessionCache (cache.go): the bounded cache of decompiled text with its element
    pointers, and the lists, cross references, notes and visits of a session; OutputStore
    (output_cache.go): truncated outputs and get_cached_output; Registration: ids of stored outputs
    and the closed sets of the tool schemas.
  \<^item> Paths (pathguard.go), Registry and Store (internal/session), Worker (internal/worker: manager
    and launcher), Parallel (parallel.go).
  \<^item> ServerState: the Server record, progress (progress.go), the tiers of tools (server.go), the
    resolution of a session with its lease and the readiness gate (util.go). Calls: one RPC and the
    error ladders around it. Fetch: the enumerations of a worker and the warming of a cache.
  \<^item> Lifecycle (session.go): open, close, restore, expiry, analysis passes, progress reports.
    Opening, Loading and Expiry: what open_binary, its background load and the watchdog leave behind.
  \<^item> WriteTools (write.go), ReadTools (read.go, search.go), Composite (composite.go), Types
    (types.go), Cross (cross.go), Imports (il2cpp.go, flutter.go), Dispatch (dispatch.go): the tools.
    Analyze: what the composite tools answer.
  \<^item> Keeping and ToolTable: one lemma per handler for invariants of the server; the table of tools with
    the output cache around each and the steps of the whole server. Serving: what makes an invariant
    hold of all steps. Tools, Confined and Exposure: three invariants of every reachable state, of the
    registry, tools and caches, of the open binaries, and of the settings.
  \<^item> Http (http.go: localhostGuard), Config (the configuration of server.go and the flags and checks
    of main), Startup (main), Restart (shutdown and the next start), Exposure (the log of a start and the
    routing of HTTPMux, next to what the guard does).
  \<^item> Racing and Orphans: the parts of open_binary and of the watchdog as separate steps, with the steps
    of other requests in between.
  \<^item> Processes (launcher_reap_*.go, process_alive_*.go): what binds a worker to its server on each
    platform.

  Interfaces. \<open>page_walk\<close> (Paging) is a paginated source, provided by the list tools and by
  get_cached_output; \<open>lru_cache\<close> (Lru) the bounded cache, provided by the pointer-based one;
  \<open>text_cache\<close> (SessionCache) what the writing tools rely on; \<open>output_cache\<close> (OutputStore) what the
  tool wrapper relies on; \<open>controller\<close> (Worker) Go's Controller interface; \<open>stable_state\<close>,
  \<open>stable_session\<close>, \<open>tool_state\<close> and \<open>serving\<close> (Calls, Keeping, Serving), each extending the one
  before, an invariant that the primitive operations of handlers keep, with one lemma per handler
  and per kind of step proved against it once; \<open>serving\<close> has three providers. Each is interpreted on
  the definitions of the program.

  What is shown. The main results, with the lemmas they rest on in the same theory:
  \<^item> Whole server (Startup, Restart): every state reached from main with any configuration and any
    stored sessions keeps the registry, tool, output and cache invariants; a restarted server has
    exactly the sessions that were saved and not deleted; where the settings that guard it come from;
    with allowed roots, only binaries below them, and those of restored sessions, are ever open; a
    server that did not warn of its bind address guards every request.
  \<^item> Refinement and equivalence: the pointer-based cache refines a bounded recency list; a run of
    parallel tasks gives what a sequential run gives, whatever the schedule; the readiness that
    get_session_progress reports is the one the gate uses; renames and retypings keep the cached
    text in agreement with the database (and where they do not).
  \<^item> Safety: confined paths, the Host and Origin guard, the readiness gate, leases against expiry, at
    most one analysis pass, all or nothing for open_binary, a failed write leaves the caches.
  \<^item> Termination and completeness: a launch returns, a background load settles with the gate open or
    the failure recorded, the string enumeration ends with every string, following the offsets of a
    list collects it once.
  \<^item> Round trips and bounds: addresses, the session store, the clamped pages.
  \<^item> Behaviour that looks unintended is stated as a theorem too, each with its concrete instance: a
    panic of get_cached_output and of get_globals on extreme arguments, a session hidden by the
    deletion of its twin, a stale monitor that drops a new worker, a leftover temporary file that
    blocks every restore, two opens that race and make twins, a lease that comes too late for the
    watchdog, a wait that ignores a failed load, a watch that opens the gate, a rename
    that leaves the text of callers stale, a failed session that stays failed when opened again, and
    blank allowed roots that leave every path open, a worker that outlives the session that was closed
    while it started, and workers that outlive a crash.

  Bounds. Recursion is structural almost everywhere. A polling loop consumes a list of what it
  observes (clock, probes, ticks), so it ends with the list; that a launch returns is shown for
  any observations that pass the deadline. The page loop of the string enumeration takes its fuel
  from the number of pages the context of the call lets through (\<open>sch_pages\<close>), and the result says
  how many are enough. The IPv6 parser has the eight groups of an address as its fuel.

  Not modelled. The generated Connect client and protobuf code; the handlers and the
  transport of the MCP SDK; listening, signals, process creation and log attachment; the wording of
  tool descriptions and of the log; the Python worker and IDA; rounding of float64 (a double is a
  rational); finer interleavings than whole RPCs, cache operations and critical sections. A handler
  is one step of the whole server except where it waits for a session; the interleavings inside
  open_binary and the watchdog that this hides are those of Racing and Orphans.
\<close>

end
